(* ===== verification/Rust_Prelude.thy ===== *)
theory Rust_Prelude
  imports Main "HOL-Library.Word"
begin

text \<open>
  The vocabulary the component theories share: the widths of the machine integers, the
  result of a Rust call (a value, an error, or a panic), slices and fixed-size arrays,
  little- and big-endian integer encodings, decimal and hexadecimal formatting, and the
  generic notion of a state machine with an invariant.  Everything here models the language
  and its standard library; the code of the repository starts in the component theories.
\<close>

unbundle bit_operations_syntax

section \<open>Machine integers and byte strings\<close>

type_synonym u8 = "8 word"
type_synonym u16 = "16 word"
type_synonym u32 = "32 word"
type_synonym u64 = "64 word"
type_synonym usize = "64 word"
type_synonym u256 = "256 word"
type_synonym bytes = "8 word list"

named_theorems layout_simps "lengths and pieces of byte layouts"
named_theorems wf_intros "introduction rules for well-formedness"
named_theorems byte_eval "evaluation of concrete byte strings"

section \<open>The result of a call\<close>

text \<open>
  A Rust function returns \<open>Ok\<close> or \<open>Err\<close>, or it panics.  A function that does not return a
  \<open>Result\<close> but may panic uses the same type and never yields \<open>Err\<close>.
\<close>

datatype ('a, 'e) outcome = Ok 'a | Err 'e | Panic

primrec and_then :: "('a, 'e) outcome \<Rightarrow> ('a \<Rightarrow> ('b, 'e) outcome) \<Rightarrow> ('b, 'e) outcome" where
  "and_then (Ok x) f = f x"
| "and_then (Err e) f = Err e"
| "and_then Panic f = Panic"

primrec map_ok :: "('a \<Rightarrow> 'b) \<Rightarrow> ('a, 'e) outcome \<Rightarrow> ('b, 'e) outcome" where
  "map_ok f (Ok x) = Ok (f x)"
| "map_ok f (Err e) = Err e"
| "map_ok f Panic = Panic"

primrec map_err :: "('e \<Rightarrow> 'd) \<Rightarrow> ('a, 'e) outcome \<Rightarrow> ('a, 'd) outcome" where
  "map_err f (Ok x) = Ok x"
| "map_err f (Err e) = Err (f e)"
| "map_err f Panic = Panic"

primrec unwrap :: "('a, 'e) outcome \<Rightarrow> ('a, 'd) outcome" where
  "unwrap (Ok x) = Ok x"
| "unwrap (Err e) = Panic"
| "unwrap Panic = Panic"

primrec expect :: "'a option \<Rightarrow> ('a, 'e) outcome" where
  "expect None = Panic"
| "expect (Some x) = Ok x"

primrec ok_or :: "'e \<Rightarrow> 'a option \<Rightarrow> ('a, 'e) outcome" where
  "ok_or e None = Err e"
| "ok_or e (Some x) = Ok x"

primrec is_ok :: "('a, 'e) outcome \<Rightarrow> bool" where
  "is_ok (Ok x) = True"
| "is_ok (Err e) = False"
| "is_ok Panic = False"

lemma is_okE: "is_ok x \<Longrightarrow> (\<And>y. x = Ok y \<Longrightarrow> P) \<Longrightarrow> P"
  by (cases x) auto

lemma and_then_Ok_iff [simp]: "and_then m f = Ok y \<longleftrightarrow> (\<exists>x. m = Ok x \<and> f x = Ok y)"
  by (cases m) auto

lemma and_then_Err_iff: "and_then m f = Err e \<longleftrightarrow> m = Err e \<or> (\<exists>x. m = Ok x \<and> f x = Err e)"
  by (cases m) auto

lemma and_then_Panic_iff: "and_then m f = Panic \<longleftrightarrow> m = Panic \<or> (\<exists>x. m = Ok x \<and> f x = Panic)"
  by (cases m) auto

lemma and_then_assoc: "and_then (and_then m f) g = and_then m (\<lambda>x. and_then (f x) g)"
  by (cases m) auto

lemma map_ok_eq_Ok_iff [simp]: "map_ok f m = Ok y \<longleftrightarrow> (\<exists>x. m = Ok x \<and> y = f x)"
  by (cases m) auto

lemma map_ok_eq_Panic_iff [simp]: "map_ok f m = Panic \<longleftrightarrow> m = Panic"
  by (cases m) auto

lemma map_err_eq_Ok_iff [simp]: "map_err f m = Ok y \<longleftrightarrow> m = Ok y"
  by (cases m) auto

lemma map_err_eq_Err_iff [simp]: "map_err f m = Err d \<longleftrightarrow> (\<exists>e. m = Err e \<and> d = f e)"
  by (cases m) auto

lemma map_err_eq_Panic_iff [simp]: "map_err f m = Panic \<longleftrightarrow> m = Panic"
  by (cases m) auto

lemma unwrap_eq_Ok_iff [simp]: "unwrap m = Ok y \<longleftrightarrow> m = Ok y"
  by (cases m) auto

lemma expect_eq_Ok_iff [simp]: "expect v = Ok y \<longleftrightarrow> v = Some y"
  by (cases v) auto

lemma expect_not_Err [simp]: "expect v \<noteq> Err e"
  by (cases v) auto

lemma ok_or_eq_Ok_iff [simp]: "ok_or e v = Ok y \<longleftrightarrow> v = Some y"
  by (cases v) auto

text \<open>Running a fallible function over a list stops at the first failure.\<close>

fun try_map :: "('a \<Rightarrow> ('b, 'e) outcome) \<Rightarrow> 'a list \<Rightarrow> ('b list, 'e) outcome" where
  "try_map f [] = Ok []"
| "try_map f (x # xs) = and_then (f x) (\<lambda>y. and_then (try_map f xs) (\<lambda>ys. Ok (y # ys)))"

lemma try_map_all_Ok: "(\<And>x. x \<in> set xs \<Longrightarrow> f x = Ok (g x)) \<Longrightarrow> try_map f xs = Ok (map g xs)"
  by (induction xs) auto

section \<open>Integer arithmetic under the two build profiles\<close>

text \<open>
  \<open>usize\<close> and \<open>u64\<close> addition panics on overflow in a debug build and wraps around in a
  release build (the release profile of \<open>Cargo.toml\<close> does not turn overflow checks on).
  The first argument says which profile is meant.
\<close>

definition add_checked :: "bool \<Rightarrow> 'a::len word \<Rightarrow> 'a word \<Rightarrow> ('a word, 'e) outcome" where
  "add_checked overflow_checks a b =
     (if overflow_checks \<and> unat a + unat b \<ge> 2 ^ LENGTH('a) then Panic else Ok (a + b))"

definition saturating_add :: "'a::len word \<Rightarrow> 'a word \<Rightarrow> 'a word" where
  "saturating_add a b = (if unat a + unat b \<ge> 2 ^ LENGTH('a) then - 1 else a + b)"

definition saturating_mul :: "'a::len word \<Rightarrow> 'a word \<Rightarrow> 'a word" where
  "saturating_mul a b = (if unat a * unat b \<ge> 2 ^ LENGTH('a) then - 1 else a * b)"

lemma unat_add_no_overflow: "unat a + unat b < 2 ^ LENGTH('a) \<Longrightarrow> unat (a + b) = unat a + unat b"
  for a b :: "'a::len word"
  by (simp add: unat_word_ariths)

lemma unat_add_no_wrap: "unat a \<le> unat (a + b) \<Longrightarrow> unat (a + b) = unat a + unat b" for a b :: "'a::len word"
  by (metis no_olen_add_nat unat_add_no_overflow word_le_nat_alt)

lemma of_nat_eq_word_iff: "n < 2 ^ LENGTH('a) \<Longrightarrow> of_nat n = w \<longleftrightarrow> n = unat w" for w :: "'a::len word"
  by (metis mod_less of_nat_unat ucast_id unat_of_nat)

lemma add_checked_no_overflow:
  "unat a + unat b < 2 ^ LENGTH('a) \<Longrightarrow> add_checked oc a b = Ok (a + b)" for a b :: "'a::len word"
  by (simp add: add_checked_def)

lemma unat_minus_one_word_max [byte_eval]: "unat (- 1 :: 'a::len word) = 2 ^ LENGTH('a) - 1"
  by (simp add: unsigned_minus_1_eq_mask mask_eq_exp_minus_1)

lemma unat_saturating_add:
  "unat (saturating_add a b) = min (2 ^ LENGTH('a) - 1) (unat a + unat b)" for a b :: "'a::len word"
  by (auto simp: saturating_add_def unat_minus_one_word_max min_def unat_add_no_overflow)

lemma unat_saturating_mul:
  "unat (saturating_mul a b) = min (2 ^ LENGTH('a) - 1) (unat a * unat b)" for a b :: "'a::len word"
  by (auto simp: saturating_mul_def unat_minus_one_word_max min_def unat_word_ariths)

section \<open>Slices and fixed-size arrays\<close>

text \<open>\<open>&xs[a..b]\<close> panics unless \<open>a \<le> b \<le> xs.len()\<close>; indices are the \<open>usize\<close> values of the code.\<close>

definition slice :: "'a list \<Rightarrow> nat \<Rightarrow> nat \<Rightarrow> ('a list, 'e) outcome" where
  "slice xs a b = (if a \<le> b \<and> b \<le> length xs then Ok (take (b - a) (drop a xs)) else Panic)"

text \<open>\<open>dst.copy_from_slice(src)\<close> into an array of \<open>n\<close> elements panics unless the lengths agree.\<close>

definition copy_from_slice :: "nat \<Rightarrow> 'a list \<Rightarrow> ('a list, 'e) outcome" where
  "copy_from_slice n src = (if length src = n then Ok src else Panic)"

lemma slice_not_Err [simp]: "slice xs a b \<noteq> Err e"
  by (simp add: slice_def)

lemma copy_from_slice_not_Err [simp]: "copy_from_slice n xs \<noteq> Err e"
  by (simp add: copy_from_slice_def)

lemma slice_append_mid [layout_simps]:
  "a = length xs \<Longrightarrow> b = length xs + length ys \<Longrightarrow> slice (xs @ ys @ zs) a b = Ok ys"
  by (simp add: slice_def)

lemma take_drop_resume: "j = i + k \<Longrightarrow> take k (drop i xs) @ drop j xs = drop i xs"
  by (metis add.commute append_take_drop_id drop_drop)

lemma slice_Ok_iff: "slice xs a b = Ok ys \<longleftrightarrow> a \<le> b \<and> b \<le> length xs \<and> ys = take (b - a) (drop a xs)"
  by (auto simp: slice_def)

lemma slice_length: "slice xs a b = Ok ys \<Longrightarrow> length ys = b - a"
  by (auto simp: slice_Ok_iff)

section \<open>Integer encodings\<close>

text \<open>
  \<open>le_bytes k n\<close> are the \<open>k\<close> low bytes of \<open>n\<close>, least significant first; \<open>le_value\<close> reads them
  back.  \<open>to_le_bytes\<close>, \<open>from_le_bytes\<close> (\<open>u64\<close>) and \<open>write_u32::<BigEndian>\<close>,
  \<open>read_u32::<BigEndian>\<close> are instances.
\<close>

fun le_bytes :: "nat \<Rightarrow> nat \<Rightarrow> bytes" where
  "le_bytes 0 n = []"
| "le_bytes (Suc k) n = of_nat (n mod 256) # le_bytes k (n div 256)"

fun le_value :: "bytes \<Rightarrow> nat" where
  "le_value [] = 0"
| "le_value (b # bs) = unat b + 256 * le_value bs"

definition u64_to_le_bytes :: "u64 \<Rightarrow> bytes" where
  "u64_to_le_bytes w = le_bytes 8 (unat w)"

definition u64_from_le_bytes :: "bytes \<Rightarrow> u64" where
  "u64_from_le_bytes bs = of_nat (le_value bs)"

definition write_u32_be :: "u32 \<Rightarrow> bytes" where
  "write_u32_be w = rev (le_bytes 4 (unat w))"

text \<open>Reading from a slice takes its first four bytes and fails when there are fewer.\<close>

definition read_u32_be :: "bytes \<Rightarrow> u32 option" where
  "read_u32_be bs = (if 4 \<le> length bs then Some (of_nat (le_value (rev (take 4 bs)))) else None)"

lemma length_le_bytes [simp, layout_simps]: "length (le_bytes k n) = k"
  by (induction k arbitrary: n) auto

lemma le_bytes_numeral [byte_eval]:
  "le_bytes (numeral k) n = of_nat (n mod 256) # le_bytes (pred_numeral k) (n div 256)"
  by (simp only: numeral_eq_Suc le_bytes.simps)

lemma replicate_numeral_Cons [byte_eval]:
  "replicate (numeral k) x = x # replicate (pred_numeral k) x"
  by (simp only: numeral_eq_Suc replicate.simps)

lemma unat_u8_less: "unat (b :: u8) < 256"
  using unsigned_less [of b, where ?'a = nat] by simp

lemma le_value_less: "le_value bs < 256 ^ length bs"
proof (induction bs)
  case (Cons b bs)
  have "unat b + 256 * le_value bs < 256 * (le_value bs + 1)"
    using unat_u8_less [of b] by simp
  also have "\<dots> \<le> 256 * 256 ^ length bs"
    using Cons.IH by simp
  finally show ?case by simp
qed simp

lemma le_value_le_bytes: "n < 256 ^ k \<Longrightarrow> le_value (le_bytes k n) = n"
proof (induction k arbitrary: n)
  case (Suc k)
  then have "le_value (le_bytes k (n div 256)) = n div 256"
    by (simp add: less_mult_imp_div_less mult.commute)
  moreover have "unat (of_nat (n mod 256) :: u8) = n mod 256"
    by (simp add: unat_of_nat)
  ultimately show ?case by simp
qed simp

lemma le_bytes_le_value: "length bs = k \<Longrightarrow> le_bytes k (le_value bs) = bs"
proof (induction bs arbitrary: k)
  case (Cons b bs)
  then obtain j where k: "k = Suc j" and j: "length bs = j" by auto
  have "(unat b + 256 * le_value bs) mod 256 = unat b" "(unat b + 256 * le_value bs) div 256 = le_value bs"
    using unat_u8_less [of b] by simp_all
  with Cons.IH [OF j] show ?case by (simp add: k)
qed simp

text \<open>
  A fixed-width codec is an interface: encoding always yields \<open>width\<close> bytes, and decoding such
  a string inverts it in both directions.  The layouts of the wire format and of the nonce
  rest on it.
\<close>

locale fixed_codec =
  fixes enc :: "'v \<Rightarrow> bytes"
    and dec :: "bytes \<Rightarrow> 'v"
    and width :: nat
  assumes enc_length: "length (enc v) = width"
    and dec_enc: "dec (enc v) = v"
    and enc_dec: "length bs = width \<Longrightarrow> enc (dec bs) = bs"
begin

lemma enc_inject: "enc v = enc w \<longleftrightarrow> v = w"
  by (metis dec_enc)

lemma enc_eq_iff: "length bs = width \<Longrightarrow> enc v = bs \<longleftrightarrow> v = dec bs"
  by (metis dec_enc enc_dec)

lemma slice_field:
  "a = length xs \<Longrightarrow> b = length xs + width \<Longrightarrow> slice (xs @ enc v @ zs) a b = Ok (enc v)"
  by (simp add: slice_append_mid enc_length)

end

definition u32_from_be :: "bytes \<Rightarrow> u32" where
  "u32_from_be bs = of_nat (le_value (rev bs))"

interpretation le64: fixed_codec u64_to_le_bytes u64_from_le_bytes 8
proof
  show "length (u64_to_le_bytes v) = 8" for v by (simp add: u64_to_le_bytes_def)
  show "u64_from_le_bytes (u64_to_le_bytes v) = v" for v
    using unsigned_less [of v, where ?'a = nat]
    by (simp add: u64_to_le_bytes_def u64_from_le_bytes_def le_value_le_bytes)
  show "length bs = 8 \<Longrightarrow> u64_to_le_bytes (u64_from_le_bytes bs) = bs" for bs
    using le_value_less [of bs]
    by (simp add: u64_to_le_bytes_def u64_from_le_bytes_def unat_of_nat le_bytes_le_value)
qed

interpretation be32: fixed_codec write_u32_be u32_from_be 4
proof
  show "length (write_u32_be v) = 4" for v by (simp add: write_u32_be_def)
  show "u32_from_be (write_u32_be v) = v" for v
    using unsigned_less [of v, where ?'a = nat]
    by (simp add: write_u32_be_def u32_from_be_def le_value_le_bytes)
  show "length bs = 4 \<Longrightarrow> write_u32_be (u32_from_be bs) = bs" for bs
    using le_value_less [of "rev bs"]
    by (simp add: write_u32_be_def u32_from_be_def unat_of_nat le_bytes_le_value)
qed

lemmas codec_lengths [simp, layout_simps] = le64.enc_length be32.enc_length

lemma read_u32_be_exact: "length bs = 4 \<Longrightarrow> read_u32_be bs = Some (u32_from_be bs)"
  by (simp add: read_u32_be_def u32_from_be_def)

section \<open>Formatting integers\<close>

text \<open>\<open>n.to_string()\<close> for unsigned integers, and the hexadecimal formats \<open>{:x}\<close> and \<open>{:02x}\<close>.\<close>

definition digit_char :: "nat \<Rightarrow> char" where
  "digit_char d = (if d < 10 then char_of (48 + d) else char_of (87 + d))"

fun radix_string :: "nat \<Rightarrow> nat \<Rightarrow> string" where
  "radix_string r n =
     (if r < 2 then [] else if n < r then [digit_char n]
      else radix_string r (n div r) @ [digit_char (n mod r)])"

declare radix_string.simps [simp del]

definition dec_string :: "nat \<Rightarrow> string" where
  "dec_string n = radix_string 10 n"

definition hex_string :: "nat \<Rightarrow> string" where
  "hex_string n = radix_string 16 n"

definition hex2_byte :: "u8 \<Rightarrow> string" where
  "hex2_byte b = [digit_char (unat b div 16), digit_char (unat b mod 16)]"

text \<open>The bytes of an ASCII string, as \<open>keccak(number.to_string())\<close> hashes them.\<close>

definition ascii_bytes :: "string \<Rightarrow> bytes" where
  "ascii_bytes s = map of_char s"

fun radix_value :: "nat \<Rightarrow> nat list \<Rightarrow> nat" where
  "radix_value r [] = 0"
| "radix_value r (d # ds) = d + r * radix_value r ds"

definition char_digit :: "char \<Rightarrow> nat" where
  "char_digit c = (if of_char c < (58::nat) then of_char c - 48 else of_char c - 87)"

lemma char_digit_digit_char: "d < 16 \<Longrightarrow> char_digit (digit_char d) = d"
  by (simp add: char_digit_def digit_char_def)

lemma radix_string_read:
  "2 \<le> r \<Longrightarrow> r \<le> 16 \<Longrightarrow> radix_value r (map char_digit (rev (radix_string r n))) = n"
proof (induction r n rule: radix_string.induct)
  case (1 r n)
  then have "n mod r < 16" by (meson le_trans mod_less_divisor not_less order_less_le_trans zero_less_numeral)
  with 1 show ?case
    by (subst radix_string.simps) (auto simp: char_digit_digit_char)
qed

lemma dec_string_inject: "dec_string m = dec_string n \<longleftrightarrow> m = n"
proof
  assume "dec_string m = dec_string n"
  then have "radix_value 10 (map char_digit (rev (radix_string 10 m)))
      = radix_value 10 (map char_digit (rev (radix_string 10 n)))"
    by (simp only: dec_string_def)
  then show "m = n" using radix_string_read [of 10] by simp
qed simp

lemma of_char_u8_inject: "(of_char c :: u8) = of_char d \<longleftrightarrow> c = d"
proof
  have val: "unat (of_char x :: u8) = of_char x" for x
  proof -
    have "(of_char x :: u8) = of_nat (of_char x)" by (metis of_nat_of_char)
    then have "unat (of_char x :: u8) = of_char x mod 256" by (simp only: unat_of_nat) simp
    then show ?thesis by simp
  qed
  assume "(of_char c :: u8) = of_char d"
  then have "of_char c = (of_char d :: nat)" by (metis val)
  then show "c = d" by simp
qed simp

lemma ascii_bytes_inject: "ascii_bytes s = ascii_bytes t \<longleftrightarrow> s = t"
  unfolding ascii_bytes_def
  by (rule inj_map_eq_map) (simp add: inj_def of_char_u8_inject)

section \<open>Growing maps\<close>

lemma map_le_SomeD: "m \<subseteq>\<^sub>m m' \<Longrightarrow> m k = Some v \<Longrightarrow> m' k = Some v"
  unfolding map_le_def by (metis domI)

section \<open>State machines\<close>

text \<open>
  The reachable states of a step relation, and the interface by which a component shows that
  an invariant holds in all of them: it holds at the start and every step keeps it.
\<close>

inductive reachable :: "('s \<Rightarrow> bool) \<Rightarrow> ('s \<Rightarrow> 's \<Rightarrow> bool) \<Rightarrow> 's \<Rightarrow> bool"
  for start :: "'s \<Rightarrow> bool" and step :: "'s \<Rightarrow> 's \<Rightarrow> bool" where
  reachable_start: "start s \<Longrightarrow> reachable start step s"
| reachable_step: "reachable start step s \<Longrightarrow> step s t \<Longrightarrow> reachable start step t"

lemma reachable_steps: "step\<^sup>*\<^sup>* s t \<Longrightarrow> reachable start step s \<Longrightarrow> reachable start step t"
  by (induction rule: rtranclp_induct) (auto intro: reachable.reachable_step)

locale invariant_machine =
  fixes start :: "'s \<Rightarrow> bool"
    and step :: "'s \<Rightarrow> 's \<Rightarrow> bool"
    and inv :: "'s \<Rightarrow> bool"
  assumes inv_start: "start s \<Longrightarrow> inv s"
    and inv_step: "inv s \<Longrightarrow> step s t \<Longrightarrow> inv t"
begin

lemma reachable_inv: "reachable start step s \<Longrightarrow> inv s"
  by (induction rule: reachable.induct) (auto intro: inv_start inv_step)

lemma steps_inv: "step\<^sup>*\<^sup>* s t \<Longrightarrow> inv s \<Longrightarrow> inv t"
  by (induction rule: rtranclp_induct) (auto intro: inv_step)

end

text \<open>A machine whose steps only add to what its state records.\<close>

locale growing_machine = invariant_machine +
  fixes grows :: "'a \<Rightarrow> 'a \<Rightarrow> bool"
  assumes grows_refl: "grows s s"
    and grows_trans: "grows s t \<Longrightarrow> grows t u \<Longrightarrow> grows s u"
    and step_grows: "inv s \<Longrightarrow> step s t \<Longrightarrow> grows s t"
begin

lemma steps_grow: "step\<^sup>*\<^sup>* s t \<Longrightarrow> inv s \<Longrightarrow> grows s t"
proof (induction rule: rtranclp_induct)
  case (step t u)
  then show ?case using grows_trans step_grows steps_inv by blast
qed (simp add: grows_refl)

lemma reachable_steps_grow: "reachable start step s \<Longrightarrow> step\<^sup>*\<^sup>* s t \<Longrightarrow> grows s t"
  by (intro steps_grow reachable_inv)

end

end
