(* ===== verification/Byte_Arrays.thy ===== *)
theory Byte_Arrays
  imports Rust_Prelude
begin

text \<open>
  The macro \<open>impl_bytes!\<close> of \<open>ekiden_crypto/src/bytes.rs\<close>: a newtype over \<open>[u8; size]\<close> with
  its conversions, ordering, formatting and (de)serialization.  The macro is instantiated for
  hashes, keys, identifiers and signatures; \<open>n\<close> stands for \<open>$size\<close> throughout.  Decoding of
  hexadecimal text is done by the crate \<open>rustc_hex\<close>, which is the parameter \<open>from_hex\<close>.
\<close>

section \<open>The newtype and its conversions\<close>

datatype byte_array = ByteArray (inner: bytes)

datatype ordering = Less | Equal | Greater

text \<open>The error of \<open>rustc_hex\<close> and the errors the \<open>serde\<close> visitor raises.\<close>

datatype from_hex_error = InvalidHexCharacter char nat | InvalidHexLength

datatype 'e visit_error = InvalidLength nat | SeqError 'e

definition wf_array :: "nat \<Rightarrow> byte_array \<Rightarrow> bool" where
  "wf_array n a \<longleftrightarrow> length (inner a) = n"

definition as_ref :: "byte_array \<Rightarrow> bytes" where
  "as_ref a = inner a"

definition array_eq :: "byte_array \<Rightarrow> byte_array \<Rightarrow> bool" where
  "array_eq a b \<longleftrightarrow> list_all2 (=) (inner a) (inner b)"

fun slice_cmp :: "bytes \<Rightarrow> bytes \<Rightarrow> ordering" where
  "slice_cmp [] [] = Equal"
| "slice_cmp [] (y # ys) = Less"
| "slice_cmp (x # xs) [] = Greater"
| "slice_cmp (x # xs) (y # ys) =
     (if x < y then Less else if y < x then Greater else slice_cmp xs ys)"

definition cmp :: "byte_array \<Rightarrow> byte_array \<Rightarrow> ordering" where
  "cmp a b = slice_cmp (inner a) (inner b)"

definition partial_cmp :: "byte_array \<Rightarrow> byte_array \<Rightarrow> ordering option" where
  "partial_cmp a b = Some (cmp a b)"

definition hash_into :: "('h \<Rightarrow> bytes \<Rightarrow> 'h) \<Rightarrow> byte_array \<Rightarrow> 'h \<Rightarrow> 'h" where
  "hash_into write a state = write state (inner a)"

definition array_default :: "nat \<Rightarrow> byte_array" where
  "array_default n = ByteArray (replicate n 0)"

definition into_inner :: "byte_array \<Rightarrow> bytes" where
  "into_inner a = inner a"

definition from_slice :: "nat \<Rightarrow> bytes \<Rightarrow> (byte_array, 'e) outcome" where
  "from_slice n b = map_ok ByteArray (copy_from_slice n b)"

definition from_vec :: "nat \<Rightarrow> bytes \<Rightarrow> (byte_array, 'e) outcome" where
  "from_vec n v = from_slice n v"

definition from_str ::
  "(string \<Rightarrow> (bytes, from_hex_error) outcome) \<Rightarrow> nat \<Rightarrow> string \<Rightarrow> (byte_array, from_hex_error) outcome"
  where
  "from_str from_hex n s =
     and_then (from_hex s) (\<lambda>a.
       if length a \<noteq> n then Err InvalidHexLength
       else map_ok ByteArray (copy_from_slice n a))"

definition starts_with :: "string \<Rightarrow> string \<Rightarrow> bool" where
  "starts_with p s \<longleftrightarrow> take (length p) s = p"

definition from_static_str ::
  "(string \<Rightarrow> (bytes, from_hex_error) outcome) \<Rightarrow> nat \<Rightarrow> string \<Rightarrow> (byte_array, 'e) outcome" where
  "from_static_str from_hex n s0 =
     (let s = (if starts_with ''0x'' s0 then drop 2 s0 else s0)
      in if length s mod 2 = 1 then unwrap (from_str from_hex n (''0'' @ s))
         else unwrap (from_str from_hex n s))"

section \<open>Formatting and serialization\<close>

definition lower_hex :: "byte_array \<Rightarrow> string" where
  "lower_hex a = concat (map hex2_byte (inner a))"

definition debug_fmt :: "byte_array \<Rightarrow> string" where
  "debug_fmt a = lower_hex a"

text \<open>The ellipsis of the short form is one code point, three bytes of UTF-8.\<close>

definition ellipsis :: string where
  "ellipsis = [char_of (226::nat), char_of (128::nat), char_of (166::nat)]"

definition display_fmt :: "nat \<Rightarrow> byte_array \<Rightarrow> (string, 'e) outcome" where
  "display_fmt n a =
     and_then (slice (inner a) 0 2) (\<lambda>hd2.
     and_then (slice (inner a) (n - 2) n) (\<lambda>tl2.
       Ok (concat (map hex2_byte hd2) @ ellipsis @ concat (map hex2_byte tl2))))"

definition serialize :: "(bytes \<Rightarrow> 'r) \<Rightarrow> byte_array \<Rightarrow> 'r" where
  "serialize serialize_bytes a = serialize_bytes (as_ref a)"

text \<open>
  The visitor reads \<open>n\<close> elements of a sequence; element access may itself fail, and what
  follows the \<open>n\<close>-th element is left unread.  \<open>i\<close> is the loop counter.
\<close>

fun visit_elements :: "nat \<Rightarrow> nat \<Rightarrow> (u8, 'e) outcome list \<Rightarrow> (bytes, 'e visit_error) outcome" where
  "visit_elements i 0 seq = Ok []"
| "visit_elements i (Suc k) [] = Err (InvalidLength i)"
| "visit_elements i (Suc k) (x # seq) =
     and_then (map_err SeqError x) (\<lambda>b.
     and_then (visit_elements (Suc i) k seq) (\<lambda>bs. Ok (b # bs)))"

definition visit_seq :: "nat \<Rightarrow> (u8, 'e) outcome list \<Rightarrow> (byte_array, 'e visit_error) outcome" where
  "visit_seq n seq = map_ok ByteArray (visit_elements 0 n seq)"

definition visit_bytes :: "nat \<Rightarrow> bytes \<Rightarrow> (byte_array, 'e visit_error) outcome" where
  "visit_bytes n data =
     (if length data \<noteq> n then Err (InvalidLength (length data))
      else map_ok ByteArray (copy_from_slice n data))"

section \<open>The ordering\<close>

lemma slice_cmp_Equal_iff [simp]: "slice_cmp xs ys = Equal \<longleftrightarrow> xs = ys"
  by (induction xs ys rule: slice_cmp.induct) auto

lemma slice_cmp_refl [simp]: "slice_cmp xs xs = Equal"
  by simp

lemma slice_cmp_swap: "slice_cmp xs ys = Greater \<longleftrightarrow> slice_cmp ys xs = Less"
  by (induction xs ys rule: slice_cmp.induct) auto

lemma slice_cmp_Less_trans:
  "slice_cmp xs ys = Less \<Longrightarrow> slice_cmp ys zs = Less \<Longrightarrow> slice_cmp xs zs = Less"
proof (induction xs ys arbitrary: zs rule: slice_cmp.induct)
  case (2 y ys)
  then show ?case by (cases zs) auto
next
  case (4 x xs y ys)
  then show ?case by (cases zs) (auto split: if_splits)
qed auto

instantiation byte_array :: linorder
begin

definition less_eq_byte_array :: "byte_array \<Rightarrow> byte_array \<Rightarrow> bool" where
  "less_eq_byte_array a b \<longleftrightarrow> cmp a b \<noteq> Greater"

definition less_byte_array :: "byte_array \<Rightarrow> byte_array \<Rightarrow> bool" where
  "less_byte_array a b \<longleftrightarrow> cmp a b = Less"

instance
proof
  fix a b c :: byte_array
  have le: "a \<le> b \<longleftrightarrow> a = b \<or> cmp a b = Less" for a b :: byte_array
    by (cases "cmp a b"; cases a; cases b) (auto simp: less_eq_byte_array_def cmp_def)
  have swap: "cmp a b = Greater \<longleftrightarrow> cmp b a = Less" for a b
    by (simp add: cmp_def slice_cmp_swap)
  have trans: "cmp a b = Less \<Longrightarrow> cmp b c = Less \<Longrightarrow> cmp a c = Less" for a b c
    unfolding cmp_def by (rule slice_cmp_Less_trans)
  show "a \<le> a" by (simp add: le)
  show "a \<le> b \<Longrightarrow> b \<le> c \<Longrightarrow> a \<le> c" by (auto simp: le intro: trans)
  show anti: "a \<le> b \<Longrightarrow> b \<le> a \<Longrightarrow> a = b" by (metis le swap ordering.distinct(3) less_eq_byte_array_def)
  show "a \<le> b \<or> b \<le> a" by (metis le swap less_eq_byte_array_def)
  show "a < b \<longleftrightarrow> a \<le> b \<and> \<not> b \<le> a"
    by (metis less_byte_array_def less_eq_byte_array_def swap ordering.distinct(3))
qed

end

text \<open>On arrays of one size the order is the order of the big-endian integers.\<close>

lemma le_value_append: "le_value (xs @ ys) = le_value xs + 256 ^ length xs * le_value ys"
  by (induction xs) (auto simp: algebra_simps)

lemma slice_cmp_numeric:
  "length xs = length ys \<Longrightarrow>
   slice_cmp xs ys = Less \<longleftrightarrow> le_value (rev xs) < le_value (rev ys)"
proof (induction xs ys rule: slice_cmp.induct)
  case (4 x xs y ys)
  then have len: "length xs = length ys" by simp
  let ?m = "256 ^ length ys"
  have X: "le_value (rev xs) < ?m" and Y: "le_value (rev ys) < ?m"
    using le_value_less [of "rev xs"] le_value_less [of "rev ys"] len by simp_all
  have step: "p + ?m * unat a < q + ?m * unat b" if "unat a < unat b" "p < ?m" for p q and a b :: u8
  proof -
    from that have "p + ?m * unat a < ?m * (unat a + 1)" by simp
    also have "\<dots> \<le> ?m * unat b" using that(1) by (intro mult_le_mono2) simp
    finally show ?thesis by simp
  qed
  have val: "le_value (rev (x # xs)) = le_value (rev xs) + ?m * unat x"
    "le_value (rev (y # ys)) = le_value (rev ys) + ?m * unat y"
    by (simp_all add: le_value_append len)
  consider "x < y" | "y < x" | "x = y" by (meson linorder_less_linear)
  then show ?case
  proof cases
    case 1
    then show ?thesis using step [of x y] X val by (simp add: word_less_nat_alt)
  next
    case 2
    then show ?thesis using step [of y x "le_value (rev ys)" "le_value (rev xs)"] Y val
      by (auto simp: word_less_nat_alt)
  next
    case 3
    then show ?thesis using 4 len val by simp
  qed
qed auto

text \<open>
  The ordering that the macro derives from slice comparison is, on arrays of the same
  size, exactly the order of the unsigned big-endian integers the arrays spell.
\<close>

theorem cmp_is_big_endian_order:
  assumes "wf_array n a" and "wf_array n b"
  shows "cmp a b =
    (let x = le_value (rev (inner a)); y = le_value (rev (inner b))
     in if x < y then Less else if x = y then Equal else Greater)"
proof -
  have len: "length (inner a) = length (inner b)" using assms by (simp add: wf_array_def)
  note num = slice_cmp_numeric [OF len] slice_cmp_numeric [OF len [symmetric]]
  show ?thesis
    by (cases "cmp a b") (use num slice_cmp_swap [of "inner a" "inner b"] in \<open>auto simp: cmp_def Let_def\<close>)
qed

theorem cmp_is_big_endian_order_witness:
  "wf_array 2 (ByteArray [1, 0]) \<and> wf_array 2 (ByteArray [0, 255]) \<and>
   cmp (ByteArray [1, 0]) (ByteArray [0, 255]) = Greater"
proof -
  have h: "wf_array 2 (ByteArray [1, 0])" "wf_array 2 (ByteArray [0, 255])"
    by (simp_all add: wf_array_def)
  show ?thesis using h cmp_is_big_endian_order [OF h] by (simp add: Let_def)
qed

section \<open>Round trips\<close>

text \<open>What the code relies on in \<open>rustc_hex\<close>: two lower-case digits per byte decode to the bytes.\<close>

definition hex_decoder :: "(string \<Rightarrow> (bytes, from_hex_error) outcome) \<Rightarrow> bool" where
  "hex_decoder from_hex \<longleftrightarrow> (\<forall>bs. from_hex (concat (map hex2_byte bs)) = Ok bs)"

lemma hex2_byte_length [simp]: "length (hex2_byte b) = 2"
  by (simp add: hex2_byte_def)

lemma lower_hex_length [simp]: "length (lower_hex a) = 2 * length (inner a)"
  by (simp add: lower_hex_def length_concat comp_def sum_list_triv)

lemma digit_char_not_x: "d < 16 \<Longrightarrow> digit_char d \<noteq> CHR ''x''"
  using char_digit_digit_char [of d] by (auto simp: char_digit_def)

lemma lower_hex_no_prefix: "\<not> starts_with ''0x'' (lower_hex a)"
proof (cases "inner a")
  case (Cons b bs)
  have "digit_char (unat b mod 16) \<noteq> CHR ''x''" by (rule digit_char_not_x) simp
  with Cons show ?thesis by (simp add: starts_with_def lower_hex_def hex2_byte_def)
qed (simp add: starts_with_def lower_hex_def)

text \<open>
  Printing an array with \<open>{:x}\<close> and parsing the text gives the array back, through
  \<open>FromStr\<close> and through \<open>From<&'static str>\<close>, with and without the prefix \<open>0x\<close>.
\<close>

theorem hex_round_trip:
  assumes "hex_decoder from_hex" and "wf_array n a"
  shows "from_str from_hex n (lower_hex a) = Ok a
    \<and> from_static_str from_hex n (lower_hex a) = Ok a
    \<and> from_static_str from_hex n (''0x'' @ lower_hex a) = Ok a"
proof -
  have "from_hex (lower_hex a) = Ok (inner a)"
    using assms(1) by (simp add: hex_decoder_def lower_hex_def)
  then have parse: "from_str from_hex n (lower_hex a) = Ok a"
    using assms(2) by (simp add: from_str_def wf_array_def copy_from_slice_def)
  moreover have "starts_with ''0x'' (''0x'' @ lower_hex a)" by (simp add: starts_with_def)
  ultimately show ?thesis
    using lower_hex_no_prefix [of a] by (simp add: from_static_str_def)
qed

fun sample_from_hex :: "string \<Rightarrow> (bytes, from_hex_error) outcome" where
  "sample_from_hex [] = Ok []"
| "sample_from_hex [c] = Err InvalidHexLength"
| "sample_from_hex (c # d # s) =
     map_ok (\<lambda>bs. of_nat (16 * char_digit c + char_digit d) # bs) (sample_from_hex s)"

lemma sample_from_hex_decodes: "hex_decoder sample_from_hex"
proof -
  have "sample_from_hex (concat (map hex2_byte bs)) = Ok bs" for bs
  proof (induction bs)
    case (Cons b bs)
    have "unat b div 16 < 16" using unat_u8_less [of b] by simp
    then have "of_nat (16 * char_digit (digit_char (unat b div 16)) + char_digit (digit_char (unat b mod 16))) = b"
      by (simp add: char_digit_digit_char)
    with Cons.IH show ?case by (simp add: hex2_byte_def)
  qed simp
  then show ?thesis by (simp add: hex_decoder_def)
qed

theorem hex_round_trip_witness:
  "hex_decoder sample_from_hex \<and> wf_array 2 (ByteArray [10, 255])
   \<and> from_str sample_from_hex 2 (lower_hex (ByteArray [10, 255])) = Ok (ByteArray [10, 255])"
proof -
  have h: "hex_decoder sample_from_hex" "wf_array 2 (ByteArray [10, 255])"
    by (simp_all add: wf_array_def sample_from_hex_decodes)
  show ?thesis using h hex_round_trip [OF h] by blast
qed

lemma visit_elements_values:
  "visit_elements i n (map Ok bs) =
     (if n \<le> length bs then Ok (take n bs) else Err (InvalidLength (i + length bs)))"
proof (induction bs arbitrary: i n)
  case Nil
  then show ?case by (cases n) auto
next
  case (Cons b bs)
  show ?case using Cons.IH [of "Suc i"] by (cases n) auto
qed

text \<open>
  Deserialization inverts serialization.  A byte string is accepted exactly when it has
  the declared size; a sequence is accepted when it has at least that many elements, of which
  the first are taken; in both refusals the error carries the number of bytes that were there.
\<close>

theorem deserialize_inverts_serialize:
  "serialize (visit_bytes n) a =
     (if wf_array n a then Ok a else Err (InvalidLength (length (inner a))))
   \<and> serialize (\<lambda>bs. visit_seq n (map Ok bs)) a =
     (if n \<le> length (inner a) then Ok (ByteArray (take n (inner a)))
      else Err (InvalidLength (length (inner a))))"
  by (cases a)
     (simp add: serialize_def as_ref_def visit_bytes_def visit_seq_def visit_elements_values
       copy_from_slice_def wf_array_def)

end
