(* ===== verification/Signature.thy ===== *)
theory Signature
  imports Byte_Arrays
begin

text \<open>
  \<open>ekiden_crypto/src/hash.rs\<close> and \<open>ekiden_crypto/src/signature.rs\<close>: SHA-512/256 digests, the
  check that a signature's scalar is below the order of the curve, and the key and signature
  types around \<open>ed25519_dalek\<close>.  The crates \<open>sha2\<close> and \<open>ed25519_dalek\<close> are parameters.
\<close>

section \<open>Hashes\<close>

text \<open>\<open>Sha512Trunc256::digest\<close> is the parameter \<open>sha\<close>; its streaming interface is a record.\<close>

record 'c sha_stream =
  sha_new :: 'c
  sha_input :: "bytes \<Rightarrow> 'c \<Rightarrow> 'c"
  sha_result :: "'c \<Rightarrow> bytes"

definition HASH_SIZE :: nat where
  "HASH_SIZE = 32"

definition digest_bytes :: "(bytes \<Rightarrow> bytes) \<Rightarrow> bytes \<Rightarrow> (byte_array, 'e) outcome" where
  "digest_bytes sha data = map_ok ByteArray (copy_from_slice HASH_SIZE (sha data))"

definition digest_bytes_list :: "'c sha_stream \<Rightarrow> bytes list \<Rightarrow> (byte_array, 'e) outcome" where
  "digest_bytes_list st data =
     map_ok ByteArray (copy_from_slice HASH_SIZE (sha_result st (fold (sha_input st) data (sha_new st))))"

text \<open>The 32 constant bytes of the source, written as one big-endian numeral.\<close>

definition empty_hash :: byte_array where
  "empty_hash = ByteArray (rev (le_bytes 32 0xc672b8d1ef56ed28ab87c3622c5114069bdd3ad7b8f9737498d0c01ecef0967a))"

definition hash_is_empty :: "byte_array \<Rightarrow> bool" where
  "hash_is_empty h = array_eq h empty_hash"

section \<open>Keys and signatures\<close>

text \<open>What the code calls in \<open>ed25519_dalek\<close>; a failed parse is \<open>None\<close>.\<close>

record ('sk, 'pk, 'sig) ed25519 =
  sk_from_bytes :: "bytes \<Rightarrow> 'sk option"
  sk_to_bytes :: "'sk \<Rightarrow> bytes"
  sk_public :: "'sk \<Rightarrow> 'pk"
  pk_to_bytes :: "'pk \<Rightarrow> bytes"
  pk_from_bytes :: "bytes \<Rightarrow> 'pk option"
  kp_sign :: "'sk \<Rightarrow> 'pk \<Rightarrow> bytes \<Rightarrow> 'sig"
  sig_to_bytes :: "'sig \<Rightarrow> bytes"
  sig_from_bytes :: "bytes \<Rightarrow> 'sig option"
  pk_verify :: "'pk \<Rightarrow> bytes \<Rightarrow> 'sig \<Rightarrow> bool"

datatype signature_error = MalleabilityError | DalekError

record ('sk, 'pk) keypair =
  kp_secret :: 'sk
  kp_public :: 'pk

text \<open>A signature bundled with the key that made it; the derived default has no key.\<close>

record signature_bundle =
  bundle_public_key :: "byte_array option"
  bundle_signature :: byte_array

definition signature_bundle_default :: signature_bundle where
  "signature_bundle_default = \<lparr>bundle_public_key = None, bundle_signature = array_default 64\<rparr>"

text \<open>Key generation draws the secret from the operating system: the argument \<open>random\<close>.\<close>

definition private_key_generate :: "('sk, 'pk, 'sig) ed25519 \<Rightarrow> 'sk \<Rightarrow> ('sk, 'pk) keypair" where
  "private_key_generate ed random = \<lparr>kp_secret = random, kp_public = sk_public ed random\<rparr>"

definition private_key_to_bytes :: "('sk, 'pk, 'sig) ed25519 \<Rightarrow> ('sk, 'pk) keypair \<Rightarrow> bytes" where
  "private_key_to_bytes ed k = sk_to_bytes ed (kp_secret k)"

definition private_key_from_bytes ::
  "('sk, 'pk, 'sig) ed25519 \<Rightarrow> bytes \<Rightarrow> (('sk, 'pk) keypair, 'e) outcome" where
  "private_key_from_bytes ed bs =
     and_then (expect (sk_from_bytes ed bs)) (\<lambda>sk. Ok \<lparr>kp_secret = sk, kp_public = sk_public ed sk\<rparr>)"

definition private_key_from_test_seed ::
  "('sk, 'pk, 'sig) ed25519 \<Rightarrow> (bytes \<Rightarrow> bytes) \<Rightarrow> string \<Rightarrow> (('sk, 'pk) keypair, 'e) outcome" where
  "private_key_from_test_seed ed sha seed =
     and_then (digest_bytes sha (ascii_bytes seed)) (\<lambda>h.
     and_then (expect (sk_from_bytes ed (as_ref h))) (\<lambda>sk.
       Ok \<lparr>kp_secret = sk, kp_public = sk_public ed sk\<rparr>))"

definition private_key_public_key :: "('sk, 'pk, 'sig) ed25519 \<Rightarrow> ('sk, 'pk) keypair \<Rightarrow> byte_array" where
  "private_key_public_key ed k = ByteArray (pk_to_bytes ed (kp_public k))"

definition sign ::
  "('sk, 'pk, 'sig) ed25519 \<Rightarrow> 'c sha_stream \<Rightarrow> ('sk, 'pk) keypair \<Rightarrow> bytes \<Rightarrow> bytes
   \<Rightarrow> (byte_array, signature_error) outcome" where
  "sign ed st k ctxt message =
     and_then (digest_bytes_list st [ctxt, message]) (\<lambda>digest.
       Ok (ByteArray (sig_to_bytes ed (kp_sign ed (kp_secret k) (kp_public k) (as_ref digest)))))"

section \<open>The malleability check\<close>

definition CURVE_ORDER :: "u64 list" where
  "CURVE_ORDER = [0x1000000000000000, 0, 0x14def9dea2f79cd6, 0x5812631a5cf5d3ed]"

text \<open>The loop over the limbs, from the most significant one; \<open>False\<close> when all are equal.\<close>

fun compare_limbs :: "nat list \<Rightarrow> u64 list \<Rightarrow> bool" where
  "compare_limbs [] s = False"
| "compare_limbs (i # is) s =
     (if CURVE_ORDER ! i < s ! i then False
      else if s ! i < CURVE_ORDER ! i then True
      else compare_limbs is s)"

text \<open>\<open>read_u64_into\<close> fills the four limbs from the first 32 bytes and fails when there are fewer.\<close>

definition read_limbs :: "bytes \<Rightarrow> u64 list option" where
  "read_limbs raw =
     (if length raw < 32 then None
      else Some (map (\<lambda>i. u64_from_le_bytes (take 8 (drop (8 * i) raw))) [0, 1, 2, 3]))"

definition sc_minimal :: "bytes \<Rightarrow> (bool, 'e) outcome" where
  "sc_minimal raw_s =
     and_then (expect (read_limbs raw_s)) (\<lambda>s. Ok (compare_limbs [0, 1, 2, 3] (rev s)))"

definition verify ::
  "('sk, 'pk, 'sig) ed25519 \<Rightarrow> 'c sha_stream \<Rightarrow> byte_array \<Rightarrow> byte_array \<Rightarrow> bytes \<Rightarrow> bytes
   \<Rightarrow> (unit, signature_error) outcome" where
  "verify ed st self pk ctxt message =
     and_then (expect (pk_from_bytes ed (as_ref pk))) (\<lambda>pk.
     and_then (digest_bytes_list st [ctxt, message]) (\<lambda>digest.
     let sig_slice = as_ref self in
     and_then (expect (sig_from_bytes ed sig_slice)) (\<lambda>sig.
     and_then (slice sig_slice 32 (length sig_slice)) (\<lambda>raw_s.
     and_then (sc_minimal raw_s) (\<lambda>minimal.
       if \<not> minimal then Err MalleabilityError
       else if pk_verify ed pk (as_ref digest) sig then Ok () else Err DalekError)))))"

section \<open>The check is the comparison with the order\<close>

definition ed25519_order :: nat where
  "ed25519_order = 2 ^ 252 + 27742317777372353535851937790883648493"

definition limb :: "bytes \<Rightarrow> nat \<Rightarrow> nat" where
  "limb raw i = le_value (take 8 (drop (8 * i) raw))"

lemma limb_less: "limb raw i < 2 ^ 64"
proof -
  have "limb raw i < 256 ^ length (take 8 (drop (8 * i) raw))" unfolding limb_def by (rule le_value_less)
  also have "\<dots> \<le> 256 ^ 8" by (rule power_increasing) auto
  finally show ?thesis by simp
qed

lemma unat_limb: "unat (u64_from_le_bytes (take 8 (drop (8 * i) raw))) = limb raw i"
  using limb_less [of raw i] by (simp add: u64_from_le_bytes_def limb_def unat_of_nat)

lemma le_value_split: "k \<le> length xs \<Longrightarrow> le_value xs = le_value (take k xs) + 256 ^ k * le_value (drop k xs)"
  using le_value_append [of "take k xs" "drop k xs"] by simp

lemma le_value_limbs:
  assumes "length raw = 32"
  shows "le_value raw = limb raw 0 + 2 ^ 64 * limb raw 1 + 2 ^ 128 * limb raw 2 + 2 ^ 192 * limb raw 3"
proof -
  have "le_value raw = limb raw 0 + 256 ^ 8 * le_value (drop 8 raw)"
    using assms le_value_split [of 8 raw] by (simp add: limb_def)
  moreover have "le_value (drop 8 raw) = limb raw 1 + 256 ^ 8 * le_value (drop 16 raw)"
    using assms le_value_split [of 8 "drop 8 raw"] by (simp add: limb_def)
  moreover have "le_value (drop 16 raw) = limb raw 2 + 256 ^ 8 * le_value (drop 24 raw)"
    using assms le_value_split [of 8 "drop 16 raw"] by (simp add: limb_def)
  moreover have "le_value (drop 24 raw) = limb raw 3"
    using assms by (simp add: limb_def)
  ultimately show ?thesis by simp
qed

lemma compare_limbs_nat:
  "compare_limbs [0, 1, 2, 3] (rev (map (\<lambda>i. u64_from_le_bytes (take 8 (drop (8 * i) raw))) [0, 1, 2, 3]))
   \<longleftrightarrow> limb raw 3 < 0x1000000000000000 \<or> limb raw 3 = 0x1000000000000000 \<and>
     (limb raw 2 < 0 \<or> limb raw 2 = 0 \<and> (limb raw 1 < 0x14def9dea2f79cd6 \<or>
      limb raw 1 = 0x14def9dea2f79cd6 \<and> limb raw 0 < 0x5812631a5cf5d3ed))"
  using unat_limb [of 0 raw] unat_limb [of 1 raw] unat_limb [of 2 raw] unat_limb [of 3 raw]
  by (auto simp: CURVE_ORDER_def word_less_nat_alt)

lemma digit_less:
  fixes a m b :: nat
  assumes "a < m" and "a' < m"
  shows "a + m * b < a' + m * b' \<longleftrightarrow> b < b' \<or> b = b' \<and> a < a'"
proof -
  have step: "x + m * y < x' + m * y'" if "y < y'" "x < m" for x x' y y' :: nat
  proof -
    from that have "x + m * y < m * (y + 1)" by simp
    also have "\<dots> \<le> m * y'" using that(1) by (intro mult_le_mono2) simp
    finally show ?thesis by simp
  qed
  show ?thesis
    using step [of b b' a a'] step [of b' b a' a] assms by (cases b b' rule: linorder_cases) auto
qed

lemma ed25519_order_limbs:
  "ed25519_order = 0x5812631a5cf5d3ed + 2 ^ 64 * (0x14def9dea2f79cd6 + 2 ^ 64 * (0 + 2 ^ 64 * 0x1000000000000000))"
  by (simp add: ed25519_order_def)

lemma lexicographic_below_order:
  fixes a b c d :: nat
  assumes "a < 2 ^ 64" "b < 2 ^ 64" "c < 2 ^ 64"
  shows "a + 2 ^ 64 * b + 2 ^ 128 * c + 2 ^ 192 * d < ed25519_order \<longleftrightarrow>
    d < 0x1000000000000000 \<or> d = 0x1000000000000000 \<and>
     (c < 0 \<or> c = 0 \<and> (b < 0x14def9dea2f79cd6 \<or> b = 0x14def9dea2f79cd6 \<and> a < 0x5812631a5cf5d3ed))"
proof -
  have "a + 2 ^ 64 * b + 2 ^ 128 * c + 2 ^ 192 * d = a + 2 ^ 64 * (b + 2 ^ 64 * (c + 2 ^ 64 * d))"
    by simp
  then show ?thesis
    unfolding ed25519_order_limbs using assms by (simp only: digit_less) (auto simp: digit_less)
qed

lemma sc_minimal_below_order:
  assumes "length raw_s = 32"
  shows "sc_minimal raw_s = Ok (le_value raw_s < ed25519_order)"
proof -
  have "read_limbs raw_s = Some (map (\<lambda>i. u64_from_le_bytes (take 8 (drop (8 * i) raw_s))) [0, 1, 2, 3])"
    by (simp add: read_limbs_def assms)
  then show ?thesis
    unfolding sc_minimal_def le_value_limbs [OF assms]
    by (simp only: expect.simps and_then.simps compare_limbs_nat
        lexicographic_below_order [OF limb_less limb_less limb_less])
qed

text \<open>
  C23. The limb-by-limb loop decides whether the little-endian scalar is below the order
  \<open>2^252 + 27742317777372353535851937790883648493\<close> of the curve, and it never panics on the
  32 bytes it is given.
\<close>

theorem sc_minimal_is_scalar_below_order:
  assumes "length raw_s = 32"
  shows "sc_minimal raw_s = Ok (le_value raw_s < ed25519_order)"
  using assms by (rule sc_minimal_below_order)

theorem sc_minimal_is_scalar_below_order_witness:
  "length (replicate 31 (0::u8) @ [16]) = 32
   \<and> sc_minimal (replicate 31 0 @ [16]) = (Ok True :: (bool, unit) outcome)
   \<and> length (replicate 31 (0::u8) @ [17]) = 32
   \<and> sc_minimal (replicate 31 0 @ [17]) = (Ok False :: (bool, unit) outcome)"
proof -
  have h: "length (replicate 31 (0::u8) @ [16]) = 32" "length (replicate 31 (0::u8) @ [17]) = 32"
    by simp_all
  have v: "le_value (replicate 31 0 @ [16]) < ed25519_order" "\<not> le_value (replicate 31 0 @ [17]) < ed25519_order"
    by (simp_all add: ed25519_order_def le_value_append byte_eval)
  show ?thesis
    using h v sc_minimal_is_scalar_below_order [OF h(1)] sc_minimal_is_scalar_below_order [OF h(2)]
    by simp
qed

section \<open>Signing and verifying\<close>

text \<open>
  What the code relies on in \<open>ed25519_dalek\<close>: encodings are read back, a key verifies what it
  signed, and a signer produces a canonical scalar (RFC 8032).
\<close>

definition ed25519_laws :: "('sk, 'pk, 'sig) ed25519 \<Rightarrow> bool" where
  "ed25519_laws ed \<longleftrightarrow>
     (\<forall>sk. sk_from_bytes ed (sk_to_bytes ed sk) = Some sk)
   \<and> (\<forall>pk. pk_from_bytes ed (pk_to_bytes ed pk) = Some pk)
   \<and> (\<forall>sg. sig_from_bytes ed (sig_to_bytes ed sg) = Some sg \<and> length (sig_to_bytes ed sg) = 64)
   \<and> (\<forall>sk m. pk_verify ed (sk_public ed sk) m (kp_sign ed sk (sk_public ed sk) m))
   \<and> (\<forall>sk pk m. le_value (drop 32 (sig_to_bytes ed (kp_sign ed sk pk m))) < ed25519_order)"

definition sha_stream_law :: "'c sha_stream \<Rightarrow> (bytes \<Rightarrow> bytes) \<Rightarrow> bool" where
  "sha_stream_law st sha \<longleftrightarrow>
     (\<forall>ds. sha_result st (fold (sha_input st) ds (sha_new st)) = sha (concat ds))
   \<and> (\<forall>d. length (sha d) = HASH_SIZE)"

lemma digest_bytes_list_concat:
  "sha_stream_law st sha \<Longrightarrow> digest_bytes_list st ds = Ok (ByteArray (sha (concat ds)))"
  by (simp add: digest_bytes_list_def sha_stream_law_def copy_from_slice_def)

text \<open>
  Verification, in full: a signature whose scalar is not below the curve order is refused
  with \<open>MalleabilityError\<close> whatever the library says of it, and every other signature gets the
  library's verdict on the SHA-512/256 digest of the context followed by the message.
\<close>

theorem verify_rejects_malleable:
  assumes "wf_array 64 self" and "sha_stream_law st sha"
    and "pk_from_bytes ed (as_ref pk) = Some p" and "sig_from_bytes ed (as_ref self) = Some sg"
  shows "verify ed st self pk ctxt message =
    (if ed25519_order \<le> le_value (drop 32 (inner self)) then Err MalleabilityError
     else if pk_verify ed p (sha (ctxt @ message)) sg then Ok () else Err DalekError)"
proof -
  have len: "length (inner self) = 64" using assms(1) by (simp add: wf_array_def)
  have sl: "slice (inner self) 32 (length (inner self)) = Ok (drop 32 (inner self))"
    using len by (simp add: slice_def)
  have sc: "sc_minimal (drop 32 (inner self)) = Ok (le_value (drop 32 (inner self)) < ed25519_order)"
    by (rule sc_minimal_below_order) (simp add: len)
  show ?thesis
    using assms(3,4)
    by (auto simp: verify_def digest_bytes_list_concat [OF assms(2)] as_ref_def Let_def sl sc)
qed

text \<open>A concrete stand-in for the library: the empty signature scheme with zero signatures.\<close>

definition sample_ed25519 :: "(bytes, bytes, unit) ed25519" where
  "sample_ed25519 =
     \<lparr>sk_from_bytes = Some, sk_to_bytes = id, sk_public = id, pk_to_bytes = id, pk_from_bytes = Some,
      kp_sign = (\<lambda>sk pk m. ()), sig_to_bytes = (\<lambda>sg. replicate 64 0),
      sig_from_bytes = (\<lambda>bs. Some ()), pk_verify = (\<lambda>pk m sg. True)\<rparr>"

definition sample_sha :: "bytes \<Rightarrow> bytes" where
  "sample_sha d = take 32 (d @ replicate 32 0)"

definition sample_sha_stream :: "bytes sha_stream" where
  "sample_sha_stream = \<lparr>sha_new = [], sha_input = (\<lambda>d c. c @ d), sha_result = sample_sha\<rparr>"

lemma fold_append_concat: "fold (\<lambda>d c. c @ d) ds c = c @ concat ds"
  by (induction ds arbitrary: c) auto

lemma sample_sha_stream_law: "sha_stream_law sample_sha_stream sample_sha"
  by (simp add: sha_stream_law_def sample_sha_stream_def sample_sha_def HASH_SIZE_def fold_append_concat min_def)

theorem verify_rejects_malleable_witness:
  "wf_array 64 (ByteArray (replicate 64 255)) \<and> sha_stream_law sample_sha_stream sample_sha
   \<and> verify sample_ed25519 sample_sha_stream (ByteArray (replicate 64 255)) (ByteArray []) [1] [2]
     = Err MalleabilityError"
proof -
  let ?s = "ByteArray (replicate 64 255)"
  have h: "wf_array 64 ?s" "pk_from_bytes sample_ed25519 (as_ref (ByteArray [])) = Some []"
    "sig_from_bytes sample_ed25519 (as_ref ?s) = Some ()"
    by (simp_all add: wf_array_def sample_ed25519_def as_ref_def)
  have "ed25519_order \<le> le_value (drop 32 (inner ?s))"
    by (simp add: ed25519_order_def byte_eval)
  then show ?thesis
    using h(1) sample_sha_stream_law verify_rejects_malleable [OF h(1) sample_sha_stream_law h(2,3), of "[1]" "[2]"]
    by simp
qed

text \<open>
  A key that is stored with \<open>to_bytes\<close> and reloaded with \<open>from_bytes\<close> is the same key, and what
  it signs is accepted by \<open>verify\<close> under the public key it publishes.
\<close>

theorem reloaded_key_signs_verifiably:
  assumes "ed25519_laws ed" and "sha_stream_law st sha" and "kp_public k = sk_public ed (kp_secret k)"
  shows "\<exists>k' s. private_key_from_bytes ed (private_key_to_bytes ed k) = Ok k' \<and> k' = k
    \<and> sign ed st k' ctxt message = Ok s \<and> wf_array 64 s
    \<and> verify ed st s (private_key_public_key ed k) ctxt message = Ok ()"
proof -
  let ?d = "sha (ctxt @ message)"
  let ?g = "kp_sign ed (kp_secret k) (kp_public k) ?d"
  let ?s = "ByteArray (sig_to_bytes ed ?g)"
  have dg: "digest_bytes_list st [ctxt, message] = Ok (ByteArray ?d)"
    using digest_bytes_list_concat [OF assms(2), of "[ctxt, message]"] by simp
  have len: "length (sig_to_bytes ed ?g) = 64" using assms(1) by (simp add: ed25519_laws_def)
  have low: "le_value (drop 32 (sig_to_bytes ed ?g)) < ed25519_order"
    using assms(1) by (simp add: ed25519_laws_def)
  have "private_key_from_bytes ed (private_key_to_bytes ed k) = Ok k"
    using assms(1,3) by (cases k) (simp add: private_key_from_bytes_def private_key_to_bytes_def ed25519_laws_def)
  moreover have "sign ed st k ctxt message = Ok ?s"
    by (simp add: sign_def dg as_ref_def)
  moreover have "verify ed st ?s (private_key_public_key ed k) ctxt message = Ok ()"
    using assms(1,3) len low
    by (simp add: verify_def dg as_ref_def Let_def slice_def private_key_public_key_def
        sc_minimal_below_order ed25519_laws_def)
  ultimately show ?thesis using len by (auto simp: wf_array_def)
qed

theorem reloaded_key_signs_verifiably_witness:
  "ed25519_laws sample_ed25519 \<and> sha_stream_law sample_sha_stream sample_sha
   \<and> verify sample_ed25519 sample_sha_stream (ByteArray (replicate 64 0))
       (private_key_public_key sample_ed25519 \<lparr>kp_secret = [7], kp_public = [7]\<rparr>) [1] [2] = Ok ()"
proof -
  have zero: "le_value (replicate n 0) = 0" for n by (induction n) auto
  have laws: "ed25519_laws sample_ed25519"
    by (simp add: ed25519_laws_def sample_ed25519_def zero ed25519_order_def)
  have "sign sample_ed25519 sample_sha_stream \<lparr>kp_secret = [7], kp_public = [7]\<rparr> [1] [2] = Ok (ByteArray (replicate 64 0))"
    by (simp add: sign_def digest_bytes_list_concat [OF sample_sha_stream_law] sample_ed25519_def)
  then show ?thesis
    using laws sample_sha_stream_law
      reloaded_key_signs_verifiably [OF laws sample_sha_stream_law, of "\<lparr>kp_secret = [7], kp_public = [7]\<rparr>" "[1]" "[2]"]
    by (auto simp: sample_ed25519_def)
qed

end
