(* ===== verification/Mrae.thy ===== *)
theory Mrae
  imports Signature
begin

text \<open>
  \<open>ekiden_crypto/src/mrae/deoxysii.rs\<close>: the asymmetric box built from X25519, HMAC over
  SHA-512/256 and the Deoxys-II authenticated cipher.  The three primitives are third-party
  crates and form the record \<open>mrae_lib\<close>, a parameter of every definition.
\<close>

section \<open>The primitives and the box\<close>

text \<open>Sizes of Deoxys-II-256-128: a 256-bit key and a 128-bit tag.\<close>

definition KEY_SIZE :: nat where
  "KEY_SIZE = 32"

definition TAG_SIZE :: nat where
  "TAG_SIZE = 16"

text \<open>
  \<open>d2_seal key nonce plaintext additional_data\<close> and \<open>d2_open\<close> with a ciphertext in its place;
  \<open>x25519_dh private public\<close>; an error of the cipher is its printed form.
\<close>

record mrae_lib =
  x25519_public :: "bytes \<Rightarrow> bytes"
  x25519_dh :: "bytes \<Rightarrow> bytes \<Rightarrow> bytes"
  hmac_sha512_256 :: "bytes \<Rightarrow> bytes \<Rightarrow> bytes"
  d2_seal :: "bytes \<Rightarrow> bytes \<Rightarrow> bytes \<Rightarrow> bytes \<Rightarrow> bytes"
  d2_open :: "bytes \<Rightarrow> bytes \<Rightarrow> bytes \<Rightarrow> bytes \<Rightarrow> (bytes, string) outcome"

definition derive_symmetric_key :: "mrae_lib \<Rightarrow> bytes \<Rightarrow> bytes \<Rightarrow> (bytes, 'e) outcome" where
  "derive_symmetric_key lib public private =
     (let pmk = x25519_dh lib private public;
          digest = hmac_sha512_256 lib (ascii_bytes ''MRAE_Box_Deoxys-II-256-128'') pmk
      in and_then (slice digest 0 KEY_SIZE) (copy_from_slice KEY_SIZE))"

text \<open>The secret scalar comes from the operating system's generator: the argument \<open>sk\<close>.\<close>

definition generate_key_pair :: "mrae_lib \<Rightarrow> bytes \<Rightarrow> bytes \<times> bytes" where
  "generate_key_pair lib sk = (x25519_public lib sk, sk)"

definition box_seal ::
  "mrae_lib \<Rightarrow> bytes \<Rightarrow> bytes \<Rightarrow> bytes \<Rightarrow> bytes \<Rightarrow> bytes \<Rightarrow> (bytes, string) outcome" where
  "box_seal lib nonce plaintext additional_data peers_public_key private_key =
     and_then (derive_symmetric_key lib peers_public_key private_key) (\<lambda>key.
       Ok (d2_seal lib key nonce plaintext additional_data))"

definition box_open ::
  "mrae_lib \<Rightarrow> bytes \<Rightarrow> bytes \<Rightarrow> bytes \<Rightarrow> bytes \<Rightarrow> bytes \<Rightarrow> (bytes, string) outcome" where
  "box_open lib nonce ciphertext additional_data peers_public_key private_key =
     and_then (derive_symmetric_key lib peers_public_key private_key) (\<lambda>key.
       d2_open lib key nonce ciphertext additional_data)"

section \<open>What the box promises\<close>

text \<open>
  The documented behaviour the code relies on: Diffie-Hellman agreement, the sizes of keys and
  digests, and that opening what was sealed under the same key, nonce and data returns it.
\<close>

definition dh_law :: "mrae_lib \<Rightarrow> bool" where
  "dh_law lib \<longleftrightarrow>
     (\<forall>a b. x25519_dh lib a (x25519_public lib b) = x25519_dh lib b (x25519_public lib a))
   \<and> (\<forall>k m. length (hmac_sha512_256 lib k m) = HASH_SIZE)"

definition aead_law :: "mrae_lib \<Rightarrow> bool" where
  "aead_law lib \<longleftrightarrow>
     (\<forall>k n p a. d2_open lib k n (d2_seal lib k n p a) a = Ok p)
   \<and> (\<forall>k n p a. length (d2_seal lib k n p a) = length p + TAG_SIZE)"

definition box_key :: "mrae_lib \<Rightarrow> bytes \<Rightarrow> bytes \<Rightarrow> bytes" where
  "box_key lib public private =
     hmac_sha512_256 lib (ascii_bytes ''MRAE_Box_Deoxys-II-256-128'') (x25519_dh lib private public)"

lemma derive_symmetric_key_eq:
  "dh_law lib \<Longrightarrow> derive_symmetric_key lib public private = Ok (box_key lib public private)"
  by (simp add: derive_symmetric_key_def dh_law_def box_key_def Let_def slice_def copy_from_slice_def
      KEY_SIZE_def HASH_SIZE_def)

lemma box_key_agree:
  "dh_law lib \<Longrightarrow> box_key lib (x25519_public lib b) a = box_key lib (x25519_public lib a) b"
  unfolding box_key_def dh_law_def by metis

lemma box_seal_eq:
  "dh_law lib \<Longrightarrow> box_seal lib n p ad pk sk = Ok (d2_seal lib (box_key lib pk sk) n p ad)"
  by (simp add: box_seal_def derive_symmetric_key_eq)

lemma box_open_eq:
  "dh_law lib \<Longrightarrow> box_open lib n c ad pk sk = d2_open lib (box_key lib pk sk) n c ad"
  by (simp add: box_open_def derive_symmetric_key_eq)

lemma box_round_trip_key_pairs:
  assumes "dh_law lib" and "aead_law lib"
    and "generate_key_pair lib ra = (a_pub, a_priv)" and "generate_key_pair lib rb = (b_pub, b_priv)"
  shows "\<exists>c. box_seal lib n p ad b_pub a_priv = Ok c \<and> length c = length p + TAG_SIZE
    \<and> box_open lib n c ad a_pub b_priv = Ok p"
  using assms box_key_agree [OF assms(1), of ra rb]
  by (auto simp: box_seal_eq box_open_eq aead_law_def generate_key_pair_def)

text \<open>
  What Alice seals for Bob's public key with her private key, Bob opens with her public key
  and his private key, for any nonce, plaintext and additional data; the box is longer than the
  plaintext by the 16-byte tag.
\<close>

theorem box_round_trip:
  assumes "dh_law lib" and "aead_law lib"
    and "generate_key_pair lib ra = (a_pub, a_priv)" and "generate_key_pair lib rb = (b_pub, b_priv)"
  shows "\<exists>c. box_seal lib n p ad b_pub a_priv = Ok c \<and> length c = length p + TAG_SIZE
    \<and> box_open lib n c ad a_pub b_priv = Ok p"
  using assms by (rule box_round_trip_key_pairs)

text \<open>
  A concrete stand-in: keys agree by adding bytes position by position, and the cipher appends a
  tag made of key and nonce bytes that opening checks.
\<close>

definition sample_mix :: "bytes \<Rightarrow> bytes \<Rightarrow> bytes" where
  "sample_mix a b = map2 (+) (take 32 (a @ replicate 32 0)) (take 32 (b @ replicate 32 0))"

definition sample_tag :: "bytes \<Rightarrow> bytes \<Rightarrow> bytes" where
  "sample_tag k n = take TAG_SIZE (k @ n @ replicate TAG_SIZE 0)"

definition sample_lib :: mrae_lib where
  "sample_lib =
     \<lparr>x25519_public = (\<lambda>sk. take 32 (sk @ replicate 32 0)), x25519_dh = sample_mix,
      hmac_sha512_256 = (\<lambda>k m. take 32 (m @ replicate 32 0)),
      d2_seal = (\<lambda>k n p ad. p @ sample_tag k n),
      d2_open = (\<lambda>k n c ad.
        if length c < TAG_SIZE \<or> drop (length c - TAG_SIZE) c \<noteq> sample_tag k n
        then Err ''mac mismatch'' else Ok (take (length c - TAG_SIZE) c))\<rparr>"

lemma map2_plus_commute: "map2 (+) xs ys = map2 (+) ys (xs :: bytes)"
  by (induction xs ys rule: list_induct2') (auto simp: add.commute)

lemma take_pad_pad: "take n (take n (xs @ replicate n 0) @ replicate n 0) = take n (xs @ replicate n 0)"
  by simp

lemma sample_lib_laws: "dh_law sample_lib" "aead_law sample_lib"
proof -
  show "dh_law sample_lib"
    using map2_plus_commute
    by (auto simp: dh_law_def sample_lib_def sample_mix_def HASH_SIZE_def min_def)
  show "aead_law sample_lib"
    by (auto simp: aead_law_def sample_lib_def sample_tag_def min_def)
qed

theorem box_round_trip_witness:
  "dh_law sample_lib \<and> aead_law sample_lib
   \<and> (\<exists>c. box_seal sample_lib [0] [1, 2, 3] [4] (x25519_public sample_lib [9]) [5] = Ok c
        \<and> box_open sample_lib [0] c [4] (x25519_public sample_lib [5]) [9] = Ok [1, 2, 3])"
  using sample_lib_laws box_round_trip [OF sample_lib_laws, of "[5]" _ _ "[9]" _ _ "[0]" "[1, 2, 3]" "[4]"]
  by (auto simp: generate_key_pair_def)

end
