(* ===== verification/Nonce.thy ===== *)
theory Nonce
  imports Rust_Prelude
begin

text \<open>
  \<open>ekiden_crypto/src/mrae/nonce.rs\<close>: the 120-bit nonce with an 88-bit tag and a 32-bit
  big-endian counter, its constructor, \<open>increment\<close> and \<open>Deref\<close>.  The lemmas show that a nonce
  yields \<open>2^32\<close> distinct values under one tag and then refuses for ever.
\<close>

section \<open>The nonce\<close>

text \<open>
  \<open>NONCE_SIZE\<close> is the 120 bits of Deoxys-II; \<open>TAG_SIZE\<close> is the part that never changes.
\<close>

definition NONCE_SIZE :: nat where
  "NONCE_SIZE = 15"

definition NONCE_TAG_SIZE :: nat where
  "NONCE_TAG_SIZE = 11"

record nonce =
  current_value :: bytes
  start_value :: bytes

definition nonce_new :: "bytes \<Rightarrow> nonce" where
  "nonce_new start = \<lparr>current_value = start, start_value = start\<rparr>"

definition nonce_exhausted :: string where
  "nonce_exhausted = ''This nonce has been exhausted, and a new one must be created''"

definition increment :: "nonce \<Rightarrow> (unit, string) outcome \<times> nonce" where
  "increment n =
     (case read_u32_be (drop NONCE_TAG_SIZE (current_value n)) of
        None \<Rightarrow> (Panic, n)
      | Some counter \<Rightarrow>
          (let new_counter = (if counter = NOT 0 then 0 else counter + 1);
               new_value = take NONCE_TAG_SIZE (current_value n) @ write_u32_be new_counter
           in if length new_value \<noteq> NONCE_SIZE then (Panic, n)
              else if new_value = start_value n then (Err nonce_exhausted, n)
              else (Ok (), n\<lparr>current_value := new_value\<rparr>)))"

definition deref :: "nonce \<Rightarrow> bytes" where
  "deref n = current_value n"

section \<open>Bounded counters\<close>

text \<open>
  What a client of a nonce relies on, as an interface: an increment either advances the use
  count or, at the capacity, fails and changes nothing; values with the same origin and
  different use counts differ.
\<close>

primrec run_steps :: "('s \<Rightarrow> (unit, 'e) outcome \<times> 's) \<Rightarrow> nat \<Rightarrow> 's \<Rightarrow> (unit, 'e) outcome \<times> 's" where
  "run_steps f 0 s = (Ok (), s)"
| "run_steps f (Suc k) s =
     (case run_steps f k s of
        (Ok u, t) \<Rightarrow> f t
      | (Err e, t) \<Rightarrow> (Err e, t)
      | (Panic, t) \<Rightarrow> (Panic, t))"

text \<open>
  A client may call again after a failure: the state after \<open>k\<close> calls, whatever each of them
  returned.
\<close>

primrec after_calls :: "('s \<Rightarrow> 'r \<times> 's) \<Rightarrow> nat \<Rightarrow> 's \<Rightarrow> 's" where
  "after_calls f 0 s = s"
| "after_calls f (Suc k) s = snd (f (after_calls f k s))"

locale bounded_counter =
  fixes step :: "'s \<Rightarrow> (unit, 'e) outcome \<times> 's"
    and val :: "'s \<Rightarrow> 'v"
    and origin :: "'s \<Rightarrow> 'o"
    and used :: "'s \<Rightarrow> nat"
    and capacity :: nat
    and exhausted :: 'e
    and invar :: "'s \<Rightarrow> bool"
  assumes used_less: "invar s \<Longrightarrow> used s < capacity"
    and step_ok: "invar s \<Longrightarrow> Suc (used s) < capacity \<Longrightarrow>
      \<exists>t. step s = (Ok (), t) \<and> invar t \<and> used t = Suc (used s) \<and> origin t = origin s"
    and step_err: "invar s \<Longrightarrow> Suc (used s) = capacity \<Longrightarrow> step s = (Err exhausted, s)"
    and val_inj: "invar s \<Longrightarrow> invar t \<Longrightarrow> origin s = origin t \<Longrightarrow> val s = val t \<Longrightarrow> used s = used t"
begin

lemma run_ok:
  "invar s \<Longrightarrow> used s + k < capacity \<Longrightarrow>
   \<exists>t. run_steps step k s = (Ok (), t) \<and> invar t \<and> used t = used s + k \<and> origin t = origin s"
proof (induction k)
  case (Suc k)
  then obtain t where "run_steps step k s = (Ok (), t)" "invar t" "used t = used s + k"
    "origin t = origin s" by auto
  moreover from this step_ok [of t] Suc.prems obtain t' where
    "step t = (Ok (), t')" "invar t'" "used t' = used s + Suc k" "origin t' = origin t" by auto
  ultimately show ?case by simp
qed simp

lemma run_distinct:
  assumes "invar s" and "i < j" and "used s + j < capacity"
  shows "val (snd (run_steps step i s)) \<noteq> val (snd (run_steps step j s))"
proof
  assume eq: "val (snd (run_steps step i s)) = val (snd (run_steps step j s))"
  from assms run_ok [of s i] run_ok [of s j] obtain t u where
    "run_steps step i s = (Ok (), t)" "invar t" "used t = used s + i" "origin t = origin s"
    "run_steps step j s = (Ok (), u)" "invar u" "used u = used s + j" "origin u = origin s" by auto
  with eq val_inj [of t u] assms(2) show False by simp
qed

text \<open>Calls that go on after failures: the use count stops one below the capacity.\<close>

lemma calls_used:
  assumes "invar s"
  shows "invar (after_calls step k s) \<and> origin (after_calls step k s) = origin s
    \<and> used (after_calls step k s) = min (used s + k) (capacity - 1)"
proof (induction k)
  case 0
  with assms used_less [OF assms] show ?case by simp
next
  case (Suc k)
  let ?t = "after_calls step k s"
  show ?case
  proof (cases "Suc (used ?t) < capacity")
    case True
    with Suc step_ok [of ?t] show ?thesis by auto
  next
    case False
    with Suc used_less [of ?t] have "Suc (used ?t) = capacity" by simp
    with Suc step_err [of ?t] show ?thesis by auto
  qed
qed

lemma calls_result:
  assumes "invar s"
  shows "fst (step (after_calls step k s)) = (if used s + k < capacity - 1 then Ok () else Err exhausted)"
proof -
  let ?t = "after_calls step k s"
  have t: "invar ?t" "used ?t = min (used s + k) (capacity - 1)" using calls_used [OF assms, of k] by simp_all
  show ?thesis
  proof (cases "used s + k < capacity - 1")
    case True
    with t have "Suc (used ?t) < capacity" by simp
    with True step_ok [OF t(1)] show ?thesis by auto
  next
    case False
    with t used_less [of ?t] have "Suc (used ?t) = capacity" by simp
    with False t(1) step_err [of ?t] show ?thesis by simp
  qed
qed

end

section \<open>The nonce is a bounded counter\<close>

definition nonce_wf :: "nonce \<Rightarrow> bool" where
  "nonce_wf n \<longleftrightarrow> length (current_value n) = NONCE_SIZE \<and> length (start_value n) = NONCE_SIZE
     \<and> take NONCE_TAG_SIZE (current_value n) = take NONCE_TAG_SIZE (start_value n)"

definition counter_of :: "bytes \<Rightarrow> u32" where
  "counter_of v = u32_from_be (drop NONCE_TAG_SIZE v)"

definition nonce_at :: "bytes \<Rightarrow> u32 \<Rightarrow> bytes" where
  "nonce_at start c = take NONCE_TAG_SIZE start @ write_u32_be c"

definition nonce_used :: "nonce \<Rightarrow> nat" where
  "nonce_used n = unat (counter_of (current_value n) - counter_of (start_value n))"

lemmas nonce_sizes = NONCE_SIZE_def NONCE_TAG_SIZE_def

lemma nonce_new_wf [wf_intros]: "length v = NONCE_SIZE \<Longrightarrow> nonce_wf (nonce_new v)"
  by (simp add: nonce_wf_def nonce_new_def)

lemma nonce_used_new [simp]: "nonce_used (nonce_new v) = 0"
  by (simp add: nonce_used_def nonce_new_def)

lemma counter_of_nonce_at [simp]: "length v = NONCE_SIZE \<Longrightarrow> counter_of (nonce_at v c) = c"
  by (simp add: counter_of_def nonce_at_def nonce_sizes be32.dec_enc)

lemma length_nonce_at [simp]: "length v = NONCE_SIZE \<Longrightarrow> length (nonce_at v c) = NONCE_SIZE"
  by (simp add: nonce_at_def nonce_sizes)

lemma nonce_value_split: "length v = NONCE_SIZE \<Longrightarrow> v = nonce_at v (counter_of v)"
  by (simp add: nonce_at_def counter_of_def nonce_sizes be32.enc_dec)

lemma nonce_at_cong:
  "take NONCE_TAG_SIZE v = take NONCE_TAG_SIZE w \<Longrightarrow> nonce_at v c = nonce_at w c"
  by (simp add: nonce_at_def)

lemma nonce_at_inject: "nonce_at v c = nonce_at v d \<longleftrightarrow> c = d"
  by (simp add: nonce_at_def be32.enc_inject)

lemma current_value_nonce_at:
  "nonce_wf n \<Longrightarrow> current_value n = nonce_at (start_value n) (counter_of (current_value n))"
  using nonce_value_split [of "current_value n"] nonce_at_cong [of "current_value n" "start_value n"]
  by (simp add: nonce_wf_def)

lemma wrapping_successor: "(if c = NOT 0 then 0 else c + 1) = c + 1" for c :: u32
  by simp

text \<open>One increment, in terms of the counter: it wraps around and fails only back at the start.\<close>

lemma increment_wf_eq:
  assumes "nonce_wf n"
  shows "increment n =
    (let c = counter_of (current_value n) + 1 in
     if c = counter_of (start_value n) then (Err nonce_exhausted, n)
     else (Ok (), n\<lparr>current_value := nonce_at (start_value n) c\<rparr>))"
proof -
  let ?cur = "current_value n" and ?st = "start_value n"
  have len: "length ?cur = NONCE_SIZE" "length ?st = NONCE_SIZE" using assms by (simp_all add: nonce_wf_def)
  have tag: "take NONCE_TAG_SIZE ?cur = take NONCE_TAG_SIZE ?st" using assms by (simp add: nonce_wf_def)
  have rd: "read_u32_be (drop NONCE_TAG_SIZE ?cur) = Some (counter_of ?cur)"
    using len by (simp add: counter_of_def read_u32_be_exact nonce_sizes)
  have st: "nonce_at ?st c = ?st \<longleftrightarrow> c = counter_of ?st" for c
    using nonce_value_split [OF len(2)] nonce_at_inject by metis
  have new: "take NONCE_TAG_SIZE ?cur @ write_u32_be c = nonce_at ?st c" for c
    by (simp add: nonce_at_def tag)
  show ?thesis
    unfolding increment_def rd option.case wrapping_successor new Let_def
    using len by (simp add: st)
qed

lemma nonce_step_ok:
  assumes "nonce_wf n" and "Suc (nonce_used n) < 2 ^ 32"
  shows "\<exists>m. increment n = (Ok (), m) \<and> nonce_wf m \<and> nonce_used m = Suc (nonce_used n)
    \<and> start_value m = start_value n"
proof -
  let ?d = "counter_of (current_value n) - counter_of (start_value n)"
  have len: "length (start_value n) = NONCE_SIZE" using assms(1) by (simp add: nonce_wf_def)
  have d1: "unat (?d + 1) = Suc (unat ?d)"
    using assms(2) by (simp add: nonce_used_def unat_word_ariths)
  then have "?d + 1 \<noteq> 0" by (metis nat.distinct(1) unat_0)
  then have "counter_of (current_value n) + 1 \<noteq> counter_of (start_value n)"
    by (metis diff_add_eq diff_self)
  moreover have "nonce_wf (n\<lparr>current_value := nonce_at (start_value n) c\<rparr>)" for c
    using len by (simp add: nonce_wf_def) (simp add: nonce_at_def nonce_sizes)
  moreover have "unat (counter_of (current_value n) + 1 - counter_of (start_value n)) = Suc (unat ?d)"
    using d1 by (simp only: diff_add_eq)
  ultimately show ?thesis
    using len by (simp add: increment_wf_eq [OF assms(1)] Let_def nonce_used_def)
qed

lemma nonce_step_err:
  assumes "nonce_wf n" and "Suc (nonce_used n) = 2 ^ 32"
  shows "increment n = (Err nonce_exhausted, n)"
proof -
  let ?d = "counter_of (current_value n) - counter_of (start_value n)"
  have "unat (?d + 1) = 0"
    using assms(2) by (simp add: nonce_used_def unat_word_ariths)
  then have "?d + 1 = 0" by (simp add: unat_eq_zero)
  then have "counter_of (current_value n) + 1 = counter_of (start_value n)"
    by (simp add: add.commute add_diff_eq)
  then show ?thesis by (simp add: increment_wf_eq [OF assms(1)])
qed

interpretation nc: bounded_counter increment current_value start_value nonce_used "2 ^ 32"
  nonce_exhausted nonce_wf
proof
  show "nonce_used s < 2 ^ 32" if "nonce_wf s" for s
    unfolding nonce_used_def by (rule order_less_le_trans [OF unsigned_less]) simp
  show "\<exists>t. increment s = (Ok (), t) \<and> nonce_wf t \<and> nonce_used t = Suc (nonce_used s)
      \<and> start_value t = start_value s" if "nonce_wf s" "Suc (nonce_used s) < 2 ^ 32" for s
    using that by (rule nonce_step_ok)
  show "increment s = (Err nonce_exhausted, s)" if "nonce_wf s" "Suc (nonce_used s) = 2 ^ 32" for s
    using that by (rule nonce_step_err)
  show "nonce_used s = nonce_used t"
    if "nonce_wf s" "nonce_wf t" "start_value s = start_value t" "current_value s = current_value t" for s t
    using that by (simp add: nonce_used_def)
qed

section \<open>Properties\<close>

text \<open>
  Starting from any 15-byte value, every number \<open>k\<close> of increments below \<open>2^32\<close> succeeds and
  yields the value with the same 11-byte tag and the counter advanced by \<open>k\<close> modulo \<open>2^32\<close>.
\<close>

theorem nonce_increment_sequence:
  assumes "length start = NONCE_SIZE" and "k < 2 ^ 32"
  shows "run_steps increment k (nonce_new start) =
    (Ok (), \<lparr>current_value = nonce_at start (counter_of start + of_nat k), start_value = start\<rparr>)"
proof -
  have st: "start_value (nonce_new start) = start" by (simp add: nonce_new_def)
  obtain n where run: "run_steps increment k (nonce_new start) = (Ok (), n)"
    and n: "nonce_wf n" "nonce_used n = k" "start_value n = start"
    using nc.run_ok [OF nonce_new_wf [OF assms(1)], of k] assms(2) st by auto
  have "counter_of (current_value n) - counter_of start = of_nat k"
    using n(2,3) by (auto simp: nonce_used_def)
  then have "counter_of (current_value n) = counter_of start + of_nat k"
    by (simp add: diff_eq_eq add.commute)
  with current_value_nonce_at [OF n(1)] n(3)
  have "current_value n = nonce_at start (counter_of start + of_nat k)" by simp
  with n(3) run show ?thesis by (cases n) simp
qed

theorem nonce_increment_sequence_witness:
  "length (replicate 15 (255::u8)) = NONCE_SIZE \<and> (1::nat) < 2 ^ 32
   \<and> current_value (snd (run_steps increment 1 (nonce_new (replicate 15 255))))
     = replicate 11 255 @ replicate 4 0"
proof -
  have h: "length (replicate 15 (255::u8)) = NONCE_SIZE" "(1::nat) < 2 ^ 32"
    by (simp_all add: NONCE_SIZE_def)
  have v: "nonce_at (replicate 15 255) (counter_of (replicate 15 255) + of_nat 1) = replicate 11 255 @ replicate 4 0"
    by (simp add: nonce_at_def counter_of_def nonce_sizes u32_from_be_def write_u32_be_def byte_eval)
  show ?thesis using h nonce_increment_sequence [OF h] by (simp only: v snd_conv nonce.select_convs)
qed

text \<open>
  C12. No value is ever repeated: after \<open>i\<close> and after \<open>j\<close> increments of the same nonce, for any
  \<open>i < j < 2^32\<close>, the nonce dereferences to different values.
\<close>

theorem nonce_values_distinct:
  assumes "length start = NONCE_SIZE" and "i < j" and "j < 2 ^ 32"
  shows "deref (snd (run_steps increment i (nonce_new start)))
    \<noteq> deref (snd (run_steps increment j (nonce_new start)))"
  using nc.run_distinct [OF nonce_new_wf [OF assms(1)] assms(2)] assms(3) by (simp add: deref_def)

theorem nonce_values_distinct_witness:
  "length (replicate 15 (255::u8)) = NONCE_SIZE \<and> (0::nat) < 1 \<and> (1::nat) < 2 ^ 32
   \<and> deref (snd (run_steps increment 0 (nonce_new (replicate 15 255))))
    \<noteq> deref (snd (run_steps increment 1 (nonce_new (replicate 15 255))))"
proof -
  have h: "length (replicate 15 (255::u8)) = NONCE_SIZE" "(0::nat) < 1" "(1::nat) < 2 ^ 32"
    by (simp_all add: NONCE_SIZE_def)
  show ?thesis using h nonce_values_distinct [OF h] by blast
qed

text \<open>
  C27. Calls of \<open>increment\<close> that go on whatever they return: the first \<open>2^32 - 1\<close> of them succeed,
  each advancing the counter by one modulo \<open>2^32\<close>; every later one fails with the exhaustion
  error, also when earlier calls have failed already, and leaves the nonce at the last value of the
  sequence, so a failure never makes the nonce usable again.
\<close>

theorem nonce_exhaustion_is_permanent:
  assumes "length start = NONCE_SIZE"
  shows "fst (increment (after_calls increment k (nonce_new start)))
      = (if k < 2 ^ 32 - 1 then Ok () else Err nonce_exhausted)
    \<and> after_calls increment k (nonce_new start)
      = \<lparr>current_value = nonce_at start (counter_of start + of_nat (min k (2 ^ 32 - 1))), start_value = start\<rparr>"
proof -
  let ?n = "after_calls increment k (nonce_new start)"
  have n: "nonce_wf ?n" "start_value ?n = start" "nonce_used ?n = min k (2 ^ 32 - 1)"
    using nc.calls_used [OF nonce_new_wf [OF assms], of k] by (simp_all, simp add: nonce_new_def)
  have "of_nat (nonce_used ?n) = counter_of (current_value ?n) - counter_of start"
    using n(2) by (simp add: nonce_used_def)
  then have "counter_of (current_value ?n) - counter_of start = of_nat (min k (2 ^ 32 - 1))"
    by (simp only: n(3))
  then have "counter_of (current_value ?n) = counter_of start + of_nat (min k (2 ^ 32 - 1))"
    by (simp only: diff_eq_eq add.commute)
  with current_value_nonce_at [OF n(1)] n(2)
  have "?n = \<lparr>current_value = nonce_at start (counter_of start + of_nat (min k (2 ^ 32 - 1))), start_value = start\<rparr>"
    by (cases ?n) simp
  with nc.calls_result [OF nonce_new_wf [OF assms], of k] show ?thesis by simp
qed

theorem nonce_exhaustion_is_permanent_witness:
  "length (replicate 15 (0::u8)) = NONCE_SIZE
   \<and> fst (increment (after_calls increment (2 ^ 32 + 7) (nonce_new (replicate 15 0)))) = Err nonce_exhausted
   \<and> after_calls increment (2 ^ 32 + 7) (nonce_new (replicate 15 0)) =
       \<lparr>current_value = replicate 11 0 @ replicate 4 255, start_value = replicate 15 0\<rparr>"
proof -
  have h: "length (replicate 15 (0::u8)) = NONCE_SIZE" by (simp add: NONCE_SIZE_def)
  have m: "min (2 ^ 32 + 7) (2 ^ 32 - 1) = (2 ^ 32 - 1 :: nat)" "(2 ^ 32 + 7 < (2 ^ 32 - 1 :: nat)) = False" by simp_all
  have v: "nonce_at (replicate 15 0) (counter_of (replicate 15 0) + of_nat (2 ^ 32 - 1)) = replicate 11 0 @ replicate 4 255"
    by (simp add: nonce_at_def counter_of_def nonce_sizes u32_from_be_def write_u32_be_def byte_eval)
  show ?thesis using h nonce_exhaustion_is_permanent [OF h, of "2 ^ 32 + 7"] unfolding m v if_False by blast
qed

end
