(* ===== verification/Wire_Crypto.thy ===== *)
theory Wire_Crypto
  imports Mrae Nonce
begin

text \<open>
  \<open>src/confidential/crypto.rs\<close>: the wire format
  \<open>PUBLIC_KEY || CIPHER_LEN || AAD_LEN || CIPHER || AAD || NONCE\<close> of a confidential payload, its
  encoder and decoder, and \<open>encrypt\<close>/\<open>decrypt\<close> around the box.  Lengths are the \<open>usize\<close> of a
  64-bit target; \<open>oc\<close> tells whether the build checks arithmetic overflow.
\<close>

section \<open>Encoding and decoding\<close>

definition CIPHER_LEN_SIZE :: usize where
  "CIPHER_LEN_SIZE = 8"

definition AAD_LEN_SIZE :: usize where
  "AAD_LEN_SIZE = 8"

definition PUBLIC_KEY_LEN :: usize where
  "PUBLIC_KEY_LEN = 32"

definition NONCE_LEN :: usize where
  "NONCE_LEN = 15"

record decryption =
  dec_plaintext :: bytes
  dec_nonce :: nonce
  dec_peer_public_key :: byte_array
  dec_aad :: bytes

definition encode_encryption :: "bytes \<Rightarrow> nonce \<Rightarrow> byte_array \<Rightarrow> bytes \<Rightarrow> bytes" where
  "encode_encryption ciphertext nonce public_key aad =
     as_ref public_key
     @ u64_to_le_bytes (of_nat (length ciphertext))
     @ u64_to_le_bytes (of_nat (length aad))
     @ ciphertext @ aad @ deref nonce"

text \<open>
  Reading a length field: the eight bytes at an offset, as a little-endian \<open>u64\<close>; the conversion
  to \<open>usize\<close> is the identity on the 64-bit target.
\<close>

definition read_len :: "bytes \<Rightarrow> usize \<Rightarrow> usize \<Rightarrow> (usize, string) outcome" where
  "read_len data start stop =
     and_then (slice data (unat start) (unat stop)) (\<lambda>s.
     and_then (copy_from_slice 8 s) (\<lambda>arr. Ok (u64_from_le_bytes arr)))"

definition split_encrypted_payload ::
  "bool \<Rightarrow> bytes \<Rightarrow> (byte_array \<times> u64 \<times> u64 \<times> bytes \<times> bytes \<times> nonce, string) outcome" where
  "split_encrypted_payload oc data =
     (if length data < unat (PUBLIC_KEY_LEN + NONCE_LEN + CIPHER_LEN_SIZE + AAD_LEN_SIZE)
      then Err ''invalid nonce or public key''
      else
        and_then (slice data 0 (unat PUBLIC_KEY_LEN)) (\<lambda>pk_bytes.
        and_then (from_slice (unat PUBLIC_KEY_LEN) pk_bytes) (\<lambda>peer_public_key.
        let cipher_len_start = PUBLIC_KEY_LEN;
            cipher_len_end = cipher_len_start + CIPHER_LEN_SIZE in
        and_then (read_len data cipher_len_start cipher_len_end) (\<lambda>cipher_len.
        let aad_len_start = cipher_len_end;
            aad_len_end = aad_len_start + AAD_LEN_SIZE in
        and_then (read_len data aad_len_start aad_len_end) (\<lambda>aad_len.
        and_then (add_checked oc (PUBLIC_KEY_LEN + CIPHER_LEN_SIZE + AAD_LEN_SIZE) cipher_len) (\<lambda>s1.
        and_then (add_checked oc s1 aad_len) (\<lambda>s2.
        and_then (add_checked oc s2 NONCE_LEN) (\<lambda>expected_data_length.
        if of_nat (length data) \<noteq> expected_data_length then Err ''invalid size for ciphertext''
        else
          let cipher_start = aad_len_end in
          and_then (add_checked oc cipher_start cipher_len) (\<lambda>cipher_end.
          and_then (slice data (unat cipher_start) (unat cipher_end)) (\<lambda>cipher.
          and_then (add_checked oc cipher_end aad_len) (\<lambda>aad_end.
          and_then (slice data (unat cipher_end) (unat aad_end)) (\<lambda>aad.
          and_then (add_checked oc aad_end NONCE_LEN) (\<lambda>nonce_end.
          and_then (slice data (unat aad_end) (unat nonce_end)) (\<lambda>nonce_bytes.
          and_then (copy_from_slice NONCE_SIZE nonce_bytes) (\<lambda>nonce_inner.
            Ok (peer_public_key, cipher_len, aad_len, cipher, aad, nonce_new nonce_inner))))))))))))))))"

section \<open>Encryption and decryption\<close>

definition encrypt ::
  "mrae_lib \<Rightarrow> bytes \<Rightarrow> nonce \<Rightarrow> byte_array \<Rightarrow> byte_array \<Rightarrow> byte_array \<Rightarrow> bytes \<Rightarrow> (bytes, string) outcome"
  where
  "encrypt lib plaintext nonce peer_public_key public_key secret_key aad =
     and_then (box_seal lib (deref nonce) plaintext aad (into_inner peer_public_key) (into_inner secret_key))
       (\<lambda>ciphertext. Ok (encode_encryption ciphertext nonce public_key aad))"

definition decrypt ::
  "mrae_lib \<Rightarrow> bool \<Rightarrow> bytes option \<Rightarrow> byte_array \<Rightarrow> (decryption, string) outcome" where
  "decrypt lib oc data secret_key =
     (case data of
        None \<Rightarrow> Ok \<lparr>dec_plaintext = [], dec_nonce = nonce_new (replicate NONCE_SIZE 0),
                  dec_peer_public_key = array_default 32, dec_aad = []\<rparr>
      | Some data \<Rightarrow>
          and_then (split_encrypted_payload oc data) (\<lambda>(peer_public_key, _, _, cipher, aad, nonce).
          and_then (map_err (\<lambda>e. ''payload open failed: '' @ e)
              (box_open lib (deref nonce) cipher aad (into_inner peer_public_key) (into_inner secret_key)))
            (\<lambda>plaintext. Ok \<lparr>dec_plaintext = plaintext, dec_nonce = nonce,
                           dec_peer_public_key = peer_public_key, dec_aad = aad\<rparr>)))"

section \<open>The decoder as a whole\<close>

lemmas wire_sizes = PUBLIC_KEY_LEN_def NONCE_LEN_def CIPHER_LEN_SIZE_def AAD_LEN_SIZE_def NONCE_SIZE_def

text \<open>The two announced lengths and the total they announce, without wrap-around.\<close>

definition announced_cipher_len :: "bytes \<Rightarrow> u64" where
  "announced_cipher_len data = u64_from_le_bytes (take 8 (drop 32 data))"

definition announced_aad_len :: "bytes \<Rightarrow> u64" where
  "announced_aad_len data = u64_from_le_bytes (take 8 (drop 40 data))"

definition announced_total :: "bytes \<Rightarrow> nat" where
  "announced_total data = 63 + unat (announced_cipher_len data) + unat (announced_aad_len data)"

definition payload_parts :: "bytes \<Rightarrow> byte_array \<times> u64 \<times> u64 \<times> bytes \<times> bytes \<times> nonce" where
  "payload_parts data =
     (let c = unat (announced_cipher_len data); a = unat (announced_aad_len data)
      in (ByteArray (take 32 data), announced_cipher_len data, announced_aad_len data,
          take c (drop 48 data), take a (drop (48 + c) data), nonce_new (drop (48 + c + a) data)))"

lemma read_len_eq:
  "63 \<le> length data \<Longrightarrow> read_len data 32 40 = Ok (announced_cipher_len data)"
  "63 \<le> length data \<Longrightarrow> read_len data 40 48 = Ok (announced_aad_len data)"
  by (simp_all add: read_len_def slice_def copy_from_slice_def announced_cipher_len_def announced_aad_len_def)

text \<open>The part after the length fields, for announced lengths \<open>c\<close> and \<open>a\<close>.\<close>

definition split_body ::
  "bool \<Rightarrow> bytes \<Rightarrow> u64 \<Rightarrow> u64 \<Rightarrow> (bytes \<times> bytes \<times> nonce, string) outcome" where
  "split_body oc data c a =
     and_then (add_checked oc 48 c) (\<lambda>s1.
     and_then (add_checked oc s1 a) (\<lambda>s2.
     and_then (add_checked oc s2 15) (\<lambda>total.
     if of_nat (length data) \<noteq> total then Err ''invalid size for ciphertext''
     else
       and_then (add_checked oc 48 c) (\<lambda>ce.
       and_then (slice data 48 (unat ce)) (\<lambda>cipher.
       and_then (add_checked oc ce a) (\<lambda>ae.
       and_then (slice data (unat ce) (unat ae)) (\<lambda>aad.
       and_then (add_checked oc ae 15) (\<lambda>ne.
       and_then (slice data (unat ae) (unat ne)) (\<lambda>nb.
       and_then (copy_from_slice 15 nb) (\<lambda>ni. Ok (cipher, aad, nonce_new ni)))))))))))"

lemma split_encrypted_payload_body:
  "split_encrypted_payload oc data =
     (if length data < 63 then Err ''invalid nonce or public key''
      else let c = announced_cipher_len data; a = announced_aad_len data in
        and_then (split_body oc data c a) (\<lambda>(cipher, aad, nonce).
          Ok (ByteArray (take 32 data), c, a, cipher, aad, nonce)))"
proof (cases "length data < 63")
  case False
  then have "slice data 0 32 = (Ok (take 32 data) :: (bytes, string) outcome)"
    "from_slice 32 (take 32 data) = (Ok (ByteArray (take 32 data)) :: (byte_array, string) outcome)"
    by (simp_all add: slice_def from_slice_def copy_from_slice_def)
  with False show ?thesis
    by (simp add: split_encrypted_payload_def split_body_def wire_sizes read_len_eq Let_def
        and_then_assoc if_distrib [of "\<lambda>m. and_then m f" for f] cong: if_cong)
qed (simp add: split_encrypted_payload_def wire_sizes)

lemma split_body_fits:
  assumes "63 + unat c + unat a < 2 ^ 64" and "length data < 2 ^ 64"
  shows "split_body oc data c a =
    (if length data \<noteq> 63 + unat c + unat a then Err ''invalid size for ciphertext''
     else Ok (take (unat c) (drop 48 data), take (unat a) (drop (48 + unat c) data),
              nonce_new (drop (48 + unat c + unat a) data)))"
proof -
  have u: "unat (48 + c) = 48 + unat c" "unat (48 + c + a) = 48 + unat c + unat a"
    "unat (48 + c + a + 15) = 63 + unat c + unat a"
    using assms(1) by (simp_all add: unat_word_ariths)
  have ok: "add_checked oc 48 c = (Ok (48 + c) :: (u64, string) outcome)"
    "add_checked oc (48 + c) a = (Ok (48 + c + a) :: (u64, string) outcome)"
    "add_checked oc (48 + c + a) 15 = (Ok (48 + c + a + 15) :: (u64, string) outcome)"
    using assms(1) by (simp_all add: add_checked_def u)
  have len: "of_nat (length data) = 48 + c + a + 15 \<longleftrightarrow> length data = 63 + unat c + unat a"
    using of_nat_eq_word_iff [of "length data" "48 + c + a + 15"] assms(2) u(3) by simp
  show ?thesis
  proof (cases "length data = 63 + unat c + unat a")
    case True
    have sl: "slice data 48 (48 + unat c) = (Ok (take (unat c) (drop 48 data)) :: (bytes, string) outcome)"
      "slice data (48 + unat c) (48 + unat c + unat a)
        = (Ok (take (unat a) (drop (48 + unat c) data)) :: (bytes, string) outcome)"
      "slice data (48 + unat c + unat a) (63 + unat c + unat a)
        = (Ok (drop (48 + unat c + unat a) data) :: (bytes, string) outcome)"
      using True by (simp_all add: slice_def)
    have cp: "copy_from_slice 15 (drop (48 + unat c + unat a) data)
        = (Ok (drop (48 + unat c + unat a) data) :: (bytes, string) outcome)"
      using True by (simp add: copy_from_slice_def)
    have body: "split_body oc data c a =
        (if length data \<noteq> 63 + unat c + unat a then Err ''invalid size for ciphertext''
         else Ok (take (unat c) (drop 48 data), take (unat a) (drop (48 + unat c) data),
                  nonce_new (drop (48 + unat c + unat a) data)))"
      by (simp only: split_body_def ok u len sl cp and_then.simps)
    then show ?thesis .
  next
    case False
    then show ?thesis
      by (simp only: split_body_def ok len and_then.simps if_True not_False_eq_True)
  qed
qed

text \<open>
  Lengths that add up past \<open>2^64\<close> never yield a result: with checks an addition panics, without them
  the ends of the slices wrap around and one of the slices panics.
\<close>

lemma wrapped_slices_panic:
  fixes c a ce ae :: u64
  assumes "2 ^ 64 \<le> 63 + unat c + unat a" and "ce = 48 + c" and "ae = ce + a"
  shows "and_then (slice data 48 (unat ce)) (\<lambda>cipher.
       and_then (slice data (unat ce) (unat ae)) (\<lambda>aad.
       and_then (slice data (unat ae) (unat (ae + 15))) (\<lambda>nb.
       and_then (copy_from_slice 15 nb) (\<lambda>ni. Ok (cipher, aad, nonce_new ni)))))
       = (Panic :: (bytes \<times> bytes \<times> nonce, string) outcome)"
proof -
  have "\<not> (48 \<le> unat ce \<and> unat ce \<le> length data \<and> unat ce \<le> unat ae \<and> unat ae \<le> length data \<and> unat ae + 15 = unat (ae + 15))"
  proof
    assume h: "48 \<le> unat ce \<and> unat ce \<le> length data \<and> unat ce \<le> unat ae \<and> unat ae \<le> length data \<and> unat ae + 15 = unat (ae + 15)"
    then have "unat ce = 48 + unat c" using unat_add_no_wrap [of 48 c] by (simp add: assms(2))
    with h have "unat ae = 48 + unat c + unat a" using unat_add_no_wrap [of ce a] by (simp add: assms(3))
    with h assms(1) have "2 ^ 64 \<le> unat (ae + 15)" by simp
    with unsigned_less [of "ae + 15", where ?'a = nat] show False by simp
  qed
  then have "slice data 48 (unat ce) = (Panic :: (bytes, string) outcome) \<or>
      slice data (unat ce) (unat ae) = (Panic :: (bytes, string) outcome) \<or>
      (\<forall>nb. slice data (unat ae) (unat (ae + 15)) = (Ok nb :: (bytes, string) outcome) \<longrightarrow> length nb \<noteq> 15)"
    by (auto simp: slice_def)
  then show ?thesis by (auto simp: slice_def copy_from_slice_def split: if_splits)
qed

lemma split_body_overflows:
  assumes "2 ^ 64 \<le> 63 + unat c + unat a" and "length data < 2 ^ 64"
  shows "split_body oc data c a =
    (if oc \<or> length data = (63 + unat c + unat a) mod 2 ^ 64 then Panic
     else Err ''invalid size for ciphertext'')"
proof (cases oc)
  case True
  let ?T = "add_checked True :: u64 \<Rightarrow> u64 \<Rightarrow> (u64, string) outcome"
  have "and_then (?T 48 c) (\<lambda>s1. and_then (?T s1 a) (\<lambda>s2. and_then (?T s2 15) f)) = Panic" for f
    using assms(1)
    by (cases "48 + unat c < 2 ^ 64"; cases "48 + unat c + unat a < 2 ^ 64")
       (auto simp: add_checked_def unat_add_no_overflow unat_word_ariths)
  with True show ?thesis by (simp add: split_body_def)
next
  case False
  have ok: "add_checked False x y = (Ok (x + y) :: (u64, string) outcome)" for x y
    by (simp add: add_checked_def)
  have "unat (48 + c + a + 15) = (63 + unat c + unat a) mod 2 ^ 64"
    by (simp add: unat_word_ariths mod_simps add.assoc)
  then have "of_nat (length data) = 48 + c + a + 15 \<longleftrightarrow> length data = (63 + unat c + unat a) mod 2 ^ 64"
    using of_nat_eq_word_iff [of "length data" "48 + c + a + 15"] assms(2) by simp
  with False wrapped_slices_panic [OF assms(1) refl refl, of data] show ?thesis by (simp add: split_body_def ok)
qed

lemma split_encrypted_payload_cases:
  assumes "length data < 2 ^ 64"
  shows "split_encrypted_payload oc data =
    (if length data < 63 then Err ''invalid nonce or public key''
     else if announced_total data < 2 ^ 64
     then (if length data = announced_total data then Ok (payload_parts data)
           else Err ''invalid size for ciphertext'')
     else if oc \<or> length data = announced_total data mod 2 ^ 64 then Panic
     else Err ''invalid size for ciphertext'')"
proof (cases "announced_total data < 2 ^ 64")
  case True
  then show ?thesis
    using split_body_fits [OF _ assms, of "announced_cipher_len data" "announced_aad_len data" oc]
    by (simp add: split_encrypted_payload_body announced_total_def payload_parts_def Let_def add.assoc)
next
  case False
  then show ?thesis
    using split_body_overflows [OF _ assms, of "announced_cipher_len data" "announced_aad_len data" oc]
    by (simp add: split_encrypted_payload_body announced_total_def)
qed

section \<open>Properties of the wire format\<close>

text \<open>
  C9. The decoder's behaviour on every byte string, in both build profiles: short input and a
  wrong total length are errors; a matching total gives the parts at their offsets; and lengths
  whose sum overflows \<open>usize\<close> make it panic, always when overflow is checked and otherwise exactly
  when the wrapped-around total equals the input's length.
\<close>

theorem split_encrypted_payload_behaviour:
  assumes "length data < 2 ^ 64"
  shows "split_encrypted_payload oc data =
    (if length data < 63 then Err ''invalid nonce or public key''
     else if announced_total data < 2 ^ 64
     then (if length data = announced_total data then Ok (payload_parts data)
           else Err ''invalid size for ciphertext'')
     else if oc \<or> length data = announced_total data mod 2 ^ 64 then Panic
     else Err ''invalid size for ciphertext'')"
  using assms by (rule split_encrypted_payload_cases)

theorem split_encrypted_payload_behaviour_witness:
  "length (replicate 63 (0::u8)) < 2 ^ 64
   \<and> split_encrypted_payload True (replicate 63 0) = Ok (payload_parts (replicate 63 0))"
proof -
  have h: "length (replicate 63 (0::u8)) < 2 ^ 64" by simp
  have "announced_total (replicate 63 0) = 63"
    by (simp add: announced_total_def announced_cipher_len_def announced_aad_len_def
        u64_from_le_bytes_def byte_eval)
  then show ?thesis using h split_encrypted_payload_behaviour [OF h, of True] by simp
qed

lemma encode_fields:
  assumes "wf_array 32 pk" and "length (current_value n) = 15"
    and "63 + length c + length a < 2 ^ 64"
  defines "data \<equiv> encode_encryption c n pk a"
  shows "length data = 63 + length c + length a" "take 32 data = inner pk"
    "unat (announced_cipher_len data) = length c" "unat (announced_aad_len data) = length a"
    "drop 48 data = c @ a @ current_value n"
proof -
  have pk: "length (inner pk) = 32" using assms(1) by (simp add: wf_array_def)
  let ?c = "u64_to_le_bytes (of_nat (length c))" and ?a = "u64_to_le_bytes (of_nat (length a))"
  have data: "data = inner pk @ ?c @ ?a @ c @ a @ current_value n"
    by (simp add: data_def encode_encryption_def as_ref_def deref_def)
  show "length data = 63 + length c + length a" "take 32 data = inner pk"
    using pk assms(2) by (simp_all add: data)
  have "take 8 (drop 32 data) = ?c" "take 8 (drop 40 data) = ?a" using pk by (simp_all add: data)
  then show "unat (announced_cipher_len data) = length c" "unat (announced_aad_len data) = length a"
    using assms(3) by (simp_all add: announced_cipher_len_def announced_aad_len_def le64.dec_enc unat_of_nat)
  show "drop 48 data = c @ a @ current_value n" using pk by (simp add: data)
qed

lemma split_encode:
  assumes "wf_array 32 pk" and "length (current_value n) = 15"
    and "63 + length c + length a < 2 ^ 64"
  shows "split_encrypted_payload oc (encode_encryption c n pk a) =
    Ok (pk, of_nat (length c), of_nat (length a), c, a, nonce_new (current_value n))"
proof -
  let ?d = "encode_encryption c n pk a"
  note f = encode_fields [OF assms]
  have w: "announced_cipher_len ?d = of_nat (length c)" "announced_aad_len ?d = of_nat (length a)"
    using f(3,4) assms(3) of_nat_eq_word_iff [of "length c" "announced_cipher_len ?d"]
      of_nat_eq_word_iff [of "length a" "announced_aad_len ?d"] by simp_all
  have at: "drop (48 + k) ?d = drop k (c @ a @ current_value n)" for k
    using f(5) by (metis add.commute drop_drop)
  have "announced_total ?d = length ?d" using f by (simp add: announced_total_def)
  then have "split_encrypted_payload oc ?d = Ok (payload_parts ?d)"
    using split_encrypted_payload_cases [of ?d oc] f(1) assms(3) by simp
  also have "payload_parts ?d = (pk, of_nat (length c), of_nat (length a), c, a, nonce_new (current_value n))"
    using f at [of "length c"] at [of "length c + length a"]
    by (simp add: payload_parts_def Let_def w [symmetric] add.assoc)
  finally show ?thesis .
qed

text \<open>
  Decoding an encoded payload returns its public key, its two lengths, its ciphertext and
  additional data, and a fresh nonce that starts at the encoded nonce's current value.
\<close>

theorem wire_decode_encode:
  assumes "wf_array 32 public_key" and "length (current_value n) = NONCE_SIZE"
    and "63 + length ciphertext + length ad < 2 ^ 64"
  shows "split_encrypted_payload oc (encode_encryption ciphertext n public_key ad) =
    Ok (public_key, of_nat (length ciphertext), of_nat (length ad), ciphertext, ad, nonce_new (deref n))"
  using split_encode [of public_key n ciphertext ad oc] assms by (simp add: deref_def NONCE_SIZE_def)

theorem wire_decode_encode_witness:
  "wf_array 32 (ByteArray (replicate 32 7)) \<and> length (current_value (nonce_new (replicate 15 1))) = NONCE_SIZE
   \<and> split_encrypted_payload False
       (encode_encryption [1, 2, 3] (nonce_new (replicate 15 1)) (ByteArray (replicate 32 7)) [9])
     = Ok (ByteArray (replicate 32 7), 3, 1, [1, 2, 3], [9], nonce_new (replicate 15 1))"
proof -
  have h: "wf_array 32 (ByteArray (replicate 32 7))"
    "length (current_value (nonce_new (replicate 15 1))) = NONCE_SIZE"
    "63 + length [1, 2, 3 :: u8] + length [9 :: u8] < 2 ^ 64"
    by (simp_all add: wf_array_def nonce_new_def NONCE_SIZE_def)
  show ?thesis using h(1,2) wire_decode_encode [OF h, of False] by (simp add: deref_def nonce_new_def)
qed

lemma encode_split:
  assumes "length data < 2 ^ 64"
    and "split_encrypted_payload oc data = Ok (public_key, cipher_len, aad_len, ciphertext, ad, n)"
  shows "encode_encryption ciphertext n public_key ad = data
    \<and> unat cipher_len = length ciphertext \<and> unat aad_len = length ad
    \<and> wf_array 32 public_key \<and> nonce_wf n \<and> n = nonce_new (deref n)"
proof -
  let ?c = "unat (announced_cipher_len data)" and ?a = "unat (announced_aad_len data)"
  have len: "length data = 63 + ?c + ?a" and parts: "payload_parts data = (public_key, cipher_len, aad_len, ciphertext, ad, n)"
    using assms split_encrypted_payload_cases [OF assms(1), of oc]
    by (auto simp: announced_total_def split: if_splits)
  have p: "public_key = ByteArray (take 32 data)" "cipher_len = announced_cipher_len data"
    "aad_len = announced_aad_len data" "ciphertext = take ?c (drop 48 data)"
    "ad = take ?a (drop (48 + ?c) data)" "n = nonce_new (drop (48 + ?c + ?a) data)"
    using parts by (auto simp: payload_parts_def Let_def)
  have l: "length ciphertext = ?c" "length ad = ?a" using len p(4,5) by auto
  have lens: "u64_to_le_bytes (of_nat ?c) = take 8 (drop 32 data)" "u64_to_le_bytes (of_nat ?a) = take 8 (drop 40 data)"
  proof -
    have "63 \<le> length data" using len by linarith
    then show "u64_to_le_bytes (of_nat ?c) = take 8 (drop 32 data)" "u64_to_le_bytes (of_nat ?a) = take 8 (drop 40 data)"
      by (simp_all add: announced_cipher_len_def announced_aad_len_def le64.enc_dec)
  qed
  have "encode_encryption ciphertext n public_key ad
      = take 32 data @ take 8 (drop 32 data) @ take 8 (drop 40 data) @ take ?c (drop 48 data)
        @ take ?a (drop (48 + ?c) data) @ drop (48 + ?c + ?a) data"
    by (simp only: encode_encryption_def l lens)
       (simp add: p as_ref_def deref_def nonce_new_def)
  also have "\<dots> = data"
  proof -
    have "take ?a (drop (48 + ?c) data) @ drop (48 + ?c + ?a) data = drop (48 + ?c) data"
      "take ?c (drop 48 data) @ drop (48 + ?c) data = drop 48 data"
      "take 8 (drop 40 data) @ drop 48 data = drop 40 data"
      "take 8 (drop 32 data) @ drop 40 data = drop 32 data"
      by (rule take_drop_resume, simp)+
    then show ?thesis by (simp only: append_take_drop_id)
  qed
  finally show ?thesis
    using len l p by (simp add: wf_array_def nonce_wf_def nonce_new_def deref_def NONCE_SIZE_def)
qed

text \<open>
  Only encodings are accepted: whatever the decoder returns re-encodes to exactly the bytes
  it was given, so a payload has one reading and no bytes are ignored.
\<close>

theorem wire_encode_decode:
  assumes "length data < 2 ^ 64"
    and "split_encrypted_payload oc data = Ok (public_key, cipher_len, aad_len, ciphertext, ad, n)"
  shows "encode_encryption ciphertext n public_key ad = data
    \<and> unat cipher_len = length ciphertext \<and> unat aad_len = length ad
    \<and> wf_array 32 public_key \<and> nonce_wf n \<and> n = nonce_new (deref n)"
  using assms by (rule encode_split)

theorem wire_encode_decode_witness:
  "length (replicate 63 (0::u8)) < 2 ^ 64
   \<and> encode_encryption [] (nonce_new (replicate 15 0)) (ByteArray (replicate 32 0)) [] = replicate 63 0"
proof -
  have h: "length (replicate 63 (0::u8)) < 2 ^ 64" by simp
  have ann: "announced_cipher_len (replicate 63 0) = 0" "announced_aad_len (replicate 63 0) = 0"
    by (simp_all add: announced_cipher_len_def announced_aad_len_def u64_from_le_bytes_def byte_eval)
  then have "split_encrypted_payload True (replicate 63 0) =
      Ok (ByteArray (replicate 32 0), 0, 0, [], [], nonce_new (replicate 15 0))"
    using split_encrypted_payload_cases [OF h, of True]
    by (simp add: announced_total_def payload_parts_def)
  from wire_encode_decode [OF h this] h show ?thesis by blast
qed

definition forged_payload :: bytes where
  "forged_payload = replicate 32 0 @ replicate 8 255 @ (1 # replicate 7 0) @ replicate 15 0"

text \<open>
  C30. A peer can make the decoder panic instead of returning an error: a 63-byte payload that
  announces a ciphertext of \<open>2^64 - 1\<close> bytes and one byte of additional data panics in a build
  with overflow checks and in one without, and so does decrypting it with any key.
\<close>

theorem forged_lengths_panic:
  "split_encrypted_payload oc forged_payload = Panic
   \<and> decrypt lib oc (Some forged_payload) secret_key = Panic"
proof -
  have len: "length forged_payload = 63" by (simp add: forged_payload_def)
  have "take 8 (drop 32 forged_payload) = replicate 8 255" "take 8 (drop 40 forged_payload) = 1 # replicate 7 0"
    by (simp_all add: forged_payload_def byte_eval)
  then have "announced_cipher_len forged_payload = - 1" "announced_aad_len forged_payload = 1"
    by (simp_all add: announced_cipher_len_def announced_aad_len_def u64_from_le_bytes_def byte_eval)
  then have "announced_total forged_payload = 63 + 2 ^ 64"
    by (simp add: announced_total_def unat_minus_one_word_max)
  then have "split_encrypted_payload oc forged_payload = Panic"
    using split_encrypted_payload_cases [of forged_payload oc] len by simp
  then show ?thesis by (simp add: decrypt_def)
qed

section \<open>Encrypting for a peer\<close>

lemma encrypt_eq:
  "dh_law lib \<Longrightarrow> encrypt lib p n peer pk sk ad =
     Ok (encode_encryption (d2_seal lib (box_key lib (inner peer) (inner sk)) (deref n) p ad) n pk ad)"
  by (simp add: encrypt_def box_seal_eq into_inner_def)

lemma decrypt_encode:
  assumes "dh_law lib" and "wf_array 32 pk" and "length (current_value n) = NONCE_SIZE"
    and "63 + length c + length ad < 2 ^ 64"
  shows "decrypt lib oc (Some (encode_encryption c n pk ad)) sk =
    and_then (map_err (\<lambda>e. ''payload open failed: '' @ e) (d2_open lib (box_key lib (inner pk) (inner sk)) (deref n) c ad))
      (\<lambda>p. Ok \<lparr>dec_plaintext = p, dec_nonce = nonce_new (deref n), dec_peer_public_key = pk, dec_aad = ad\<rparr>)"
proof -
  have sp: "split_encrypted_payload oc (encode_encryption c n pk ad) =
      Ok (pk, of_nat (length c), of_nat (length ad), c, ad, nonce_new (current_value n))"
    by (rule split_encode) (use assms in \<open>simp_all add: NONCE_SIZE_def\<close>)
  show ?thesis
    by (simp only: decrypt_def option.case sp and_then.simps prod.case box_open_eq [OF assms(1)]
        into_inner_def deref_def nonce_new_def nonce.select_convs)
qed

lemma decrypt_encrypt:
  assumes "dh_law lib" and "aead_law lib"
    and "inner my_pk = x25519_public lib (inner my_sk)" and "inner peer_pk = x25519_public lib (inner peer_sk)"
    and "wf_array 32 my_pk" and "length (current_value n) = NONCE_SIZE"
    and "79 + length p + length ad < 2 ^ 64"
  shows "\<exists>payload. encrypt lib p n peer_pk my_pk my_sk ad = Ok payload
    \<and> decrypt lib oc (Some payload) peer_sk =
        Ok \<lparr>dec_plaintext = p, dec_nonce = nonce_new (deref n), dec_peer_public_key = my_pk, dec_aad = ad\<rparr>"
proof -
  let ?k = "box_key lib (inner peer_pk) (inner my_sk)"
  let ?c = "d2_seal lib ?k (deref n) p ad"
  have key: "box_key lib (inner my_pk) (inner peer_sk) = ?k"
    using box_key_agree [OF assms(1)] assms(3,4) by simp
  have "63 + length ?c + length ad < 2 ^ 64"
    using assms(2,7) by (simp add: aead_law_def TAG_SIZE_def)
  from decrypt_encode [OF assms(1,5,6) this] assms(2) key
  show ?thesis by (simp add: encrypt_eq [OF assms(1)] aead_law_def)
qed

text \<open>
  C21. What \<open>encrypt\<close> produces for a peer, that peer's \<open>decrypt\<close> opens: it recovers the plaintext,
  the additional data and the sender's public key, and the nonce it hands back starts at the
  nonce the message was sealed with.
\<close>

theorem decrypt_inverts_encrypt:
  assumes "dh_law lib" and "aead_law lib"
    and "inner my_pk = x25519_public lib (inner my_sk)" and "inner peer_pk = x25519_public lib (inner peer_sk)"
    and "wf_array 32 my_pk" and "length (current_value n) = NONCE_SIZE"
    and "79 + length p + length ad < 2 ^ 64"
  shows "\<exists>payload. encrypt lib p n peer_pk my_pk my_sk ad = Ok payload
    \<and> decrypt lib oc (Some payload) peer_sk =
        Ok \<lparr>dec_plaintext = p, dec_nonce = nonce_new (deref n), dec_peer_public_key = my_pk, dec_aad = ad\<rparr>"
  using assms by (rule decrypt_encrypt)

theorem decrypt_inverts_encrypt_witness:
  "dh_law sample_lib \<and> aead_law sample_lib \<and>
   (\<exists>payload. encrypt sample_lib [1, 2] (nonce_new (replicate 15 3)) (ByteArray (x25519_public sample_lib [9]))
        (ByteArray (x25519_public sample_lib [5])) (ByteArray [5]) [4] = Ok payload
    \<and> is_ok (decrypt sample_lib True (Some payload) (ByteArray [9])))"
proof -
  let ?my = "ByteArray (x25519_public sample_lib [5])" and ?peer = "ByteArray (x25519_public sample_lib [9])"
  have h: "inner ?my = x25519_public sample_lib (inner (ByteArray [5]))"
    "inner ?peer = x25519_public sample_lib (inner (ByteArray [9]))"
    "wf_array 32 ?my" "length (current_value (nonce_new (replicate 15 3))) = NONCE_SIZE"
    "79 + length [1, 2 :: u8] + length [4 :: u8] < 2 ^ 64"
    by (simp_all add: wf_array_def nonce_new_def NONCE_SIZE_def sample_lib_def)
  show ?thesis using sample_lib_laws decrypt_inverts_encrypt [OF sample_lib_laws h, of True] by auto
qed

text \<open>What a client of \<open>decrypt\<close> may rely on when it succeeds.\<close>

lemma decrypt_Ok_wf:
  assumes "length data < 2 ^ 64" and "decrypt lib oc (Some data) sk = Ok d"
  shows "wf_array 32 (dec_peer_public_key d)" "\<exists>v. dec_nonce d = nonce_new v \<and> length v = NONCE_SIZE"
proof -
  obtain pk cl al c ad n where sp: "split_encrypted_payload oc data = Ok (pk, cl, al, c, ad, n)"
    and d: "dec_peer_public_key d = pk" "dec_nonce d = n"
    using assms(2) by (auto simp: decrypt_def)
  from encode_split [OF assms(1) sp] d show "wf_array 32 (dec_peer_public_key d)"
    "\<exists>v. dec_nonce d = nonce_new v \<and> length v = NONCE_SIZE"
    by (auto simp: nonce_wf_def deref_def)
qed

end
