(* ===== verification/Keymanager.thy ===== *)
theory Keymanager
  imports Mrae
begin

text \<open>
  \<open>ekiden_keymanager/src/api.rs\<close> and \<open>client.rs\<close>: contract keys and the mock key manager client,
  which creates the keys of a contract on first use and keeps them.  Random bytes come from the
  operating system: every operation that may draw some takes them as an argument.  The client's
  mutex serialises its operations, so its state is passed explicitly.
\<close>

section \<open>Keys\<close>

record input_key_pair =
  ikp_pk :: byte_array
  ikp_sk :: byte_array

definition input_key_pair_new :: "byte_array \<Rightarrow> byte_array \<Rightarrow> input_key_pair" where
  "input_key_pair_new pk sk = \<lparr>ikp_pk = pk, ikp_sk = sk\<rparr>"

definition get_pk :: "input_key_pair \<Rightarrow> byte_array" where
  "get_pk kp = ikp_pk kp"

definition get_sk :: "input_key_pair \<Rightarrow> byte_array" where
  "get_sk kp = ikp_sk kp"

record contract_key =
  input_keypair :: input_key_pair
  state_key :: byte_array
  checksum :: bytes

definition contract_key_new :: "byte_array \<Rightarrow> byte_array \<Rightarrow> byte_array \<Rightarrow> bytes \<Rightarrow> contract_key" where
  "contract_key_new pk sk k csum =
     \<lparr>input_keypair = input_key_pair_new pk sk, state_key = k, checksum = csum\<rparr>"

definition contract_key_from_public_key :: "byte_array \<Rightarrow> bytes \<Rightarrow> contract_key" where
  "contract_key_from_public_key k csum =
     \<lparr>input_keypair = input_key_pair_new k (array_default 32), state_key = array_default 32, checksum = csum\<rparr>"

text \<open>The random secret and the random state key of one key generation.\<close>

type_synonym key_random = "bytes \<times> bytes"

definition generate_mock :: "mrae_lib \<Rightarrow> key_random \<Rightarrow> contract_key" where
  "generate_mock lib rnd =
     (let sk = fst rnd; pk = x25519_public lib sk; state_key = ByteArray (snd rnd)
      in contract_key_new (ByteArray pk) (ByteArray sk) state_key [])"

record signed_public_key =
  spk_key :: byte_array
  spk_checksum :: bytes
  spk_signature :: byte_array

section \<open>The mock client\<close>

record mock_client =
  keys :: "byte_array \<rightharpoonup> contract_key"

definition mock_client_new :: mock_client where
  "mock_client_new = \<lparr>keys = Map.empty\<rparr>"

definition get_or_create_keys ::
  "mrae_lib \<Rightarrow> key_random \<Rightarrow> mock_client \<Rightarrow> byte_array \<Rightarrow> contract_key \<times> mock_client" where
  "get_or_create_keys lib rnd km contract_id =
     (case keys km contract_id of
        Some key \<Rightarrow> (key, km)
      | None \<Rightarrow> (let key = generate_mock lib rnd in (key, km\<lparr>keys := (keys km)(contract_id \<mapsto> key)\<rparr>)))"

definition get_public_key ::
  "mrae_lib \<Rightarrow> key_random \<Rightarrow> mock_client \<Rightarrow> byte_array \<Rightarrow> signed_public_key option \<times> mock_client" where
  "get_public_key lib rnd km contract_id =
     (let (key, km') = get_or_create_keys lib rnd km contract_id
      in (Some \<lparr>spk_key = get_pk (input_keypair key), spk_checksum = [], spk_signature = array_default 64\<rparr>, km'))"

section \<open>Key services\<close>

text \<open>
  What the users of a key manager rely on (the confidential context to decrypt what a client
  encrypted, the RPC layer to publish a key before the contract runs): a known identifier keeps
  its key, and asking for an unknown one makes it known and touches no other.
\<close>

primrec run_gets :: "('r \<Rightarrow> 's \<Rightarrow> 'i \<Rightarrow> 'k \<times> 's) \<Rightarrow> ('r \<times> 'i) list \<Rightarrow> 's \<Rightarrow> 's" where
  "run_gets get [] s = s"
| "run_gets get (op # ops) s = run_gets get ops (snd (get (fst op) s (snd op)))"

locale key_service =
  fixes get :: "'r \<Rightarrow> 's \<Rightarrow> 'i \<Rightarrow> 'k \<times> 's"
    and known :: "'s \<Rightarrow> 'i \<rightharpoonup> 'k"
  assumes get_known: "known s i = Some k \<Longrightarrow> get r s i = (k, s)"
    and get_unknown: "known s i = None \<Longrightarrow> known (snd (get r s i)) = (known s)(i \<mapsto> fst (get r s i))"
begin

lemma known_after_get: "known (snd (get r s i)) i = Some (fst (get r s i))"
  by (cases "known s i") (simp_all add: get_known get_unknown)

lemma known_kept_by_get: "known s i = Some k \<Longrightarrow> known (snd (get r s j)) i = Some k"
  by (cases "known s j") (auto simp: get_known get_unknown)

lemma known_kept: "known s i = Some k \<Longrightarrow> known (run_gets get ops s) i = Some k"
  by (induction ops arbitrary: s) (auto intro: known_kept_by_get)

lemma get_stable: "get r' (run_gets get ops (snd (get r s i))) i
    = (fst (get r s i), run_gets get ops (snd (get r s i)))"
  by (rule get_known) (rule known_kept [OF known_after_get])

lemma known_mono: "known s \<subseteq>\<^sub>m known (run_gets get ops s)"
  by (auto simp: map_le_def intro: known_kept [symmetric])

end

interpretation mc: key_service "get_or_create_keys lib" keys for lib
  by unfold_locales (auto simp: get_or_create_keys_def Let_def)

section \<open>Properties\<close>

text \<open>
  C31. The key manager is stable: whatever requests for whatever contracts come in between, and
  whatever random bytes they draw, a contract is given the same keys as the first time, the
  published public key is the public half of these keys, and the repeated request changes nothing.
\<close>

theorem contract_keys_are_stable:
  "let (key, km1) = get_or_create_keys lib r km cid;
       km2 = run_gets (get_or_create_keys lib) ops km1
   in get_or_create_keys lib r' km2 cid = (key, km2)
    \<and> get_public_key lib r' km2 cid =
      (Some \<lparr>spk_key = get_pk (input_keypair key), spk_checksum = [], spk_signature = array_default 64\<rparr>, km2)"
  by (simp add: get_public_key_def mc.get_stable case_prod_beta Let_def)

text \<open>Keys that were generated here are well formed: 32 bytes each, with matching halves.\<close>

definition key_wf :: "mrae_lib \<Rightarrow> contract_key \<Rightarrow> bool" where
  "key_wf lib k \<longleftrightarrow> wf_array 32 (get_pk (input_keypair k)) \<and> wf_array 32 (get_sk (input_keypair k))
     \<and> wf_array 32 (state_key k)
     \<and> inner (get_pk (input_keypair k)) = x25519_public lib (inner (get_sk (input_keypair k)))"

definition km_wf :: "mrae_lib \<Rightarrow> mock_client \<Rightarrow> bool" where
  "km_wf lib km \<longleftrightarrow> (\<forall>cid k. keys km cid = Some k \<longrightarrow> key_wf lib k)"

definition random_wf :: "mrae_lib \<Rightarrow> key_random \<Rightarrow> bool" where
  "random_wf lib rnd \<longleftrightarrow> length (fst rnd) = 32 \<and> length (snd rnd) = 32
     \<and> length (x25519_public lib (fst rnd)) = 32"

lemma generate_mock_wf [wf_intros]: "random_wf lib rnd \<Longrightarrow> key_wf lib (generate_mock lib rnd)"
  by (simp add: key_wf_def random_wf_def generate_mock_def contract_key_new_def input_key_pair_new_def
      get_pk_def get_sk_def wf_array_def Let_def)

lemma mock_client_new_wf [wf_intros]: "km_wf lib mock_client_new"
  by (simp add: km_wf_def mock_client_new_def)

lemma get_or_create_keys_wf:
  assumes "km_wf lib km" and "random_wf lib rnd" and "get_or_create_keys lib rnd km cid = (k, km')"
  shows "km_wf lib km'" "key_wf lib k" "keys km' cid = Some k" "keys km \<subseteq>\<^sub>m keys km'"
  using assms by (auto simp: get_or_create_keys_def km_wf_def Let_def map_le_def intro: generate_mock_wf split: option.splits if_splits)

lemma run_gets_wf:
  assumes "km_wf lib km" and "\<forall>op \<in> set ops. random_wf lib (fst op)"
  shows "km_wf lib (run_gets (get_or_create_keys lib) ops km)"
  using assms
proof (induction ops arbitrary: km)
  case (Cons x xs)
  obtain r i where x: "x = (r, i)" by (cases x)
  obtain k km' where g: "get_or_create_keys lib r km i = (k, km')" by (meson surj_pair)
  have "random_wf lib r" using Cons.prems(2) x by simp
  then have "km_wf lib km'" by (rule get_or_create_keys_wf(1) [OF Cons.prems(1) _ g])
  with Cons.prems(2) have "km_wf lib (run_gets (get_or_create_keys lib) xs km')" by (simp add: Cons.IH)
  then show ?case using x g by simp
qed simp

text \<open>
  C40. Keys are well typed: whatever requests with 32-byte random material a fresh key manager has
  served, every key it returns and every key it holds has 32-byte halves and a 32-byte state key,
  and its public half belongs to its private half.
\<close>

theorem keys_well_formed:
  assumes "\<forall>op \<in> set ops. random_wf lib (fst op)" and "random_wf lib rnd"
    and "get_or_create_keys lib rnd (run_gets (get_or_create_keys lib) ops mock_client_new) cid = (k, km)"
  shows "key_wf lib k \<and> km_wf lib km \<and> keys km cid = Some k"
proof -
  have "km_wf lib (run_gets (get_or_create_keys lib) ops mock_client_new)"
    by (rule run_gets_wf [OF mock_client_new_wf assms(1)])
  from get_or_create_keys_wf [OF this assms(2,3)] show ?thesis by simp
qed

theorem keys_well_formed_witness:
  "\<exists>k km. get_or_create_keys sample_lib (replicate 32 1, replicate 32 2)
      (run_gets (get_or_create_keys sample_lib) [((replicate 32 3, replicate 32 4), ByteArray [7])] mock_client_new) (ByteArray [8]) = (k, km)
    \<and> key_wf sample_lib k \<and> km_wf sample_lib km \<and> keys km (ByteArray [8]) = Some k"
proof -
  let ?ops = "[((replicate 32 (3 :: u8), replicate 32 (4 :: u8)), ByteArray [7])]"
  have r: "\<forall>op \<in> set ?ops. random_wf sample_lib (fst op)" "random_wf sample_lib (replicate 32 1, replicate 32 2)"
    by (simp_all add: random_wf_def sample_lib_def)
  obtain k km where "get_or_create_keys sample_lib (replicate 32 1, replicate 32 2)
      (run_gets (get_or_create_keys sample_lib) ?ops mock_client_new) (ByteArray [8]) = (k, km)" by (meson surj_pair)
  with keys_well_formed [OF r this] show ?thesis by blast
qed

end
