(* ===== verification/Confidential_Ctx.thy ===== *)
theory Confidential_Ctx
  imports Wire_Crypto Keymanager
begin

text \<open>
  \<open>src/confidential/confidential_ctx.rs\<close>: the encryption state of a block under execution. Each
  operation takes the context (and, where it uses it, the shared key manager) and returns the
  result together with the new state, which a failing call may already have changed.
\<close>

section \<open>The context\<close>

text \<open>
  The code the context calls outside the repository: the cryptographic primitives, Keccak-256 and
  SHA-512/256; and whether the build checks overflow.
\<close>

record conf_env =
  env_lib :: mrae_lib
  env_keccak :: "bytes \<Rightarrow> bytes"
  env_sha :: "bytes \<Rightarrow> bytes"
  env_oc :: bool

text \<open>A Deoxys-II instance is determined by its key, so \<open>d2\<close> holds the key.\<close>

record confidential_ctx =
  peer_public_key :: "byte_array option"
  contract :: "(bytes \<times> contract_key) option"
  next_nonce :: "nonce option"
  ctx_activated :: bool
  prev_block_hash :: bytes
  d2 :: "bytes option"
  next_storage_nonce :: "nonce option"

datatype vm_error = Confidential string

record authenticated_payload =
  decrypted_data :: bytes
  additional_data :: bytes

definition confidential_ctx_new :: "bytes \<Rightarrow> confidential_ctx" where
  "confidential_ctx_new prev =
     \<lparr>peer_public_key = None, contract = None, next_nonce = None, ctx_activated = False,
      prev_block_hash = prev, d2 = None, next_storage_nonce = None\<rparr>"

definition ctx_decrypt :: "conf_env \<Rightarrow> confidential_ctx \<Rightarrow> bytes \<Rightarrow> (bytes, vm_error) outcome" where
  "ctx_decrypt env ctx encrypted_tx_data =
     (case contract ctx of
        None \<Rightarrow> Err (Confidential ''The confidential context must have a contract key when opening encrypted transaction data'')
      | Some (_, key) \<Rightarrow>
          map_ok dec_plaintext (map_err Confidential
            (decrypt (env_lib env) (env_oc env) (Some encrypted_tx_data) (get_sk (input_keypair key)))))"

text \<open>The Deoxys-II key of a contract and the first storage nonce, \<open>H(prev || address)[:11] || 0\<close>.\<close>

definition deoxys_key :: "contract_key \<Rightarrow> (bytes, 'e) outcome" where
  "deoxys_key key = and_then (slice (as_ref (state_key key)) 0 KEY_SIZE) (copy_from_slice KEY_SIZE)"

definition storage_nonce :: "conf_env \<Rightarrow> bytes \<Rightarrow> bytes \<Rightarrow> (nonce, 'e) outcome" where
  "storage_nonce env prev address =
     and_then (digest_bytes (env_sha env) (prev @ address)) (\<lambda>hash.
     and_then (slice (as_ref hash) 0 NONCE_TAG_SIZE) (\<lambda>h.
     and_then (copy_from_slice NONCE_TAG_SIZE h) (\<lambda>tag.
       Ok (nonce_new (tag @ replicate (NONCE_SIZE - NONCE_TAG_SIZE) 0)))))"

definition swap_contract ::
  "conf_env \<Rightarrow> confidential_ctx \<Rightarrow> (bytes \<times> contract_key) option \<Rightarrow> (bytes option, 'e) outcome \<times> confidential_ctx"
  where
  "swap_contract env ctx c =
     (let old_contract_address = map_option fst (contract ctx);
          ctx1 = ctx\<lparr>contract := c\<rparr>
      in case c of
        None \<Rightarrow> (Ok old_contract_address, ctx1\<lparr>d2 := None, next_storage_nonce := None\<rparr>)
      | Some (address, key) \<Rightarrow>
          (case deoxys_key key of
             Err e \<Rightarrow> (Err e, ctx1)
           | Panic \<Rightarrow> (Panic, ctx1)
           | Ok k \<Rightarrow>
               let ctx2 = ctx1\<lparr>d2 := Some k\<rparr> in
               (case storage_nonce env (prev_block_hash ctx) address of
                  Err e \<Rightarrow> (Err e, ctx2)
                | Panic \<Rightarrow> (Panic, ctx2)
                | Ok n \<Rightarrow> (Ok old_contract_address, ctx2\<lparr>next_storage_nonce := Some n\<rparr>))))"

definition activated :: "confidential_ctx \<Rightarrow> bool" where
  "activated ctx = ctx_activated ctx"

definition is_encrypting :: "confidential_ctx \<Rightarrow> bool" where
  "is_encrypting ctx \<longleftrightarrow> activated ctx \<and> contract ctx \<noteq> None"

definition activate ::
  "conf_env \<Rightarrow> key_random \<Rightarrow> confidential_ctx \<Rightarrow> mock_client \<Rightarrow> bytes option
   \<Rightarrow> (bytes option, vm_error) outcome \<times> confidential_ctx \<times> mock_client" where
  "activate env rnd ctx0 km c =
     (let ctx = ctx0\<lparr>ctx_activated := True\<rparr>
      in case c of
        None \<Rightarrow> (let (r, ctx') = swap_contract env ctx None in (r, ctx', km))
      | Some address \<Rightarrow>
          (case from_slice 32 (env_keccak env address) of
             Err e \<Rightarrow> (Err e, ctx, km)
           | Panic \<Rightarrow> (Panic, ctx, km)
           | Ok contract_id \<Rightarrow>
               let (contract_key, km') = get_or_create_keys (env_lib env) rnd km contract_id;
                   (r, ctx') = swap_contract env ctx (Some (address, contract_key))
               in (r, ctx', km')))"

definition deactivate :: "confidential_ctx \<Rightarrow> confidential_ctx" where
  "deactivate ctx = ctx\<lparr>peer_public_key := None, contract := None, next_nonce := None,
     ctx_activated := False, d2 := None, next_storage_nonce := None\<rparr>"

section \<open>Sessions with the peer\<close>

definition session_problems :: "confidential_ctx \<Rightarrow> string" where
  "session_problems ctx =
     (if peer_public_key ctx = None then ''; no peer public key specified'' else [])
     @ (if contract ctx = None then ''; no contract specified from which to extract contract public key'' else [])
     @ (if next_nonce ctx = None then ''; no next nonce specified'' else [])"

definition encrypt_session ::
  "conf_env \<Rightarrow> confidential_ctx \<Rightarrow> bytes \<Rightarrow> (bytes, vm_error) outcome \<times> confidential_ctx" where
  "encrypt_session env ctx data =
     (let err_msg = session_problems ctx in
      if err_msg \<noteq> [] then (Err (Confidential (''Cannot encrypt session '' @ err_msg @ ''.'')), ctx)
      else case (contract ctx, next_nonce ctx, peer_public_key ctx) of
        (Some (_, key), Some n, Some peer) \<Rightarrow>
          (case encrypt (env_lib env) data n peer (get_pk (input_keypair key)) (get_sk (input_keypair key)) [] of
             Err e \<Rightarrow> (Err (Confidential e), ctx)
           | Panic \<Rightarrow> (Panic, ctx)
           | Ok encrypted_payload \<Rightarrow>
               (case increment n of
                  (Err e, n') \<Rightarrow> (Err (Confidential e), ctx\<lparr>next_nonce := Some n'\<rparr>)
                | (Panic, n') \<Rightarrow> (Panic, ctx\<lparr>next_nonce := Some n'\<rparr>)
                | (Ok _, n') \<Rightarrow> (Ok encrypted_payload, ctx\<lparr>next_nonce := Some n'\<rparr>)))
      | _ \<Rightarrow> (Panic, ctx))"

definition decrypt_session ::
  "conf_env \<Rightarrow> confidential_ctx \<Rightarrow> bytes \<Rightarrow> (authenticated_payload, vm_error) outcome \<times> confidential_ctx" where
  "decrypt_session env ctx encrypted_payload =
     (case contract ctx of
        None \<Rightarrow> (Panic, ctx)
      | Some (_, key) \<Rightarrow>
          (case decrypt (env_lib env) (env_oc env) (Some encrypted_payload) (get_sk (input_keypair key)) of
             Err e \<Rightarrow> (Err (Confidential e), ctx)
           | Panic \<Rightarrow> (Panic, ctx)
           | Ok decryption \<Rightarrow>
               let ctx1 = ctx\<lparr>peer_public_key := Some (dec_peer_public_key decryption)\<rparr> in
               (case increment (dec_nonce decryption) of
                  (Err e, _) \<Rightarrow> (Err (Confidential e), ctx1)
                | (Panic, _) \<Rightarrow> (Panic, ctx1)
                | (Ok _, n) \<Rightarrow>
                    (Ok \<lparr>decrypted_data = dec_plaintext decryption, additional_data = dec_aad decryption\<rparr>,
                     ctx1\<lparr>next_nonce := Some n\<rparr>))))"

section \<open>Contract storage\<close>

definition encrypt_storage_key :: "conf_env \<Rightarrow> confidential_ctx \<Rightarrow> bytes \<Rightarrow> (bytes, vm_error) outcome" where
  "encrypt_storage_key env ctx data =
     and_then (expect (d2 ctx)) (\<lambda>k. Ok (d2_seal (env_lib env) k (replicate NONCE_SIZE 0) data []))"

definition encrypt_storage_value ::
  "conf_env \<Rightarrow> confidential_ctx \<Rightarrow> bytes \<Rightarrow> bytes \<Rightarrow> (bytes, vm_error) outcome \<times> confidential_ctx" where
  "encrypt_storage_value env ctx storage_key data =
     (case next_storage_nonce ctx of
        None \<Rightarrow> (Panic, ctx)
      | Some n \<Rightarrow>
          (case and_then (slice (deref n) 0 NONCE_SIZE) (copy_from_slice NONCE_SIZE) of
             Err e \<Rightarrow> (Err e, ctx)
           | Panic \<Rightarrow> (Panic, ctx)
           | Ok nonce \<Rightarrow>
               (case d2 ctx of
                  None \<Rightarrow> (Panic, ctx)
                | Some k \<Rightarrow>
                    let ciphertext = d2_seal (env_lib env) k nonce data storage_key @ nonce in
                    (case increment n of
                       (Err e, n') \<Rightarrow> (Err (Confidential e), ctx\<lparr>next_storage_nonce := Some n'\<rparr>)
                     | (Panic, n') \<Rightarrow> (Panic, ctx\<lparr>next_storage_nonce := Some n'\<rparr>)
                     | (Ok _, n') \<Rightarrow> (Ok ciphertext, ctx\<lparr>next_storage_nonce := Some n'\<rparr>)))))"

definition decrypt_storage_value ::
  "conf_env \<Rightarrow> confidential_ctx \<Rightarrow> bytes \<Rightarrow> bytes \<Rightarrow> (bytes, vm_error) outcome" where
  "decrypt_storage_value env ctx storage_key data =
     (if length data < TAG_SIZE + NONCE_SIZE then Err (Confidential ''truncated ciphertext'')
      else
        let nonce_offset = length data - NONCE_SIZE in
        and_then (slice data nonce_offset (length data)) (\<lambda>tail.
        and_then (copy_from_slice NONCE_SIZE tail) (\<lambda>nonce.
        and_then (slice data 0 nonce_offset) (\<lambda>ciphertext.
        and_then (expect (d2 ctx)) (\<lambda>k.
          unwrap (d2_open (env_lib env) k nonce ciphertext storage_key))))))"

definition peer :: "confidential_ctx \<Rightarrow> bytes option" where
  "peer ctx = map_option as_ref (peer_public_key ctx)"

section \<open>The operations on well-formed states\<close>

text \<open>The digests have the sizes of their types.\<close>

definition env_ok :: "conf_env \<Rightarrow> bool" where
  "env_ok env \<longleftrightarrow> (\<forall>d. length (env_sha env d) = HASH_SIZE) \<and> (\<forall>d. length (env_keccak env d) = 32)"

definition storage_start :: "conf_env \<Rightarrow> bytes \<Rightarrow> bytes \<Rightarrow> bytes" where
  "storage_start env prev address = take NONCE_TAG_SIZE (env_sha env (prev @ address)) @ replicate 4 0"

definition contract_id_of :: "conf_env \<Rightarrow> bytes \<Rightarrow> byte_array" where
  "contract_id_of env address = ByteArray (env_keccak env address)"

lemma storage_start_length [simp]: "env_ok env \<Longrightarrow> length (storage_start env prev a) = NONCE_SIZE"
  by (simp add: storage_start_def env_ok_def nonce_sizes HASH_SIZE_def)

lemma storage_nonce_eq: "env_ok env \<Longrightarrow> storage_nonce env prev a = Ok (nonce_new (storage_start env prev a))"
  by (simp add: storage_nonce_def digest_bytes_def env_ok_def copy_from_slice_def slice_def as_ref_def
      storage_start_def nonce_sizes HASH_SIZE_def)

lemma deoxys_key_eq: "wf_array 32 (state_key k) \<Longrightarrow> deoxys_key k = Ok (inner (state_key k))"
  by (simp add: deoxys_key_def as_ref_def wf_array_def slice_def copy_from_slice_def KEY_SIZE_def)

lemma swap_contract_Some:
  "env_ok env \<Longrightarrow> wf_array 32 (state_key k) \<Longrightarrow> swap_contract env ctx (Some (a, k)) =
     (Ok (map_option fst (contract ctx)),
      ctx\<lparr>contract := Some (a, k), d2 := Some (inner (state_key k)),
          next_storage_nonce := Some (nonce_new (storage_start env (prev_block_hash ctx) a))\<rparr>)"
  by (simp add: swap_contract_def deoxys_key_eq storage_nonce_eq)

lemma activate_None:
  "activate env rnd ctx km None =
     (Ok (map_option fst (contract ctx)),
      ctx\<lparr>ctx_activated := True, contract := None, d2 := None, next_storage_nonce := None\<rparr>, km)"
  by (simp add: activate_def swap_contract_def)

lemma activate_Some:
  assumes "env_ok env" and "km_wf (env_lib env) km" and "random_wf (env_lib env) rnd"
    and "get_or_create_keys (env_lib env) rnd km (contract_id_of env a) = (k, km')"
  shows "activate env rnd ctx km (Some a) =
     (Ok (map_option fst (contract ctx)),
      ctx\<lparr>ctx_activated := True, contract := Some (a, k), d2 := Some (inner (state_key k)),
          next_storage_nonce := Some (nonce_new (storage_start env (prev_block_hash ctx) a))\<rparr>, km')"
proof -
  have "wf_array 32 (state_key k)" using get_or_create_keys_wf(2) [OF assms(2-4)] by (simp add: key_wf_def)
  moreover have "from_slice 32 (env_keccak env a) = (Ok (contract_id_of env a) :: (byte_array, vm_error) outcome)"
    using assms(1) by (simp add: from_slice_def copy_from_slice_def contract_id_of_def env_ok_def)
  ultimately show ?thesis
    using assms(1,4) by (simp add: activate_def swap_contract_Some)
qed

lemma storage_slice: "nonce_wf n \<Longrightarrow>
    and_then (slice (deref n) 0 NONCE_SIZE) (copy_from_slice NONCE_SIZE) = Ok (current_value n)"
  by (simp add: nonce_wf_def deref_def slice_def copy_from_slice_def)

lemma encrypt_storage_value_eq:
  assumes "next_storage_nonce ctx = Some n" and "nonce_wf n" and "d2 ctx = Some k"
  shows "encrypt_storage_value env ctx sk data =
    (case increment n of
       (Err e, n') \<Rightarrow> (Err (Confidential e), ctx\<lparr>next_storage_nonce := Some n'\<rparr>)
     | (Panic, n') \<Rightarrow> (Panic, ctx\<lparr>next_storage_nonce := Some n'\<rparr>)
     | (Ok _, n') \<Rightarrow> (Ok (d2_seal (env_lib env) k (current_value n) data sk @ current_value n),
                   ctx\<lparr>next_storage_nonce := Some n'\<rparr>))"
  using assms by (simp add: encrypt_storage_value_def storage_slice)

text \<open>What an increment of a well-formed nonce can do, with the origin kept in every case.\<close>

lemma increment_cases:
  assumes "nonce_wf n" and "increment n = (r, m)"
  shows "nonce_wf m" "start_value m = start_value n" "r = Ok () \<or> r = Err nonce_exhausted \<and> m = n"
proof -
  have "nonce_wf m \<and> start_value m = start_value n \<and> (r = Ok () \<or> r = Err nonce_exhausted \<and> m = n)"
  proof (cases "Suc (nonce_used n) < 2 ^ 32")
    case True
    with nc.step_ok [OF assms(1)] assms(2) show ?thesis by auto
  next
    case False
    with nc.used_less [OF assms(1)] have "Suc (nonce_used n) = 2 ^ 32" by linarith
    with nc.step_err [OF assms(1)] assms show ?thesis by auto
  qed
  then show "nonce_wf m" "start_value m = start_value n" "r = Ok () \<or> r = Err nonce_exhausted \<and> m = n" by auto
qed

lemma increment_fresh:
  assumes "length v = NONCE_SIZE"
  shows "\<exists>m. increment (nonce_new v) = (Ok (), m) \<and> nonce_wf m \<and> current_value m = nonce_at v (counter_of v + 1)"
proof -
  have wf: "nonce_wf (nonce_new v)" using assms by (rule nonce_new_wf)
  obtain m where m: "increment (nonce_new v) = (Ok (), m)" "nonce_wf m"
    using nc.step_ok [OF wf] by auto
  then have "current_value m = nonce_at v (counter_of v + 1)"
    using increment_wf_eq [OF wf] by (auto simp: nonce_new_def Let_def split: if_splits)
  with m show ?thesis by blast
qed

section \<open>The invariant\<close>

text \<open>
  While a contract is selected, the context is active, its keys are the ones the key manager
  holds for it, the Deoxys-II instance uses its state key, and the storage nonce belongs to the
  tag of this block and contract; otherwise there is neither instance nor storage nonce.  A
  session nonce exists exactly when the peer is known.
\<close>

definition contract_inv :: "conf_env \<Rightarrow> confidential_ctx \<Rightarrow> mock_client \<Rightarrow> bool" where
  "contract_inv env ctx km \<longleftrightarrow>
     (case contract ctx of
        None \<Rightarrow> d2 ctx = None \<and> next_storage_nonce ctx = None
      | Some (a, k) \<Rightarrow>
          ctx_activated ctx \<and> key_wf (env_lib env) k \<and> keys km (contract_id_of env a) = Some k
          \<and> d2 ctx = Some (inner (state_key k))
          \<and> (\<exists>n. next_storage_nonce ctx = Some n \<and> nonce_wf n
               \<and> start_value n = storage_start env (prev_block_hash ctx) a))"

definition session_inv :: "confidential_ctx \<Rightarrow> bool" where
  "session_inv ctx \<longleftrightarrow>
     (case next_nonce ctx of
        None \<Rightarrow> peer_public_key ctx = None
      | Some n \<Rightarrow> ctx_activated ctx \<and> nonce_wf n \<and> (\<exists>p. peer_public_key ctx = Some p \<and> wf_array 32 p))"

definition ctx_inv :: "conf_env \<Rightarrow> confidential_ctx \<times> mock_client \<Rightarrow> bool" where
  "ctx_inv env s \<longleftrightarrow> env_ok env \<and> km_wf (env_lib env) (snd s)
     \<and> contract_inv env (fst s) (snd s) \<and> session_inv (fst s)"

text \<open>
  The steps: any operation of the context, with any arguments a caller can pass, or another
  client of the shared key manager asking for a key.
\<close>

inductive ctx_step ::
  "conf_env \<Rightarrow> confidential_ctx \<times> mock_client \<Rightarrow> confidential_ctx \<times> mock_client \<Rightarrow> bool"
  for env :: conf_env where
  step_activate: "random_wf (env_lib env) rnd \<Longrightarrow> activate env rnd ctx km c = (r, ctx', km')
    \<Longrightarrow> ctx_step env (ctx, km) (ctx', km')"
| step_deactivate: "ctx_step env (ctx, km) (deactivate ctx, km)"
| step_encrypt_session: "encrypt_session env ctx data = (r, ctx') \<Longrightarrow> ctx_step env (ctx, km) (ctx', km)"
| step_decrypt_session: "length payload < 2 ^ 64 \<Longrightarrow> decrypt_session env ctx payload = (r', ctx')
    \<Longrightarrow> ctx_step env (ctx, km) (ctx', km)"
| step_encrypt_storage: "encrypt_storage_value env ctx sk data = (r, ctx') \<Longrightarrow> ctx_step env (ctx, km) (ctx', km)"
| step_other_client: "random_wf (env_lib env) rnd \<Longrightarrow> get_public_key (env_lib env) rnd km cid = (p, km')
    \<Longrightarrow> ctx_step env (ctx, km) (ctx, km')"

inductive_cases ctx_stepE: "ctx_step env s t"

definition ctx_start :: "conf_env \<Rightarrow> confidential_ctx \<times> mock_client \<Rightarrow> bool" where
  "ctx_start env s \<longleftrightarrow> env_ok env \<and> km_wf (env_lib env) (snd s) \<and> (\<exists>h. fst s = confidential_ctx_new h)"

lemma ctx_inv_start: "ctx_start env s \<Longrightarrow> ctx_inv env s"
  by (auto simp: ctx_start_def ctx_inv_def contract_inv_def session_inv_def confidential_ctx_new_def)

lemma ctx_inv_keys_mono:
  "ctx_inv env (ctx, km) \<Longrightarrow> km_wf (env_lib env) km' \<Longrightarrow> keys km \<subseteq>\<^sub>m keys km' \<Longrightarrow> ctx_inv env (ctx, km')"
  by (auto simp: ctx_inv_def contract_inv_def map_le_def domI split: option.splits)
     (metis domI)+

lemma activate_inv:
  assumes "ctx_inv env (ctx, km)" and "random_wf (env_lib env) rnd" and "activate env rnd ctx km c = (r, ctx', km')"
  shows "ctx_inv env (ctx', km')"
proof (cases c)
  case None
  with assms show ?thesis
    by (auto simp: activate_None ctx_inv_def contract_inv_def session_inv_def split: option.splits)
next
  case (Some a)
  have env: "env_ok env" and km: "km_wf (env_lib env) km" using assms(1) by (auto simp: ctx_inv_def)
  obtain k km1 where g: "get_or_create_keys (env_lib env) rnd km (contract_id_of env a) = (k, km1)"
    by (meson surj_pair)
  note w = get_or_create_keys_wf [OF km assms(2) g]
  have "nonce_wf (nonce_new (storage_start env (prev_block_hash ctx) a))"
    using env by (intro wf_intros) simp
  moreover have "start_value (nonce_new v) = v" for v by (simp add: nonce_new_def)
  ultimately show ?thesis
    using assms(1,3) Some activate_Some [OF env km assms(2) g, of ctx] w env
    by (auto simp: ctx_inv_def contract_inv_def session_inv_def split: option.splits)
qed

lemma deactivate_inv: "ctx_inv env (ctx, km) \<Longrightarrow> ctx_inv env (deactivate ctx, km)"
  by (simp add: ctx_inv_def deactivate_def contract_inv_def session_inv_def)

lemma encrypt_session_result:
  assumes "session_inv ctx" and "encrypt_session env ctx data = (r, ctx')"
  shows "ctx' = ctx \<or> (\<exists>n m r'. next_nonce ctx = Some n \<and> increment n = (r', m) \<and> ctx' = ctx\<lparr>next_nonce := Some m\<rparr>)"
  using assms
  by (auto simp: encrypt_session_def Let_def split: if_splits option.splits outcome.splits prod.splits)

lemma encrypt_session_inv:
  assumes "ctx_inv env (ctx, km)" and "encrypt_session env ctx data = (r, ctx')"
  shows "ctx_inv env (ctx', km)"
  using encrypt_session_result [OF _ assms(2)] assms(1) increment_cases(1)
  by (auto simp: ctx_inv_def contract_inv_def session_inv_def split: option.splits)

lemma decrypt_session_result:
  assumes "length payload < 2 ^ 64" and "decrypt_session env ctx payload = (r, ctx')"
  shows "ctx' = ctx \<and> \<not> is_ok r \<or>
    (\<exists>a k d v m. contract ctx = Some (a, k)
       \<and> decrypt (env_lib env) (env_oc env) (Some payload) (get_sk (input_keypair k)) = Ok d
       \<and> dec_nonce d = nonce_new v \<and> length v = NONCE_SIZE \<and> increment (nonce_new v) = (Ok (), m) \<and> nonce_wf m
       \<and> wf_array 32 (dec_peer_public_key d)
       \<and> r = Ok \<lparr>decrypted_data = dec_plaintext d, additional_data = dec_aad d\<rparr>
       \<and> ctx' = ctx\<lparr>peer_public_key := Some (dec_peer_public_key d), next_nonce := Some m\<rparr>)"
proof (cases "contract ctx")
  case (Some ak)
  obtain a k where c: "contract ctx = Some (a, k)" using Some by (cases ak) auto
  let ?d = "decrypt (env_lib env) (env_oc env) (Some payload) (get_sk (input_keypair k))"
  show ?thesis
  proof (cases ?d)
    case (Ok d)
    from decrypt_Ok_wf [OF assms(1) Ok] obtain v where v: "dec_nonce d = nonce_new v" "length v = NONCE_SIZE"
      and pk: "wf_array 32 (dec_peer_public_key d)" by auto
    from increment_fresh [OF v(2)] obtain m where "increment (nonce_new v) = (Ok (), m)" "nonce_wf m" by auto
    then show ?thesis using assms(2) Ok v pk c by (fastforce simp: decrypt_session_def)
  qed (use assms(2) c in \<open>auto simp: decrypt_session_def\<close>)
qed (use assms(2) in \<open>auto simp: decrypt_session_def\<close>)

lemma decrypt_session_inv:
  assumes "ctx_inv env (ctx, km)" and "length payload < 2 ^ 64" and "decrypt_session env ctx payload = (r, ctx')"
  shows "ctx_inv env (ctx', km)"
  using decrypt_session_result [OF assms(2,3)] assms(1)
  by (auto simp: ctx_inv_def contract_inv_def session_inv_def)

lemma encrypt_storage_value_inv:
  assumes "ctx_inv env (ctx, km)" and "encrypt_storage_value env ctx sk data = (r, ctx')"
  shows "ctx_inv env (ctx', km)"
proof (cases "contract ctx")
  case None
  then have "next_storage_nonce ctx = None" using assms(1) by (simp add: ctx_inv_def contract_inv_def)
  then show ?thesis using assms by (simp add: encrypt_storage_value_def)
next
  case (Some ak)
  then obtain a k n where c: "contract ctx = Some (a, k)" "next_storage_nonce ctx = Some n" "nonce_wf n"
    "d2 ctx = Some (inner (state_key k))"
    using assms(1) by (cases ak) (auto simp: ctx_inv_def contract_inv_def)
  obtain r' m where inc: "increment n = (r', m)" by (meson surj_pair)
  have "ctx' = ctx\<lparr>next_storage_nonce := Some m\<rparr>"
    using assms(2) encrypt_storage_value_eq [OF c(2-4)] inc by (auto split: outcome.splits)
  then show ?thesis
    using assms(1) c increment_cases(1,2) [OF c(3) inc]
    by (auto simp: ctx_inv_def contract_inv_def session_inv_def split: option.splits)
qed

lemma other_client_inv:
  assumes "ctx_inv env (ctx, km)" and "random_wf (env_lib env) rnd"
    and "get_public_key (env_lib env) rnd km cid = (p, km')"
  shows "ctx_inv env (ctx, km')"
proof -
  obtain k where "get_or_create_keys (env_lib env) rnd km cid = (k, km')"
    using assms(3) by (auto simp: get_public_key_def Let_def split: prod.splits)
  then show ?thesis
    using get_or_create_keys_wf [OF _ assms(2)] assms(1) ctx_inv_keys_mono
    by (metis ctx_inv_def snd_conv)
qed

lemma ctx_inv_step: "ctx_inv env s \<Longrightarrow> ctx_step env s t \<Longrightarrow> ctx_inv env t"
  by (auto elim!: ctx_stepE intro: activate_inv deactivate_inv encrypt_session_inv decrypt_session_inv
      encrypt_storage_value_inv other_client_inv)

interpretation cm: invariant_machine "ctx_start env" "ctx_step env" "ctx_inv env" for env
  by unfold_locales (auto intro: ctx_inv_start ctx_inv_step)

section \<open>Properties\<close>

text \<open>
  C10. In every state the context can reach, while it is encrypting, the keys in use are the key
  manager's keys for the selected contract, and the three storage operations work under that
  contract's state key: storage keys and values are sealed without a panic, a value failing only with
  the error of an exhausted nonce, and a stored value is opened with the nonce at its end, unless it
  is too short, which is an error.  Opening panics exactly when the cipher does not accept the value.
\<close>

theorem encrypting_context_is_ready:
  assumes "reachable (ctx_start env) (ctx_step env) (ctx, km)" and "is_encrypting ctx"
  shows "\<exists>a k n. contract ctx = Some (a, k) \<and> keys km (ByteArray (env_keccak env a)) = Some k
    \<and> next_storage_nonce ctx = Some n
    \<and> encrypt_storage_key env ctx sk =
        Ok (d2_seal (env_lib env) (inner (state_key k)) (replicate NONCE_SIZE 0) sk [])
    \<and> fst (encrypt_storage_value env ctx sk data) =
        (if fst (increment n) = Ok () then Ok (d2_seal (env_lib env) (inner (state_key k)) (deref n) data sk @ deref n)
         else Err (Confidential nonce_exhausted))
    \<and> decrypt_storage_value env ctx sk v =
        (if length v < 31 then Err (Confidential ''truncated ciphertext'')
         else unwrap (d2_open (env_lib env) (inner (state_key k)) (drop (length v - 15) v) (take (length v - 15) v) sk))"
proof -
  have "ctx_inv env (ctx, km)" using assms(1) by (rule cm.reachable_inv)
  with assms(2) obtain a k n where c: "contract ctx = Some (a, k)" "keys km (contract_id_of env a) = Some k"
    "d2 ctx = Some (inner (state_key k))" "next_storage_nonce ctx = Some n" "nonce_wf n"
    by (auto simp: ctx_inv_def contract_inv_def is_encrypting_def split: option.splits)
  obtain r m where inc: "increment n = (r, m)" by (meson surj_pair)
  have "fst (encrypt_storage_value env ctx sk data) =
      (if fst (increment n) = Ok () then Ok (d2_seal (env_lib env) (inner (state_key k)) (deref n) data sk @ deref n)
       else Err (Confidential nonce_exhausted))"
    using increment_cases(3) [OF c(5) inc] encrypt_storage_value_eq [OF c(4,5,3)] inc
    by (auto simp: deref_def)
  moreover have "decrypt_storage_value env ctx sk v =
        (if length v < 31 then Err (Confidential ''truncated ciphertext'')
         else unwrap (d2_open (env_lib env) (inner (state_key k)) (drop (length v - 15) v) (take (length v - 15) v) sk))"
    using c(3) by (simp add: decrypt_storage_value_def slice_def copy_from_slice_def Let_def TAG_SIZE_def NONCE_SIZE_def)
  ultimately show ?thesis using c by (auto simp: encrypt_storage_key_def contract_id_of_def)
qed

text \<open>A concrete environment for the witnesses.\<close>

definition sample_env :: conf_env where
  "sample_env = \<lparr>env_lib = sample_lib, env_keccak = sample_sha, env_sha = sample_sha, env_oc = True\<rparr>"

definition sample_random :: "u8 \<Rightarrow> key_random" where
  "sample_random x = (replicate 32 x, replicate 32 (x + 1))"

lemma sample_env_ok: "env_ok sample_env"
  by (simp add: env_ok_def sample_env_def sample_sha_def HASH_SIZE_def min_def)

lemma sample_random_wf: "random_wf (env_lib sample_env) (sample_random x)"
  by (simp add: random_wf_def sample_random_def sample_env_def sample_lib_def)

definition sample_active :: "confidential_ctx \<times> mock_client" where
  "sample_active = snd (activate sample_env (sample_random 1) (confidential_ctx_new [7]) mock_client_new (Some [3]))"

definition sample_key :: contract_key where
  "sample_key = generate_mock sample_lib (sample_random 1)"

lemma sample_get: "get_or_create_keys (env_lib sample_env) (sample_random 1) mock_client_new (contract_id_of sample_env [3])
    = (sample_key, \<lparr>keys = [contract_id_of sample_env [3] \<mapsto> sample_key]\<rparr>)"
  by (simp add: get_or_create_keys_def mock_client_new_def sample_key_def sample_env_def Let_def)

lemma sample_active_eq: "sample_active =
    ((confidential_ctx_new [7])\<lparr>ctx_activated := True, contract := Some ([3], sample_key),
        d2 := Some (inner (state_key sample_key)),
        next_storage_nonce := Some (nonce_new (storage_start sample_env [7] [3]))\<rparr>,
     \<lparr>keys = [contract_id_of sample_env [3] \<mapsto> sample_key]\<rparr>)"
  unfolding sample_active_def
  by (simp add: activate_Some [OF sample_env_ok mock_client_new_wf sample_random_wf sample_get])
     (simp add: confidential_ctx_new_def)

lemma sample_active_reachable: "reachable (ctx_start sample_env) (ctx_step sample_env) sample_active"
proof (rule reachable.reachable_step)
  show "reachable (ctx_start sample_env) (ctx_step sample_env) (confidential_ctx_new [7], mock_client_new)"
    by (rule reachable.reachable_start) (auto simp: ctx_start_def sample_env_ok intro: wf_intros)
  show "ctx_step sample_env (confidential_ctx_new [7], mock_client_new) sample_active"
    by (cases "activate sample_env (sample_random 1) (confidential_ctx_new [7]) mock_client_new (Some [3])")
       (auto simp: sample_active_def intro: ctx_step.step_activate sample_random_wf)
qed

theorem encrypting_context_is_ready_witness:
  "reachable (ctx_start sample_env) (ctx_step sample_env) (fst sample_active, snd sample_active)
   \<and> is_encrypting (fst sample_active)
   \<and> (\<exists>a k. contract (fst sample_active) = Some (a, k)
        \<and> keys (snd sample_active) (ByteArray (env_keccak sample_env a)) = Some k)"
proof -
  have h: "reachable (ctx_start sample_env) (ctx_step sample_env) (fst sample_active, snd sample_active)"
    "is_encrypting (fst sample_active)"
    using sample_active_reachable
    by (simp_all add: is_encrypting_def activated_def) (simp_all add: sample_active_eq)
  show ?thesis using h encrypting_context_is_ready [OF h, of "[]" "[]" "[]"] by blast
qed

text \<open>
  C28. What the context stores, it reads back: decrypting an encrypted storage value under the
  same storage key returns the data, in the same or in any later context with that contract's
  cipher instance.
\<close>

theorem storage_value_round_trip:
  assumes "aead_law (env_lib env)" and "encrypt_storage_value env ctx sk data = (Ok ciphertext, ctx')"
    and "d2 ctx2 = d2 ctx"
  shows "decrypt_storage_value env ctx2 sk ciphertext = Ok data"
proof -
  obtain n k where nk: "next_storage_nonce ctx = Some n" "d2 ctx = Some k" "15 \<le> length (deref n)"
    and ct: "ciphertext = d2_seal (env_lib env) k (take 15 (deref n)) data sk @ take 15 (deref n)"
    using assms(2)
    by (auto simp: encrypt_storage_value_def slice_def copy_from_slice_def NONCE_SIZE_def Let_def
        split: option.splits outcome.splits prod.splits if_splits)
  let ?c = "d2_seal (env_lib env) k (take 15 (deref n)) data sk"
  have c: "length ?c = length data + 16" "d2_open (env_lib env) k (take 15 (deref n)) ?c sk = Ok data"
    using assms(1) by (simp_all add: aead_law_def TAG_SIZE_def)
  have "min (length (deref n)) 15 = 15" using nk(3) by simp
  then show ?thesis
    using nk(2) assms(3) c
    by (simp add: decrypt_storage_value_def ct TAG_SIZE_def NONCE_SIZE_def slice_def copy_from_slice_def Let_def)
qed

theorem storage_value_round_trip_witness:
  "aead_law (env_lib sample_env)
   \<and> (\<exists>c. fst (encrypt_storage_value sample_env (fst sample_active) [1] [2, 3]) = Ok c
        \<and> decrypt_storage_value sample_env (fst sample_active) [1] c = Ok [2, 3])"
proof -
  have law: "aead_law (env_lib sample_env)" using sample_lib_laws by (simp add: sample_env_def)
  let ?ctx = "fst sample_active" and ?v = "storage_start sample_env [7] [3]"
  have wf: "nonce_wf (nonce_new ?v)" by (intro wf_intros storage_start_length sample_env_ok)
  obtain m where "increment (nonce_new ?v) = (Ok (), m)"
    using increment_fresh [of ?v] sample_env_ok by auto
  moreover have "next_storage_nonce ?ctx = Some (nonce_new ?v)" "d2 ?ctx = Some (inner (state_key sample_key))"
    by (simp_all add: sample_active_eq)
  ultimately obtain c ctx' where "encrypt_storage_value sample_env ?ctx [1] [2, 3] = (Ok c, ctx')"
    using encrypt_storage_value_eq [OF _ wf] by simp
  with storage_value_round_trip [OF law this refl] law show ?thesis by simp
qed

end
