(* ===== verification/Storage.thy ===== *)
theory Storage
  imports Rust_Prelude
begin

text \<open>
  \<open>src/storage.rs\<close>: the in-memory key/value store.  A \<open>MemoryMKVS\<close> is a shared reference
  (\<open>Arc\<close>) to a map, and its clones refer to the same map: the store is an address into a heap of
  maps.  The read-write lock makes every operation atomic; none of them can panic while it holds
  the lock, so the lock is never poisoned.
\<close>

section \<open>The store\<close>

record store_heap =
  cells :: "nat \<Rightarrow> bytes \<rightharpoonup> bytes"
  next_cell :: nat

datatype memory_mkvs = MemoryMKVS (address: nat)

definition empty_heap :: store_heap where
  "empty_heap = \<lparr>cells = (\<lambda>_. Map.empty), next_cell = 0\<rparr>"

definition memory_mkvs_new :: "store_heap \<Rightarrow> memory_mkvs \<times> store_heap" where
  "memory_mkvs_new h =
     (MemoryMKVS (next_cell h), h\<lparr>cells := (cells h)(next_cell h := Map.empty), next_cell := Suc (next_cell h)\<rparr>)"

definition mkvs_get :: "store_heap \<Rightarrow> memory_mkvs \<Rightarrow> bytes \<Rightarrow> bytes option" where
  "mkvs_get h m key = cells h (address m) key"

definition mkvs_insert :: "store_heap \<Rightarrow> memory_mkvs \<Rightarrow> bytes \<Rightarrow> bytes \<Rightarrow> bytes option \<times> store_heap" where
  "mkvs_insert h m key value =
     (cells h (address m) key,
      h\<lparr>cells := (cells h)(address m := (cells h (address m))(key \<mapsto> value))\<rparr>)"

definition mkvs_remove :: "store_heap \<Rightarrow> memory_mkvs \<Rightarrow> bytes \<Rightarrow> bytes option \<times> store_heap" where
  "mkvs_remove h m key =
     (cells h (address m) key,
      h\<lparr>cells := (cells h)(address m := (cells h (address m))(key := None))\<rparr>)"

definition boxed_clone :: "memory_mkvs \<Rightarrow> memory_mkvs" where
  "boxed_clone m = MemoryMKVS (address m)"

section \<open>Key/value stores\<close>

text \<open>
  The contract of a store that the state database relies on: each operation returns the previous
  value, changes the one key of the one store it names, and nothing else.
\<close>

datatype ('k, 'v) store_op = Put 'k 'v | Del 'k

primrec run_write ::
  "('s \<Rightarrow> 'h \<Rightarrow> 'k \<Rightarrow> 'v \<Rightarrow> 'v option \<times> 's) \<Rightarrow> ('s \<Rightarrow> 'h \<Rightarrow> 'k \<Rightarrow> 'v option \<times> 's) \<Rightarrow> 'h \<Rightarrow> ('k, 'v) store_op \<Rightarrow> 's \<Rightarrow> 's"
  where
  "run_write ins rem h (Put k v) s = snd (ins s h k v)"
| "run_write ins rem h (Del k) s = snd (rem s h k)"

primrec write_effect :: "('k, 'v) store_op \<Rightarrow> ('k \<rightharpoonup> 'v) \<Rightarrow> 'k \<rightharpoonup> 'v" where
  "write_effect (Put k v) m = m(k \<mapsto> v)"
| "write_effect (Del k) m = m(k := None)"

locale mkvs =
  fixes get :: "'s \<Rightarrow> 'h \<Rightarrow> 'k \<Rightarrow> 'v option"
    and ins :: "'s \<Rightarrow> 'h \<Rightarrow> 'k \<Rightarrow> 'v \<Rightarrow> 'v option \<times> 's"
    and rem :: "'s \<Rightarrow> 'h \<Rightarrow> 'k \<Rightarrow> 'v option \<times> 's"
  assumes get_insert: "get (snd (ins s h k v)) h' = (if h' = h then (get s h)(k \<mapsto> v) else get s h')"
    and insert_old: "fst (ins s h k v) = get s h k"
    and get_remove: "get (snd (rem s h k)) h' = (if h' = h then (get s h)(k := None) else get s h')"
    and remove_old: "fst (rem s h k) = get s h k"
begin

lemma get_write: "get (run_write ins rem h w s) h' = (if h' = h then write_effect w (get s h) else get s h')"
  by (cases w) (simp_all add: get_insert get_remove)

lemma get_writes:
  "get (fold (run_write ins rem h) ws s) h' = (if h' = h then fold write_effect ws (get s h) else get s h')"
  by (induction ws arbitrary: s) (simp_all add: get_write)

lemma insert_returns_last_write:
  "fst (ins (fold (run_write ins rem h) (ws @ [Put k v]) s) h k v') = Some v"
  by (simp add: insert_old get_insert)

lemma remove_returns_last_write:
  "fst (rem (fold (run_write ins rem h) (ws @ [Put k v]) s) h k) = Some v"
  by (simp add: remove_old get_insert)

end

interpretation mem: mkvs mkvs_get mkvs_insert mkvs_remove
  by unfold_locales
     (auto simp: mkvs_get_def mkvs_insert_def mkvs_remove_def fun_eq_iff memory_mkvs.expand)

text \<open>Stores that exist: their address has been handed out.\<close>

definition live :: "store_heap \<Rightarrow> memory_mkvs \<Rightarrow> bool" where
  "live h m \<longleftrightarrow> address m < next_cell h"

lemma next_cell_write [simp]: "next_cell (run_write mkvs_insert mkvs_remove m w h) = next_cell h"
  by (cases w) (simp_all add: mkvs_insert_def mkvs_remove_def)

lemma next_cell_writes [simp]: "next_cell (fold (run_write mkvs_insert mkvs_remove m) ws h) = next_cell h"
  by (induction ws arbitrary: h) simp_all

section \<open>Properties\<close>

text \<open>
  C38. Writes through any clone of a store are seen through every other clone, in order, with the
  last write to a key winning, and no write is seen by a newly created store.
\<close>

theorem clones_share_writes:
  assumes "live h m" and "memory_mkvs_new h = (other, h1)"
  shows "mkvs_get (fold (run_write mkvs_insert mkvs_remove (boxed_clone m)) ws h1) m
      = fold write_effect ws (mkvs_get h m)
    \<and> mkvs_get (fold (run_write mkvs_insert mkvs_remove (boxed_clone m)) ws h1) other = Map.empty"
proof -
  have "other \<noteq> m" "boxed_clone m = m" "mkvs_get h1 m = mkvs_get h m" "mkvs_get h1 other = Map.empty"
    using assms by (auto simp: live_def memory_mkvs_new_def boxed_clone_def mkvs_get_def fun_eq_iff)
  then show ?thesis by (simp add: mem.get_writes)
qed

theorem clones_share_writes_witness:
  "live (snd (memory_mkvs_new empty_heap)) (MemoryMKVS 0)
   \<and> mkvs_get (fold (run_write mkvs_insert mkvs_remove (boxed_clone (MemoryMKVS 0))) [Put [1] [2], Put [1] [3]]
        (snd (memory_mkvs_new (snd (memory_mkvs_new empty_heap))))) (MemoryMKVS 0) [1] = Some [3]"
proof -
  let ?h = "snd (memory_mkvs_new empty_heap)"
  have l: "live ?h (MemoryMKVS 0)" by (simp add: live_def memory_mkvs_new_def empty_heap_def)
  obtain m h1 where n: "memory_mkvs_new ?h = (m, h1)" by (meson surj_pair)
  show ?thesis using l n clones_share_writes [OF l n, of "[Put [1] [2], Put [1] [3]]"] by simp
qed

end
