(* ===== verification/Util.thy ===== *)
theory Util
  imports Rust_Prelude
begin

text \<open>
  \<open>src/util.rs\<close>: time, units, block identifiers and JSON-RPC errors.
\<close>

text \<open>
  \<open>get_timestamp\<close>: the wall clock is an input, in nanoseconds relative to the Unix epoch; a clock
  set before the epoch makes \<open>duration_since\<close> fail.
\<close>

definition get_timestamp :: "int \<Rightarrow> (u64, 'e) outcome" where
  "get_timestamp now = (if now < 0 then Panic else Ok (of_int (now div 1000000000)))"

definition gwei_to_wei :: "u64 \<Rightarrow> u256" where
  "gwei_to_wei gwei = saturating_mul (ucast gwei) 1000000000"

text \<open>The block identifiers of ethcore and the block numbers of the RPC types.\<close>

datatype block_id = Hash bytes | Number u64 | Earliest | Latest

datatype block_number = Num u64 | BnLatest | BnEarliest | BnPending

fun block_number_to_id :: "block_number \<Rightarrow> block_id" where
  "block_number_to_id (Num num) = Number num"
| "block_number_to_id BnEarliest = Earliest"
| "block_number_to_id BnLatest = Latest"
| "block_number_to_id BnPending = Latest"

datatype error_code = InvalidParams | InternalError | MethodNotFound | ServerError int

record rpc_error =
  err_code :: error_code
  err_message :: string
  err_data :: "string option"

definition jsonrpc_error :: "string \<Rightarrow> rpc_error" where
  "jsonrpc_error err = \<lparr>err_code = InternalError, err_message = err, err_data = None\<rparr>"

definition execution_error :: "string \<Rightarrow> rpc_error" where
  "execution_error err =
     \<lparr>err_code = ServerError (- 32015), err_message = ''Transaction execution error with cause: '' @ err,
      err_data = Some err\<rparr>"

section \<open>Properties\<close>

text \<open>
  The conversion to wei never saturates: it is exact for every 64-bit amount, and hence
  strictly monotone.
\<close>

theorem gwei_to_wei_exact: "unat (gwei_to_wei g) = unat g * 1000000000"
proof -
  have "unat g < 2 ^ 64" using unsigned_less [of g, where ?'a = nat] by simp
  then have "unat (ucast g :: u256) = unat g" "unat g * 1000000000 < 2 ^ 256"
    by (simp_all add: unsigned_ucast_eq take_bit_nat_eq_self)
  then show ?thesis by (simp add: gwei_to_wei_def saturating_mul_def unat_word_ariths)
qed

end
