(* ===== verification/Blockchain.thy ===== *)
theory Blockchain
  imports Confidential_Ctx Storage Util
begin

text \<open>
  \<open>src/blockchain.rs\<close>: the simulated chain.  Every accepted transaction is mined into a block of
  its own.  The chain state sits behind a read-write lock: an operation runs on the state it finds,
  and one that panics while it holds the write lock poisons the lock, after which every
  \<open>lock().unwrap()\<close> panics.
\<close>

section \<open>Data of the Ethereum library\<close>

type_synonym h256 = bytes

datatype action = Create | Call bytes

record transaction =
  tx_nonce :: u256
  tx_gas_price :: u256
  tx_gas :: u256
  tx_action :: action
  tx_value :: u256
  tx_data :: bytes

record unverified_transaction =
  as_unsigned :: transaction
  ut_signature :: bytes
  ut_hash :: h256

record signed_transaction =
  st_transaction :: unverified_transaction
  st_sender :: bytes

record localized_transaction =
  lt_signed :: unverified_transaction
  lt_block_number :: u64
  lt_block_hash :: h256
  lt_transaction_index :: nat
  lt_cached_sender :: "bytes option"

record log_entry =
  log_address :: bytes
  log_topics :: "h256 list"
  log_data :: bytes

record localized_log_entry =
  entry :: log_entry
  ll_block_hash :: h256
  ll_block_number :: u64
  ll_transaction_hash :: h256
  ll_transaction_index :: nat
  ll_transaction_log_index :: nat
  ll_log_index :: nat

datatype transaction_outcome = StatusCode u8 | StateRoot h256 | Unknown

record receipt =
  rc_gas_used :: u256
  rc_log_bloom :: bytes
  rc_logs :: "log_entry list"
  rc_outcome :: transaction_outcome

record localized_receipt =
  lr_transaction_hash :: h256
  lr_transaction_index :: nat
  lr_block_hash :: h256
  lr_block_number :: u64
  lr_cumulative_gas_used :: u256
  lr_gas_used :: u256
  lr_contract_address :: "bytes option"
  lr_logs :: "localized_log_entry list"
  lr_log_bloom :: bytes
  lr_outcome :: transaction_outcome

record apply_outcome =
  ao_receipt :: receipt
  ao_output :: bytes

datatype vm_exception = Reverted | OutOfGas | OtherException string

record executed =
  ex_exception :: "vm_exception option"
  ex_gas_used :: u256
  ex_refunded :: u256
  ex_output :: bytes

record env_info =
  ei_number :: u64
  ei_author :: bytes
  ei_timestamp :: u64
  ei_difficulty :: u256
  ei_gas_limit :: u256
  ei_last_hashes :: "h256 list"
  ei_gas_used :: u256

record log_filter =
  from_block :: block_id
  to_block :: block_id
  f_address :: "bytes list option"
  f_topics :: "h256 list option list"
  f_limit :: "nat option"

text \<open>What outlives the chain state: the heap of stores and the key manager.\<close>

record world =
  w_heap :: store_heap
  w_km :: mock_client

text \<open>
  The functions the chain calls outside the repository, on a state database of type \<open>'s\<close>:
  Keccak-256, the RLP decoder, signature recovery, the genesis initialisation, the state database
  (creation, execution of a transaction, commit, virtual execution), contract addresses and log
  filters.  \<open>chain_oc\<close> tells whether the build checks integer overflow.  An execution draws random
  bytes from the system, its last argument.
\<close>

record 's chain_lib =
  keccak :: "bytes \<Rightarrow> h256"
  rlp_decode :: "bytes \<Rightarrow> unverified_transaction option"
  signed_new :: "unverified_transaction \<Rightarrow> signed_transaction option"
  ensure_db_good :: "memory_mkvs \<Rightarrow> store_heap \<Rightarrow> (unit, string) outcome \<times> store_heap"
  from_existing :: "memory_mkvs \<Rightarrow> confidential_ctx option \<Rightarrow> world \<Rightarrow> ('s, string) outcome"
  state_apply :: "'s \<Rightarrow> env_info \<Rightarrow> signed_transaction \<Rightarrow> world \<Rightarrow> bytes \<Rightarrow> (apply_outcome, string) outcome \<times> 's \<times> world"
  state_commit :: "'s \<Rightarrow> world \<Rightarrow> (unit, string) outcome \<times> world"
  transact_virtual :: "'s \<Rightarrow> env_info \<Rightarrow> signed_transaction \<Rightarrow> world \<Rightarrow> (executed, string) outcome"
  contract_address :: "u64 \<Rightarrow> bytes \<Rightarrow> u256 \<Rightarrow> bytes \<Rightarrow> bytes"
  filter_matches :: "log_filter \<Rightarrow> log_entry \<Rightarrow> bool"
  keccak_empty_list_rlp :: h256
  chain_oc :: bool

section \<open>Blocks\<close>

definition BLOCK_GAS_LIMIT :: nat where
  "BLOCK_GAS_LIMIT = 16000000"

definition MIN_GAS_PRICE_GWEI :: nat where
  "MIN_GAS_PRICE_GWEI = 1"

record ethereum_block =
  eb_number :: u64
  eb_timestamp :: u64
  eb_hash :: h256
  eb_parent_hash :: h256
  eb_gas_used :: u256
  eb_gas_limit :: u256
  eb_log_bloom :: bytes
  eb_logs :: "localized_log_entry list"
  eb_transactions :: "localized_transaction list"

text \<open>The hash of a block is the Keccak-256 digest of its number in decimal.\<close>

definition number_hash :: "'s chain_lib \<Rightarrow> u64 \<Rightarrow> h256" where
  "number_hash lib number = keccak lib (ascii_bytes (dec_string (unat number)))"

definition ethereum_block_new ::
  "'s chain_lib \<Rightarrow> u64 \<Rightarrow> h256 \<Rightarrow> u64 \<Rightarrow> u256 \<Rightarrow> u256 \<Rightarrow> bytes \<Rightarrow> ethereum_block" where
  "ethereum_block_new lib number parent_hash timestamp gas_used gas_limit log_bloom =
     \<lparr>eb_number = number, eb_timestamp = timestamp, eb_hash = number_hash lib number,
      eb_parent_hash = parent_hash, eb_gas_used = gas_used, eb_gas_limit = gas_limit,
      eb_log_bloom = log_bloom, eb_logs = [], eb_transactions = []\<rparr>"

definition number_u64 :: "ethereum_block \<Rightarrow> u64" where
  "number_u64 blk = eb_number blk"

definition block_hash :: "ethereum_block \<Rightarrow> h256" where
  "block_hash blk = eb_hash blk"

definition block_transactions :: "ethereum_block \<Rightarrow> localized_transaction list" where
  "block_transactions blk = eb_transactions blk"

text \<open>
  The header and block of the RPC types; \<open>Default::default()\<close> is zero, the empty byte string or the
  zero hash.  The conversion of a transaction to its RPC type is a parameter of \<open>rich_block\<close>.
\<close>

definition ZERO_HASH :: h256 where
  "ZERO_HASH = replicate 32 0"

definition BLOCK_EXTRA_INFO :: "(string \<times> string) list" where
  "BLOCK_EXTRA_INFO = [(''mixHash'', ''0x'' @ replicate 64 (CHR ''0'')), (''nonce'', ''0x'' @ replicate 16 (CHR ''0''))]"

record rich_header =
  rh_hash :: "h256 option"
  rh_size :: "u256 option"
  rh_parent_hash :: h256
  rh_uncles_hash :: h256
  rh_author :: bytes
  rh_miner :: bytes
  rh_state_root :: h256
  rh_transactions_root :: h256
  rh_receipts_root :: h256
  rh_number :: "u256 option"
  rh_gas_used :: u256
  rh_gas_limit :: u256
  rh_logs_bloom :: bytes
  rh_timestamp :: u256
  rh_difficulty :: u256
  rh_seal_fields :: "bytes list"
  rh_extra_data :: bytes
  rh_extra_info :: "(string \<times> string) list"

definition rich_header_of :: "'s chain_lib \<Rightarrow> ethereum_block \<Rightarrow> rich_header" where
  "rich_header_of lib blk =
     \<lparr>rh_hash = Some (eb_hash blk), rh_size = None, rh_parent_hash = eb_parent_hash blk,
      rh_uncles_hash = keccak_empty_list_rlp lib, rh_author = replicate 20 0, rh_miner = replicate 20 0,
      rh_state_root = ZERO_HASH, rh_transactions_root = ZERO_HASH, rh_receipts_root = ZERO_HASH,
      rh_number = Some (ucast (eb_number blk)), rh_gas_used = eb_gas_used blk, rh_gas_limit = eb_gas_limit blk,
      rh_logs_bloom = eb_log_bloom blk, rh_timestamp = ucast (eb_timestamp blk), rh_difficulty = 0,
      rh_seal_fields = [], rh_extra_data = [], rh_extra_info = BLOCK_EXTRA_INFO\<rparr>"

datatype 't block_transactions = Full "'t list" | Hashes "h256 list"

record 't rich_block =
  rb_header :: rich_header
  rb_logs_bloom :: "bytes option"
  rb_total_difficulty :: "u256 option"
  rb_uncles :: "h256 list"
  rb_transactions :: "'t block_transactions"

text \<open>
  The RPC block repeats the header's fields: \<open>rb_header\<close> stands for them, with empty seal fields
  and extra data as in the header, and the remaining fields follow it.
\<close>

definition rich_block_of ::
  "'s chain_lib \<Rightarrow> (localized_transaction \<Rightarrow> 't) \<Rightarrow> ethereum_block \<Rightarrow> bool \<Rightarrow> 't rich_block" where
  "rich_block_of lib from_localized blk include_txs =
     (let header = rich_header_of lib blk in
      \<lparr>rb_header = header, rb_logs_bloom = Some (rh_logs_bloom header), rb_total_difficulty = None, rb_uncles = [],
       rb_transactions =
         (if include_txs then Full (map from_localized (eb_transactions blk))
          else Hashes (map (\<lambda>txn. ut_hash (lt_signed txn)) (eb_transactions blk)))\<rparr>)"

section \<open>The chain state\<close>

record chain_state =
  cs_mkvs :: memory_mkvs
  cs_block_number :: u64
  cs_blocks :: "h256 \<rightharpoonup> ethereum_block"
  cs_block_number_to_hash :: "u64 \<rightharpoonup> h256"
  cs_transactions :: "h256 \<rightharpoonup> localized_transaction"
  cs_receipts :: "h256 \<rightharpoonup> localized_receipt"

definition EMPTY_BLOOM :: bytes where
  "EMPTY_BLOOM = replicate 256 0"

definition chain_state_new :: "'s chain_lib \<Rightarrow> world \<Rightarrow> (chain_state, 'e) outcome \<times> world" where
  "chain_state_new lib w =
     (let (mkvs, h) = memory_mkvs_new (w_heap w);
          (good, h') = ensure_db_good lib (boxed_clone mkvs) h;
          w' = w\<lparr>w_heap := h'\<rparr>
      in case good of
        Ok _ \<Rightarrow>
          (let genesis_block = ethereum_block_new lib 0 ZERO_HASH 0 0 (of_nat BLOCK_GAS_LIMIT) EMPTY_BLOOM;
               hash = block_hash genesis_block
           in (Ok \<lparr>cs_mkvs = mkvs, cs_block_number = 0, cs_blocks = [hash \<mapsto> genesis_block],
                   cs_block_number_to_hash = [0 \<mapsto> hash], cs_transactions = Map.empty, cs_receipts = Map.empty\<rparr>, w'))
      | _ \<Rightarrow> (Panic, w'))"

definition cs_get_block_by_number :: "chain_state \<Rightarrow> u64 \<Rightarrow> ethereum_block option" where
  "cs_get_block_by_number cs number =
     Option.bind (cs_block_number_to_hash cs number) (\<lambda>hash. cs_blocks cs hash)"

record blockchain =
  bc_gas_price :: u256
  bc_block_gas_limit :: u256
  bc_chain_state :: chain_state
  bc_poisoned :: bool

definition blockchain_new :: "'s chain_lib \<Rightarrow> u256 \<Rightarrow> u256 \<Rightarrow> world \<Rightarrow> (blockchain, 'e) outcome \<times> world" where
  "blockchain_new lib gas_price block_gas_limit w =
     (let (r, w') = chain_state_new lib w
      in (map_ok (\<lambda>cs. \<lparr>bc_gas_price = gas_price, bc_block_gas_limit = block_gas_limit,
                        bc_chain_state = cs, bc_poisoned = False\<rparr>) r, w'))"

text \<open>\<open>chain_state.read().unwrap()\<close>\<close>

definition read_state :: "blockchain \<Rightarrow> (chain_state, 'e) outcome" where
  "read_state bc = (if bc_poisoned bc then Panic else Ok (bc_chain_state bc))"

section \<open>Queries\<close>

definition state_at :: "'s chain_lib \<Rightarrow> world \<Rightarrow> blockchain \<Rightarrow> block_id \<Rightarrow> ('s, string) outcome" where
  "state_at lib w bc _ =
     and_then (read_state bc) (\<lambda>cs. from_existing lib (boxed_clone (cs_mkvs cs)) None w)"

definition gas_price :: "blockchain \<Rightarrow> u256" where
  "gas_price bc = bc_gas_price bc"

definition best_block_number :: "blockchain \<Rightarrow> (u64, 'e) outcome" where
  "best_block_number bc = map_ok cs_block_number (read_state bc)"

definition get_latest_block :: "blockchain \<Rightarrow> (ethereum_block, 'e) outcome" where
  "get_latest_block bc =
     and_then (read_state bc) (\<lambda>cs. expect (cs_get_block_by_number cs (cs_block_number cs)))"

definition get_block_by_number :: "blockchain \<Rightarrow> u64 \<Rightarrow> (ethereum_block option, 'e) outcome" where
  "get_block_by_number bc number = map_ok (\<lambda>cs. cs_get_block_by_number cs number) (read_state bc)"

definition get_block_by_hash :: "blockchain \<Rightarrow> h256 \<Rightarrow> (ethereum_block option, 'e) outcome" where
  "get_block_by_hash bc hash = map_ok (\<lambda>cs. cs_blocks cs hash) (read_state bc)"

fun get_block :: "blockchain \<Rightarrow> block_id \<Rightarrow> (ethereum_block option, 'e) outcome" where
  "get_block bc (Hash hash) = get_block_by_hash bc hash"
| "get_block bc (Number number) = get_block_by_number bc number"
| "get_block bc Latest = map_ok Some (get_latest_block bc)"
| "get_block bc Earliest = get_block_by_number bc 0"

definition get_block_unwrap :: "blockchain \<Rightarrow> block_id \<Rightarrow> (ethereum_block, string) outcome" where
  "get_block_unwrap bc blkid =
     and_then (get_block bc blkid) (\<lambda>blk. case blk of Some blk \<Rightarrow> Ok blk | None \<Rightarrow> Err ''block not found'')"

definition get_txn_by_hash :: "blockchain \<Rightarrow> h256 \<Rightarrow> (localized_transaction option, 'e) outcome" where
  "get_txn_by_hash bc hash = map_ok (\<lambda>cs. cs_transactions cs hash) (read_state bc)"

definition get_txn_receipt_by_hash :: "blockchain \<Rightarrow> h256 \<Rightarrow> (localized_receipt option, 'e) outcome" where
  "get_txn_receipt_by_hash bc hash = map_ok (\<lambda>cs. cs_receipts cs hash) (read_state bc)"

text \<open>\<open>Vec::get\<close>\<close>

definition vec_get :: "'a list \<Rightarrow> nat \<Rightarrow> 'a option" where
  "vec_get xs i = (if i < length xs then Some (xs ! i) else None)"

definition get_txn_by_number_and_index ::
  "blockchain \<Rightarrow> u64 \<Rightarrow> u32 \<Rightarrow> (localized_transaction option, 'e) outcome" where
  "get_txn_by_number_and_index bc number index =
     map_ok (\<lambda>cs. Option.bind (Option.bind (cs_block_number_to_hash cs number) (cs_blocks cs))
                    (\<lambda>blk. vec_get (eb_transactions blk) (unat index))) (read_state bc)"

definition get_txn_by_block_hash_and_index ::
  "blockchain \<Rightarrow> h256 \<Rightarrow> u32 \<Rightarrow> (localized_transaction option, 'e) outcome" where
  "get_txn_by_block_hash_and_index bc hash index =
     map_ok (\<lambda>cs. Option.bind (cs_blocks cs hash) (\<lambda>blk. vec_get (eb_transactions blk) (unat index)))
       (read_state bc)"

fun get_txn :: "blockchain \<Rightarrow> block_id \<Rightarrow> u32 \<Rightarrow> (localized_transaction option, 'e) outcome" where
  "get_txn bc (Hash hash) index = get_txn_by_block_hash_and_index bc hash index"
| "get_txn bc (Number number) index = get_txn_by_number_and_index bc number index"
| "get_txn bc Latest index =
     and_then (best_block_number bc) (\<lambda>number. get_txn_by_number_and_index bc number index)"
| "get_txn bc Earliest index = get_txn_by_number_and_index bc 0 index"

section \<open>Mining\<close>

record execution_result =
  er_cumulative_gas_used :: u256
  er_gas_used :: u256
  er_log_bloom :: bytes
  er_logs :: "log_entry list"
  er_status_code :: u8
  er_output :: bytes

text \<open>The wall clock and the random bytes of one execution.\<close>

record io_input =
  io_now :: int
  io_random :: bytes

definition localize_logs :: "u64 \<Rightarrow> h256 \<Rightarrow> h256 \<Rightarrow> log_entry list \<Rightarrow> localized_log_entry list" where
  "localize_logs number hash txn_hash logs =
     map (\<lambda>(i, log). \<lparr>entry = log, ll_block_hash = hash, ll_block_number = number,
            ll_transaction_hash = txn_hash, ll_transaction_index = 0, ll_transaction_log_index = i,
            ll_log_index = i\<rparr>) (enumerate 0 logs)"

definition localize_receipt ::
  "'s chain_lib \<Rightarrow> u64 \<Rightarrow> h256 \<Rightarrow> signed_transaction \<Rightarrow> receipt \<Rightarrow> localized_log_entry list \<Rightarrow> localized_receipt" where
  "localize_receipt lib number hash txn rc logs =
     (let tx = as_unsigned (st_transaction txn) in
      \<lparr>lr_transaction_hash = ut_hash (st_transaction txn), lr_transaction_index = 0, lr_block_hash = hash,
       lr_block_number = number, lr_cumulative_gas_used = rc_gas_used rc, lr_gas_used = rc_gas_used rc,
       lr_contract_address =
         (case tx_action tx of
            Call _ \<Rightarrow> None
          | Create \<Rightarrow> Some (contract_address lib number (st_sender txn) (tx_nonce tx) (tx_data tx))),
       lr_logs = logs, lr_log_bloom = rc_log_bloom rc, lr_outcome = rc_outcome rc\<rparr>)"

text \<open>
  The part of \<open>mine_block\<close> after the commit: build the block, the localized transaction, logs and
  receipt, and insert them.
\<close>

definition store_block ::
  "'s chain_lib \<Rightarrow> u256 \<Rightarrow> u64 \<Rightarrow> u64 \<Rightarrow> ethereum_block \<Rightarrow> signed_transaction \<Rightarrow> receipt \<Rightarrow> chain_state \<Rightarrow> chain_state" where
  "store_block lib gas_limit number timestamp best_block txn rc cs =
     (let block0 = ethereum_block_new lib number (eb_hash best_block) timestamp (rc_gas_used rc) gas_limit (rc_log_bloom rc);
          hash = block_hash block0;
          txn_hash = ut_hash (st_transaction txn);
          localized_txn = \<lparr>lt_signed = st_transaction txn, lt_block_number = number, lt_block_hash = hash,
                           lt_transaction_index = 0, lt_cached_sender = None\<rparr>;
          logs = localize_logs number hash txn_hash (rc_logs rc);
          block = block0\<lparr>eb_transactions := [localized_txn], eb_logs := logs\<rparr>
      in cs\<lparr>cs_block_number := number,
            cs_transactions := (cs_transactions cs)(txn_hash \<mapsto> localized_txn),
            cs_receipts := (cs_receipts cs)(txn_hash \<mapsto> localize_receipt lib number hash txn rc logs),
            cs_blocks := (cs_blocks cs)(hash \<mapsto> block),
            cs_block_number_to_hash := (cs_block_number_to_hash cs)(number \<mapsto> hash)\<rparr>)"

text \<open>A panic under the write lock poisons it.\<close>

definition poison :: "blockchain \<Rightarrow> blockchain" where
  "poison bc = bc\<lparr>bc_poisoned := True\<rparr>"

definition mine_block ::
  "'s chain_lib \<Rightarrow> io_input \<Rightarrow> blockchain \<Rightarrow> world \<Rightarrow> signed_transaction
   \<Rightarrow> (h256 \<times> execution_result, string) outcome \<times> blockchain \<times> world" where
  "mine_block lib io bc w txn =
     (if bc_poisoned bc then (Panic, bc, w)
      else let cs = bc_chain_state bc in
      case cs_get_block_by_number cs (cs_block_number cs) of
        None \<Rightarrow> (Panic, poison bc, w)
      | Some best_block \<Rightarrow>
          (case from_existing lib (boxed_clone (cs_mkvs cs)) (Some (confidential_ctx_new (eb_hash best_block))) w of
             Err _ \<Rightarrow> (Panic, poison bc, w)
           | Panic \<Rightarrow> (Panic, poison bc, w)
           | Ok state \<Rightarrow>
               (case and_then (add_checked (chain_oc lib) (cs_block_number cs) 1)
                       (\<lambda>number. map_ok (\<lambda>timestamp. (number, timestamp)) (get_timestamp (io_now io))) of
                  Err (e :: string) \<Rightarrow> (Panic, poison bc, w)
                | Panic \<Rightarrow> (Panic, poison bc, w)
                | Ok (number, timestamp) \<Rightarrow>
                    let env_info = \<lparr>ei_number = number, ei_author = replicate 20 0, ei_timestamp = timestamp,
                                    ei_difficulty = 0, ei_gas_limit = bc_block_gas_limit bc,
                                    ei_last_hashes = [eb_hash best_block], ei_gas_used = 0\<rparr> in
                    (case state_apply lib state env_info txn w (io_random io) of
                       (Err err, _, w1) \<Rightarrow> (Err err, bc, w1)
                     | (Panic, _, w1) \<Rightarrow> (Panic, poison bc, w1)
                     | (Ok outcome, state1, w1) \<Rightarrow>
                         (case state_commit lib state1 w1 of
                            (Ok _, w2) \<Rightarrow>
                              let rc = ao_receipt outcome;
                                  cs' = store_block lib (bc_block_gas_limit bc) number timestamp best_block txn rc cs;
                                  bc' = bc\<lparr>bc_chain_state := cs'\<rparr>
                              in (case rc_outcome rc of
                                    StatusCode code \<Rightarrow>
                                      (Ok (ut_hash (st_transaction txn),
                                           \<lparr>er_cumulative_gas_used = rc_gas_used rc, er_gas_used = rc_gas_used rc,
                                            er_log_bloom = rc_log_bloom rc, er_logs = rc_logs rc,
                                            er_status_code = code, er_output = ao_output outcome\<rparr>), bc', w2)
                                  | _ \<Rightarrow> (Panic, poison bc', w2))
                          | (_, w2) \<Rightarrow> (Panic, poison bc, w2))))))"

definition send_raw_transaction ::
  "'s chain_lib \<Rightarrow> io_input \<Rightarrow> blockchain \<Rightarrow> world \<Rightarrow> bytes
   \<Rightarrow> (h256 \<times> execution_result, string) outcome \<times> blockchain \<times> world" where
  "send_raw_transaction lib io bc w raw =
     (case rlp_decode lib raw of
        None \<Rightarrow> (Err ''Could not decode transaction'', bc, w)
      | Some decoded \<Rightarrow>
          if tx_gas (as_unsigned decoded) > bc_block_gas_limit bc
          then (Err ''Requested gas greater than block gas limit'', bc, w)
          else case signed_new lib decoded of
            None \<Rightarrow> (Err ''Invalid signature'', bc, w)
          | Some txn \<Rightarrow>
              if tx_gas_price (as_unsigned (st_transaction txn)) < bc_gas_price bc
              then (Err ''Insufficient gas price'', bc, w)
              else mine_block lib io bc w txn)"

section \<open>Simulation\<close>

definition simulate_transaction ::
  "'s chain_lib \<Rightarrow> io_input \<Rightarrow> blockchain \<Rightarrow> world \<Rightarrow> signed_transaction \<Rightarrow> block_id \<Rightarrow> (executed, string) outcome" where
  "simulate_transaction lib io bc w txn _ =
     and_then (read_state bc) (\<lambda>cs.
     and_then (expect (cs_get_block_by_number cs (cs_block_number cs))) (\<lambda>best_block.
     and_then (add_checked (chain_oc lib) (cs_block_number cs) 1) (\<lambda>number.
     and_then (get_timestamp (io_now io)) (\<lambda>timestamp.
       let env_info = \<lparr>ei_number = number, ei_author = replicate 20 0, ei_timestamp = timestamp,
                       ei_difficulty = 0, ei_gas_limit = - 1, ei_last_hashes = [eb_hash best_block],
                       ei_gas_used = 0\<rparr> in
       case from_existing lib (boxed_clone (cs_mkvs cs)) None w of
         Ok state \<Rightarrow> transact_virtual lib state env_info txn w
       | _ \<Rightarrow> Panic))))"

text \<open>The addition of two \<open>U256\<close> panics when it overflows, in every build.\<close>

definition estimate_gas ::
  "'s chain_lib \<Rightarrow> io_input \<Rightarrow> blockchain \<Rightarrow> world \<Rightarrow> signed_transaction \<Rightarrow> block_id \<Rightarrow> (u256, string) outcome" where
  "estimate_gas lib io bc w txn blkid =
     and_then (simulate_transaction lib io bc w txn blkid) (\<lambda>executed.
       add_checked True (ex_gas_used executed) (ex_refunded executed))"

section \<open>Logs\<close>

text \<open>\<open>from..=to\<close>\<close>

definition block_range :: "u64 \<Rightarrow> u64 \<Rightarrow> u64 list" where
  "block_range from_number to_number = map of_nat [unat from_number ..< Suc (unat to_number)]"

text \<open>
  The query takes the lock once for each end of the range and once for each block of it, and other
  operations may run in between: \<open>at number\<close> is the chain at the time block \<open>number\<close> is read.
\<close>

definition read_block :: "blockchain \<Rightarrow> u64 \<Rightarrow> (ethereum_block, 'e) outcome" where
  "read_block bc number = and_then (read_state bc) (\<lambda>cs. expect (cs_get_block_by_number cs number))"

definition logs_between ::
  "'s chain_lib \<Rightarrow> blockchain \<Rightarrow> blockchain \<Rightarrow> (u64 \<Rightarrow> blockchain) \<Rightarrow> log_filter \<Rightarrow> (localized_log_entry list, string) outcome" where
  "logs_between lib bc_from bc_to at flt =
     and_then (get_block bc_from (from_block flt)) (\<lambda>from_blk.
     and_then (get_block bc_to (to_block flt)) (\<lambda>to_blk.
     and_then (ok_or ''block not found'' from_blk) (\<lambda>from_blk.
     and_then (ok_or ''block not found'' to_blk) (\<lambda>to_blk.
     and_then (try_map (\<lambda>number. read_block (at number) number) (block_range (number_u64 from_blk) (number_u64 to_blk))) (\<lambda>blocks.
       Ok (sort_key ll_block_number
            (List.filter (\<lambda>log. filter_matches lib flt (entry log)) (concat (map eb_logs blocks)))))))))"

definition logs :: "'s chain_lib \<Rightarrow> blockchain \<Rightarrow> log_filter \<Rightarrow> (localized_log_entry list, string) outcome" where
  "logs lib bc flt = logs_between lib bc bc (\<lambda>_. bc) flt"

end
