(* ===== verification/Chain.thy ===== *)
theory Chain
  imports Blockchain
begin

text \<open>
  The invariant of the simulated chain, its abstraction to a list of blocks, and what the
  operations of \<open>src/blockchain.rs\<close> guarantee in every state a node can reach.
\<close>

section \<open>Block sources\<close>

text \<open>
  What the readers of the chain rely on (log queries, filters and the notifier): a block exists
  for exactly the numbers up to the latest one, and carries its number.
\<close>

locale block_source =
  fixes latest :: "'s \<Rightarrow> u64"
    and block_at :: "'s \<Rightarrow> u64 \<Rightarrow> 'b option"
    and num :: "'b \<Rightarrow> u64"
    and invar :: "'s \<Rightarrow> bool"
  assumes block_at_iff: "invar s \<Longrightarrow> block_at s n \<noteq> None \<longleftrightarrow> n \<le> latest s"
    and block_at_num: "invar s \<Longrightarrow> block_at s n = Some b \<Longrightarrow> num b = n"
begin

lemma block_found: "invar s \<Longrightarrow> n \<le> latest s \<Longrightarrow> \<exists>b. block_at s n = Some b \<and> num b = n"
  using block_at_iff block_at_num by blast

lemma nums_of_blocks:
  assumes "invar s" and "\<And>n. n \<in> set ns \<Longrightarrow> n \<le> latest s"
  shows "map num (map (\<lambda>n. the (block_at s n)) ns) = ns"
  using assms block_found by (induction ns) fastforce+

lemma fetch_ok:
  assumes "invar s" and "\<And>n. n \<in> set ns \<Longrightarrow> n \<le> latest s"
  shows "try_map (\<lambda>n. expect (block_at s n)) ns = Ok (map (\<lambda>n. the (block_at s n)) ns)"
  by (rule try_map_all_Ok) (use block_found assms in fastforce)

lemma fetch_ok_or:
  assumes "invar s" and "\<And>n. n \<in> set ns \<Longrightarrow> n \<le> latest s"
  shows "try_map (\<lambda>n. ok_or e (block_at s n)) ns = Ok (map (\<lambda>n. the (block_at s n)) ns)"
  by (rule try_map_all_Ok) (use block_found assms in fastforce)

end

lemma set_block_range: "set (block_range a b) = {n. a \<le> n \<and> n \<le> b}"
proof -
  have b: "unat x < 2 ^ 64" for x :: u64 using unsigned_less [of x, where ?'a = nat] by simp
  show ?thesis
  proof (intro set_eqI iffI)
    fix n assume "n \<in> set (block_range a b)"
    then obtain i where i: "n = of_nat i" "unat a \<le> i" "i \<le> unat b" by (auto simp: block_range_def)
    then have "unat n = i" using b [of b] by (simp add: unat_of_nat)
    with i show "n \<in> {n. a \<le> n \<and> n \<le> b}" by (simp add: word_le_nat_alt)
  next
    fix n assume "n \<in> {n. a \<le> n \<and> n \<le> b}"
    then have "unat n \<in> {unat a ..< Suc (unat b)}" by (simp add: word_le_nat_alt)
    moreover have "n = of_nat (unat n)" by simp
    ultimately show "n \<in> set (block_range a b)"
      unfolding block_range_def by (metis imageI set_map set_upt)
  qed
qed

lemma block_range_empty: "b < a \<Longrightarrow> block_range a b = []"
  by (simp add: block_range_def word_less_nat_alt)

lemma block_range_single: "block_range a a = [a]"
  by (simp add: block_range_def)

lemma block_range_strict_sorted: "sorted_wrt (<) (block_range a b)"
proof -
  have b: "unat b < 2 ^ 64" using unsigned_less [of b, where ?'a = nat] by simp
  have "sorted_wrt (\<lambda>i j. (of_nat i :: u64) < of_nat j) [unat a ..< Suc (unat b)]"
    by (rule sorted_wrt_mono_rel [OF _ sorted_wrt_upt]) (use b in \<open>auto simp: word_less_nat_alt unat_of_nat\<close>)
  then show ?thesis by (simp add: block_range_def sorted_wrt_map)
qed

lemma block_range_append:
  assumes "a \<le> b + 1" and "b < c"
  shows "block_range a b @ block_range (b + 1) c = block_range a c"
proof -
  have "unat c < 2 ^ 64" using unsigned_less [of c, where ?'a = nat] by simp
  moreover have bc: "unat b < unat c" using assms(2) by (simp add: word_less_nat_alt)
  ultimately have "unat (b + 1) = Suc (unat b)" by (simp add: unat_word_ariths)
  moreover from this bc assms(1) have "[unat a ..< Suc (unat b)] @ [Suc (unat b) ..< Suc (unat c)] = [unat a ..< Suc (unat c)]"
    using upt_add_eq_append [of "unat a" "Suc (unat b)" "unat c - unat b"] by (simp add: word_le_nat_alt)
  ultimately show ?thesis by (simp only: block_range_def flip: map_append)
qed

section \<open>The invariant\<close>

text \<open>
  Block hashes are digests of numbers: the digests of the decimal numerals of 64-bit numbers do not
  collide.
\<close>

definition collision_free :: "'s chain_lib \<Rightarrow> bool" where
  "collision_free lib \<longleftrightarrow> inj_on (keccak lib) {ascii_bytes (dec_string n) | n. n < 2 ^ 64}"

lemma number_hash_inject: "collision_free lib \<Longrightarrow> number_hash lib m = number_hash lib n \<longleftrightarrow> m = n"
proof -
  assume c: "collision_free lib"
  have "unat k < 2 ^ 64" for k :: u64 using unsigned_less [of k, where ?'a = nat] by simp
  then have "ascii_bytes (dec_string (unat k)) \<in> {ascii_bytes (dec_string n) | n. n < 2 ^ 64}" for k :: u64
    by blast
  with c have "number_hash lib m = number_hash lib n \<longleftrightarrow>
      ascii_bytes (dec_string (unat m)) = ascii_bytes (dec_string (unat n))"
    unfolding number_hash_def collision_free_def by (intro inj_on_eq_iff)
  then show ?thesis by (simp add: ascii_bytes_inject dec_string_inject word_unat_eq_iff)
qed

text \<open>A block other than the first holds one transaction and its logs, located in this block.\<close>

definition block_content :: "ethereum_block \<Rightarrow> bool" where
  "block_content b \<longleftrightarrow>
     (if eb_number b = 0 then eb_transactions b = [] \<and> eb_logs b = []
      else \<exists>t ls. eb_transactions b = [t] \<and> lt_block_number t = eb_number b \<and> lt_block_hash t = eb_hash b
             \<and> lt_transaction_index t = 0
             \<and> eb_logs b = localize_logs (eb_number b) (eb_hash b) (ut_hash (lt_signed t)) ls)"

definition block_linked :: "'s chain_lib \<Rightarrow> ethereum_block \<Rightarrow> bool" where
  "block_linked lib b \<longleftrightarrow> eb_hash b = number_hash lib (eb_number b)
     \<and> eb_parent_hash b = (if eb_number b = 0 then ZERO_HASH else number_hash lib (eb_number b - 1))"

definition blocks_inv :: "'s chain_lib \<Rightarrow> chain_state \<Rightarrow> bool" where
  "blocks_inv lib cs \<longleftrightarrow> collision_free lib
   \<and> (\<forall>n. cs_block_number_to_hash cs n = (if n \<le> cs_block_number cs then Some (number_hash lib n) else None))
   \<and> (\<forall>n. n \<le> cs_block_number cs \<longrightarrow> number_hash lib n \<in> dom (cs_blocks cs))
   \<and> (\<forall>h b. cs_blocks cs h = Some b \<longrightarrow>
         eb_number b \<le> cs_block_number cs \<and> eb_hash b = h \<and> block_linked lib b \<and> block_content b)"

definition transactions_inv :: "chain_state \<Rightarrow> bool" where
  "transactions_inv cs \<longleftrightarrow>
     (\<forall>h t. cs_transactions cs h = Some t \<longrightarrow>
        ut_hash (lt_signed t) = h \<and> (\<exists>b. cs_blocks cs (lt_block_hash t) = Some b \<and> eb_transactions b = [t]))
   \<and> (\<forall>h b t. cs_blocks cs h = Some b \<longrightarrow> t \<in> set (eb_transactions b) \<longrightarrow>
        ut_hash (lt_signed t) \<in> dom (cs_transactions cs))"

definition receipt_of :: "localized_receipt \<Rightarrow> localized_transaction \<Rightarrow> ethereum_block \<Rightarrow> bool" where
  "receipt_of r t b \<longleftrightarrow> lr_transaction_hash r = ut_hash (lt_signed t) \<and> lr_transaction_index r = lt_transaction_index t
     \<and> lr_block_hash r = lt_block_hash t \<and> lr_block_number r = lt_block_number t
     \<and> lr_logs r = eb_logs b \<and> lr_gas_used r = eb_gas_used b \<and> lr_log_bloom r = eb_log_bloom b"

definition receipts_inv :: "chain_state \<Rightarrow> bool" where
  "receipts_inv cs \<longleftrightarrow> dom (cs_receipts cs) = dom (cs_transactions cs)
   \<and> (\<forall>h t. cs_transactions cs h = Some t \<longrightarrow>
        (\<exists>r b. cs_receipts cs h = Some r \<and> cs_blocks cs (lt_block_hash t) = Some b \<and> receipt_of r t b))"

definition chain_inv :: "'s chain_lib \<Rightarrow> chain_state \<Rightarrow> bool" where
  "chain_inv lib cs \<longleftrightarrow> blocks_inv lib cs \<and> transactions_inv cs \<and> receipts_inv cs"

lemma blocks_inv_new:
  "collision_free lib \<Longrightarrow> blocks_inv lib
     \<lparr>cs_mkvs = m, cs_block_number = 0,
      cs_blocks = [number_hash lib 0 \<mapsto> ethereum_block_new lib 0 ZERO_HASH 0 0 g l],
      cs_block_number_to_hash = [0 \<mapsto> number_hash lib 0], cs_transactions = Map.empty, cs_receipts = Map.empty\<rparr>"
  by (auto simp: blocks_inv_def ethereum_block_new_def block_linked_def block_content_def)

lemma chain_state_new_inv:
  assumes "collision_free lib" and "chain_state_new lib w = (Ok cs, w')"
  shows "chain_inv lib cs"
proof -
  obtain m g l where "cs =
     \<lparr>cs_mkvs = m, cs_block_number = 0,
      cs_blocks = [number_hash lib 0 \<mapsto> ethereum_block_new lib 0 ZERO_HASH 0 0 g l],
      cs_block_number_to_hash = [0 \<mapsto> number_hash lib 0], cs_transactions = Map.empty, cs_receipts = Map.empty\<rparr>"
    using assms(2)
    by (auto simp: chain_state_new_def Let_def block_hash_def ethereum_block_new_def split: prod.splits outcome.splits)
  then show ?thesis
    using blocks_inv_new [OF assms(1)]
    by (simp add: chain_inv_def transactions_inv_def receipts_inv_def ethereum_block_new_def)
qed

lemma blocks_inv_collision_free: "blocks_inv lib cs \<Longrightarrow> collision_free lib"
  by (simp add: blocks_inv_def)

lemma stored_block:
  assumes "blocks_inv lib cs" and "cs_blocks cs h = Some b"
  shows "eb_number b \<le> cs_block_number cs" "eb_hash b = h" "h = number_hash lib (eb_number b)"
    "block_linked lib b" "block_content b"
proof -
  have *: "eb_number b \<le> cs_block_number cs \<and> eb_hash b = h \<and> block_linked lib b \<and> block_content b"
    using assms unfolding blocks_inv_def by blast
  then show "eb_number b \<le> cs_block_number cs" "eb_hash b = h" "block_linked lib b" "block_content b" by simp_all
  with * show "h = number_hash lib (eb_number b)" unfolding block_linked_def by simp
qed

lemma get_block_iff:
  "blocks_inv lib cs \<Longrightarrow> cs_get_block_by_number cs n =
     (if n \<le> cs_block_number cs then cs_blocks cs (number_hash lib n) else None)"
  by (simp add: blocks_inv_def cs_get_block_by_number_def)

interpretation chain: block_source cs_block_number cs_get_block_by_number eb_number "blocks_inv lib" for lib
proof
  show "cs_get_block_by_number s n \<noteq> None \<longleftrightarrow> n \<le> cs_block_number s" if "blocks_inv lib s" for s n
    using that by (auto simp: get_block_iff) (auto simp: blocks_inv_def)
  show "eb_number b = n" if "blocks_inv lib s" "cs_get_block_by_number s n = Some b" for s n b
  proof -
    have "cs_blocks s (number_hash lib n) = Some b"
      using that get_block_iff [OF that(1)] by (auto split: if_splits)
    from stored_block(3) [OF that(1) this] show ?thesis
      using blocks_inv_collision_free [OF that(1)] by (simp add: number_hash_inject)
  qed
qed

section \<open>Mining keeps the invariant\<close>

definition next_number :: "'s chain_lib \<Rightarrow> chain_state \<Rightarrow> (u64, string) outcome" where
  "next_number lib cs = add_checked (chain_oc lib) (cs_block_number cs) 1"

text \<open>The chain is far from the end of the 64-bit numbers, or the build checks overflow.\<close>

definition room :: "'s chain_lib \<Rightarrow> chain_state \<Rightarrow> bool" where
  "room lib cs \<longleftrightarrow> chain_oc lib \<or> cs_block_number cs \<noteq> - 1"

lemma unat_successor: "n \<noteq> - 1 \<Longrightarrow> unat (n + 1) = Suc (unat n)" for n :: u64
proof -
  assume "n \<noteq> - 1"
  then have "unat n \<noteq> 2 ^ 64 - 1" by (simp add: word_unat_eq_iff unat_minus_one_word_max)
  moreover have "unat n < 2 ^ 64" using unsigned_less [of n, where ?'a = nat] by simp
  ultimately show ?thesis by (simp add: unat_word_ariths)
qed

lemma successor_number:
  fixes n :: u64
  assumes "n \<noteq> - 1"
  shows "n < n + 1" "m \<le> n + 1 \<longleftrightarrow> m \<le> n \<or> m = n + 1" "n + 1 \<noteq> 0"
  using unat_successor [OF assms] by (auto simp: word_less_nat_alt word_le_nat_alt word_unat_eq_iff)

lemma successor_mono: "n \<le> m \<Longrightarrow> m \<noteq> - 1 \<Longrightarrow> n + 1 \<le> m + 1" for n m :: u64
  using unat_successor [of m] unat_successor [of n] by (cases "n = - 1") (auto simp: word_le_nat_alt)

lemma next_number_Ok:
  assumes "room lib cs" and "next_number lib cs = Ok number"
  shows "number = cs_block_number cs + 1" "cs_block_number cs \<noteq> - 1"
proof -
  have "chain_oc lib \<Longrightarrow> cs_block_number cs \<noteq> - 1"
    using assms(2) by (auto simp: next_number_def add_checked_def unat_minus_one_word_max split: if_splits)
  with assms(1) show "cs_block_number cs \<noteq> - 1" by (auto simp: room_def)
  show "number = cs_block_number cs + 1"
    using assms(2) by (simp add: next_number_def add_checked_def split: if_splits)
qed

definition mined_transaction :: "'s chain_lib \<Rightarrow> u64 \<Rightarrow> signed_transaction \<Rightarrow> localized_transaction" where
  "mined_transaction lib number txn =
     \<lparr>lt_signed = st_transaction txn, lt_block_number = number, lt_block_hash = number_hash lib number,
      lt_transaction_index = 0, lt_cached_sender = None\<rparr>"

definition mined_block ::
  "'s chain_lib \<Rightarrow> u256 \<Rightarrow> u64 \<Rightarrow> u64 \<Rightarrow> h256 \<Rightarrow> signed_transaction \<Rightarrow> receipt \<Rightarrow> ethereum_block" where
  "mined_block lib gas_limit number timestamp parent txn rc =
     \<lparr>eb_number = number, eb_timestamp = timestamp, eb_hash = number_hash lib number, eb_parent_hash = parent,
      eb_gas_used = rc_gas_used rc, eb_gas_limit = gas_limit, eb_log_bloom = rc_log_bloom rc,
      eb_logs = localize_logs number (number_hash lib number) (ut_hash (st_transaction txn)) (rc_logs rc),
      eb_transactions = [mined_transaction lib number txn]\<rparr>"

lemma store_block_eq:
  "store_block lib g number ts best txn rc cs =
     cs\<lparr>cs_block_number := number,
        cs_transactions := (cs_transactions cs)(ut_hash (st_transaction txn) \<mapsto> mined_transaction lib number txn),
        cs_receipts := (cs_receipts cs)(ut_hash (st_transaction txn) \<mapsto>
          localize_receipt lib number (number_hash lib number) txn rc
            (localize_logs number (number_hash lib number) (ut_hash (st_transaction txn)) (rc_logs rc))),
        cs_blocks := (cs_blocks cs)(number_hash lib number \<mapsto> mined_block lib g number ts (eb_hash best) txn rc),
        cs_block_number_to_hash := (cs_block_number_to_hash cs)(number \<mapsto> number_hash lib number)\<rparr>"
  by (simp add: store_block_def Let_def block_hash_def ethereum_block_new_def mined_transaction_def mined_block_def)

lemma fresh_hash:
  assumes "blocks_inv lib cs" and "cs_block_number cs < n"
  shows "cs_blocks cs (number_hash lib n) = None"
proof (rule ccontr)
  assume "cs_blocks cs (number_hash lib n) \<noteq> None"
  then obtain b where b: "cs_blocks cs (number_hash lib n) = Some b" by auto
  from stored_block(1,3) [OF assms(1) this] assms(2) show False
    using blocks_inv_collision_free [OF assms(1)] by (simp add: number_hash_inject)
qed

text \<open>The side conditions under which a block is stored.\<close>

definition extends :: "'s chain_lib \<Rightarrow> chain_state \<Rightarrow> u64 \<Rightarrow> ethereum_block \<Rightarrow> bool" where
  "extends lib cs number best \<longleftrightarrow> cs_block_number cs \<noteq> - 1 \<and> number = cs_block_number cs + 1
     \<and> cs_get_block_by_number cs (cs_block_number cs) = Some best"

lemma best_hash:
  "blocks_inv lib cs \<Longrightarrow> cs_get_block_by_number cs n = Some b \<Longrightarrow> eb_hash b = number_hash lib n"
  using get_block_iff [of lib cs n] by (auto simp: blocks_inv_def split: if_splits)

lemma store_block_blocks_inv:
  assumes "blocks_inv lib cs" and "extends lib cs number best"
  shows "blocks_inv lib (store_block lib g number ts best txn rc cs)"
proof -
  have n: "number = cs_block_number cs + 1" "cs_block_number cs \<noteq> - 1"
    and h: "eb_hash best = number_hash lib (cs_block_number cs)"
    using assms best_hash by (auto simp: extends_def)
  note ord = successor_number [OF n(2)]
  have new: "block_linked lib (mined_block lib g number ts (eb_hash best) txn rc)"
    "block_content (mined_block lib g number ts (eb_hash best) txn rc)"
    using ord n h by (auto simp: mined_block_def block_linked_def block_content_def mined_transaction_def)
  show ?thesis
    using assms(1) new ord n(1)
    by (auto simp: store_block_eq blocks_inv_def mined_block_def intro: order_trans less_imp_le)
qed

lemma store_block_transactions_inv:
  assumes "chain_inv lib cs" and "extends lib cs number best"
  shows "transactions_inv (store_block lib g number ts best txn rc cs)"
proof -
  have "cs_blocks cs (number_hash lib number) = None"
    using fresh_hash assms successor_number(1) by (auto simp: extends_def chain_inv_def)
  moreover have "transactions_inv cs" using assms(1) by (simp add: chain_inv_def)
  ultimately show ?thesis
    by (auto simp: transactions_inv_def store_block_eq mined_block_def mined_transaction_def)
       (metis option.distinct(1))
qed

lemma store_block_receipts_inv:
  assumes "chain_inv lib cs" and "extends lib cs number best"
  shows "receipts_inv (store_block lib g number ts best txn rc cs)"
proof -
  have "cs_blocks cs (number_hash lib number) = None"
    using fresh_hash assms successor_number(1) by (auto simp: extends_def chain_inv_def)
  moreover have "receipts_inv cs" using assms(1) by (simp add: chain_inv_def)
  moreover have "receipt_of (localize_receipt lib number (number_hash lib number) txn rc
      (localize_logs number (number_hash lib number) (ut_hash (st_transaction txn)) (rc_logs rc)))
      (mined_transaction lib number txn) (mined_block lib g number ts (eb_hash best) txn rc)"
    by (simp add: receipt_of_def localize_receipt_def mined_transaction_def mined_block_def Let_def)
  ultimately show ?thesis
    by (auto simp: receipts_inv_def store_block_eq) (auto simp: mined_transaction_def, metis option.distinct(1))
qed

lemma store_block_inv:
  "chain_inv lib cs \<Longrightarrow> extends lib cs number best \<Longrightarrow> chain_inv lib (store_block lib g number ts best txn rc cs)"
  using store_block_blocks_inv [of lib cs number best g ts txn rc]
    store_block_transactions_inv [of lib cs number best g ts txn rc]
    store_block_receipts_inv [of lib cs number best g ts txn rc]
  by (simp add: chain_inv_def)

section \<open>What mining can do\<close>

text \<open>
  A transaction is either refused with the chain untouched, or stops the node and poisons its
  lock, or is mined: then the chain state is \<open>store_block\<close> of the old one, also in the case where the
  receipt has no status code and the node stops after it stored the block.
\<close>

definition stored ::
  "'s chain_lib \<Rightarrow> blockchain \<Rightarrow> signed_transaction \<Rightarrow> u64 \<Rightarrow> u64 \<Rightarrow> ethereum_block \<Rightarrow> receipt \<Rightarrow> blockchain" where
  "stored lib bc txn number timestamp best rc =
     bc\<lparr>bc_chain_state := store_block lib (bc_block_gas_limit bc) number timestamp best txn rc (bc_chain_state bc)\<rparr>"

definition mined_outcome ::
  "'s chain_lib \<Rightarrow> blockchain \<Rightarrow> signed_transaction \<Rightarrow> u64 \<Rightarrow> u64 \<Rightarrow> ethereum_block \<Rightarrow> apply_outcome
   \<Rightarrow> (h256 \<times> execution_result, string) outcome \<times> blockchain" where
  "mined_outcome lib bc txn number timestamp best ao =
     (let rc = ao_receipt ao; bc' = stored lib bc txn number timestamp best rc
      in case rc_outcome rc of
        StatusCode c \<Rightarrow>
          (Ok (ut_hash (st_transaction txn),
               \<lparr>er_cumulative_gas_used = rc_gas_used rc, er_gas_used = rc_gas_used rc, er_log_bloom = rc_log_bloom rc,
                er_logs = rc_logs rc, er_status_code = c, er_output = ao_output ao\<rparr>), bc')
      | _ \<Rightarrow> (Panic, poison bc'))"

lemma mine_block_executed:
  assumes "\<not> bc_poisoned bc"
    and "cs_get_block_by_number (bc_chain_state bc) (cs_block_number (bc_chain_state bc)) = Some best"
    and "from_existing lib (boxed_clone (cs_mkvs (bc_chain_state bc))) (Some (confidential_ctx_new (eb_hash best))) w = Ok st"
    and "next_number lib (bc_chain_state bc) = Ok number" and "get_timestamp (io_now io) = (Ok ts :: (u64, string) outcome)"
  shows "mine_block lib io bc w txn =
    (case state_apply lib st
            \<lparr>ei_number = number, ei_author = replicate 20 0, ei_timestamp = ts, ei_difficulty = 0,
             ei_gas_limit = bc_block_gas_limit bc, ei_last_hashes = [eb_hash best], ei_gas_used = 0\<rparr>
            txn w (io_random io) of
       (Err err, _, w1) \<Rightarrow> (Err err, bc, w1)
     | (Panic, _, w1) \<Rightarrow> (Panic, poison bc, w1)
     | (Ok ao, st1, w1) \<Rightarrow>
         (case state_commit lib st1 w1 of
            (Ok _, w2) \<Rightarrow> (fst (mined_outcome lib bc txn number ts best ao), snd (mined_outcome lib bc txn number ts best ao), w2)
          | (_, w2) \<Rightarrow> (Panic, poison bc, w2)))"
  using assms unfolding next_number_def
  by (simp add: mine_block_def Let_def mined_outcome_def stored_def
      split: outcome.split prod.split transaction_outcome.split)

lemma mine_block_early:
  assumes "mine_block lib io bc w txn = (r, bc', w')"
  shows "r = Panic \<and> bc' = (if bc_poisoned bc then bc else poison bc)
    \<or> (\<not> bc_poisoned bc \<and> (\<exists>best st number ts.
         cs_get_block_by_number (bc_chain_state bc) (cs_block_number (bc_chain_state bc)) = Some best
       \<and> from_existing lib (boxed_clone (cs_mkvs (bc_chain_state bc))) (Some (confidential_ctx_new (eb_hash best))) w = Ok st
       \<and> next_number lib (bc_chain_state bc) = Ok number \<and> get_timestamp (io_now io) = (Ok ts :: (u64, string) outcome)))"
  using assms unfolding mine_block_def Let_def next_number_def
  by (cases "and_then (add_checked (chain_oc lib) (cs_block_number (bc_chain_state bc)) 1)
               (\<lambda>number. map_ok (\<lambda>timestamp. (number, timestamp)) (get_timestamp (io_now io))) :: (u64 \<times> u64, string) outcome")
     (auto split: if_splits option.splits outcome.splits)

lemma mine_block_cases:
  assumes "mine_block lib io bc w txn = (r, bc', w')"
  obtains (refused) e where "r = Err e" "bc' = bc" "\<not> bc_poisoned bc"
  | (panic) "r = Panic" "bc' = (if bc_poisoned bc then bc else poison bc)"
  | (mined) best number timestamp ao where "\<not> bc_poisoned bc"
      "cs_get_block_by_number (bc_chain_state bc) (cs_block_number (bc_chain_state bc)) = Some best"
      "next_number lib (bc_chain_state bc) = Ok number" "(r, bc') = mined_outcome lib bc txn number timestamp best ao"
proof -
  from mine_block_early [OF assms] consider "r = Panic" "bc' = (if bc_poisoned bc then bc else poison bc)"
    | (run) best st number ts where "\<not> bc_poisoned bc"
        "cs_get_block_by_number (bc_chain_state bc) (cs_block_number (bc_chain_state bc)) = Some best"
        "from_existing lib (boxed_clone (cs_mkvs (bc_chain_state bc))) (Some (confidential_ctx_new (eb_hash best))) w = Ok st"
        "next_number lib (bc_chain_state bc) = Ok number" "get_timestamp (io_now io) = (Ok ts :: (u64, string) outcome)"
    by blast
  then show ?thesis
  proof cases
    case run
    from assms mine_block_executed [OF run, of txn] have
      "(\<exists>e. r = Err e \<and> bc' = bc) \<or> (r = Panic \<and> bc' = poison bc)
       \<or> (\<exists>ao. (r, bc') = mined_outcome lib bc txn number ts best ao)"
      by (auto split: prod.splits outcome.splits)
    with run(1,2,4) show ?thesis using refused panic mined by (metis (full_types))
  qed (rule panic)
qed

section \<open>Reachable states\<close>

lemma poison_simps [simp]:
  "bc_chain_state (poison bc) = bc_chain_state bc" "bc_poisoned (poison bc)" "bc_gas_price (poison bc) = bc_gas_price bc"
  "bc_block_gas_limit (poison bc) = bc_block_gas_limit bc"
  by (simp_all add: poison_def)

lemma stored_simps [simp]:
  "bc_poisoned (stored lib bc txn n ts best rc) = bc_poisoned bc"
  "bc_gas_price (stored lib bc txn n ts best rc) = bc_gas_price bc"
  "bc_block_gas_limit (stored lib bc txn n ts best rc) = bc_block_gas_limit bc"
  "bc_chain_state (stored lib bc txn n ts best rc) = store_block lib (bc_block_gas_limit bc) n ts best txn rc (bc_chain_state bc)"
  by (simp_all add: stored_def)

lemma mined_outcome_state:
  "(r, bc') = mined_outcome lib bc txn number ts best ao \<Longrightarrow>
     bc_chain_state bc' = store_block lib (bc_block_gas_limit bc) number ts best txn (ao_receipt ao) (bc_chain_state bc)
   \<and> (r = Panic \<or> (\<exists>res. r = Ok (ut_hash (st_transaction txn), res) \<and> bc' = stored lib bc txn number ts best (ao_receipt ao)
        \<and> er_gas_used res = rc_gas_used (ao_receipt ao) \<and> er_logs res = rc_logs (ao_receipt ao)))
   \<and> (r = Panic \<longrightarrow> bc_poisoned bc')"
  by (auto simp: mined_outcome_def Let_def split: transaction_outcome.splits)

text \<open>What \<open>send_raw_transaction\<close> does before it mines.\<close>

lemma send_raw_transaction_cases:
  assumes "send_raw_transaction lib io bc w raw = (r, bc', w')"
  obtains (rejected) e where "r = Err e" "bc' = bc" "w' = w"
  | (admitted) decoded txn where "rlp_decode lib raw = Some decoded"
      "tx_gas (as_unsigned decoded) \<le> bc_block_gas_limit bc" "signed_new lib decoded = Some txn"
      "bc_gas_price bc \<le> tx_gas_price (as_unsigned (st_transaction txn))" "mine_block lib io bc w txn = (r, bc', w')"
  using assms unfolding send_raw_transaction_def by (auto split: option.splits if_splits)

inductive chain_step :: "'s chain_lib \<Rightarrow> blockchain \<times> world \<Rightarrow> blockchain \<times> world \<Rightarrow> bool"
  for lib :: "'s chain_lib" where
  step_send: "room lib (bc_chain_state bc) \<Longrightarrow> send_raw_transaction lib io bc w raw = (r, bc', w')
    \<Longrightarrow> chain_step lib (bc, w) (bc', w')"
| step_key_request: "get_public_key mlib rnd (w_km w) cid = (p, km') \<Longrightarrow> chain_step lib (bc, w) (bc, w\<lparr>w_km := km'\<rparr>)"

inductive_cases chain_stepE: "chain_step lib s t"

definition chain_start :: "'s chain_lib \<Rightarrow> blockchain \<times> world \<Rightarrow> bool" where
  "chain_start lib s \<longleftrightarrow> collision_free lib
     \<and> (\<exists>price limit w0. blockchain_new lib price limit w0 = (Ok (fst s) :: (blockchain, string) outcome, snd s))"

definition node_inv :: "'s chain_lib \<Rightarrow> blockchain \<times> world \<Rightarrow> bool" where
  "node_inv lib s \<longleftrightarrow> chain_inv lib (bc_chain_state (fst s))"

text \<open>A later chain has every block of the earlier one, by number and by hash.\<close>

definition chain_grows :: "blockchain \<times> world \<Rightarrow> blockchain \<times> world \<Rightarrow> bool" where
  "chain_grows s t \<longleftrightarrow>
     cs_block_number (bc_chain_state (fst s)) \<le> cs_block_number (bc_chain_state (fst t))
   \<and> cs_blocks (bc_chain_state (fst s)) \<subseteq>\<^sub>m cs_blocks (bc_chain_state (fst t))
   \<and> cs_block_number_to_hash (bc_chain_state (fst s)) \<subseteq>\<^sub>m cs_block_number_to_hash (bc_chain_state (fst t))
   \<and> (bc_poisoned (fst s) \<longrightarrow> bc_poisoned (fst t))"

lemma chain_start_inv: "chain_start lib s \<Longrightarrow> node_inv lib s"
proof -
  assume "chain_start lib s"
  then obtain price limit w0 where s: "collision_free lib"
    "blockchain_new lib price limit w0 = (Ok (fst s) :: (blockchain, string) outcome, snd s)"
    by (auto simp: chain_start_def)
  obtain r w' where n: "chain_state_new lib w0 = (r :: (chain_state, string) outcome, w')" by (meson surj_pair)
  with s(2) obtain cs where "r = Ok cs" "bc_chain_state (fst s) = cs" by (auto simp: blockchain_new_def)
  with n chain_state_new_inv [OF s(1)] show ?thesis by (simp add: node_inv_def)
qed

lemma extends_of_mined:
  "room lib cs \<Longrightarrow> next_number lib cs = Ok number \<Longrightarrow> cs_get_block_by_number cs (cs_block_number cs) = Some best
   \<Longrightarrow> extends lib cs number best"
  using next_number_Ok [of lib cs number] by (simp add: extends_def)

lemma store_block_grows:
  assumes "blocks_inv lib cs" and "extends lib cs number best"
  shows "cs_block_number cs \<le> number" "cs_blocks cs \<subseteq>\<^sub>m (cs_blocks cs)(number_hash lib number \<mapsto> b)"
    "cs_block_number_to_hash cs \<subseteq>\<^sub>m (cs_block_number_to_hash cs)(number \<mapsto> number_hash lib number)"
proof -
  have n: "cs_block_number cs < number" using assms(2) successor_number(1) by (auto simp: extends_def)
  then show "cs_block_number cs \<le> number" by simp
  have "cs_blocks cs (number_hash lib number) = None" using fresh_hash [OF assms(1) n] .
  then show "cs_blocks cs \<subseteq>\<^sub>m (cs_blocks cs)(number_hash lib number \<mapsto> b)" by (auto simp: map_le_def)
  have "cs_block_number_to_hash cs number = None" using n assms(1) by (simp add: blocks_inv_def not_le)
  then show "cs_block_number_to_hash cs \<subseteq>\<^sub>m (cs_block_number_to_hash cs)(number \<mapsto> number_hash lib number)"
    by (auto simp: map_le_def)
qed

lemma send_step:
  assumes "chain_inv lib (bc_chain_state bc)" and "room lib (bc_chain_state bc)"
    and "send_raw_transaction lib io bc w raw = (r, bc', w')"
  shows "chain_inv lib (bc_chain_state bc') \<and> chain_grows (bc, w) (bc', w')"
  using assms(3)
proof (cases rule: send_raw_transaction_cases)
  case (admitted decoded txn)
  from admitted(5) show ?thesis
  proof (cases rule: mine_block_cases)
    case (mined best number ts ao)
    have e: "extends lib (bc_chain_state bc) number best" using extends_of_mined assms(2) mined(2,3) by blast
    note m = mined_outcome_state [OF mined(4)]
    have b: "blocks_inv lib (bc_chain_state bc)" using assms(1) by (simp add: chain_inv_def)
    have "chain_grows (bc, w) (bc', w')"
      using store_block_grows [OF b e] m mined(1) by (simp add: chain_grows_def store_block_eq)
    then show ?thesis using store_block_inv [OF assms(1) e] m by simp
  qed (use assms(1) in \<open>auto simp: chain_grows_def\<close>)
qed (use assms(1) in \<open>auto simp: chain_grows_def\<close>)

interpretation cg: growing_machine "chain_start lib" "chain_step lib" "node_inv lib" chain_grows for lib
proof
  show "node_inv lib s" if "chain_start lib s" for s :: "blockchain \<times> world" using that by (rule chain_start_inv)
  show "node_inv lib t" if "node_inv lib s" "chain_step lib s t" for s t :: "blockchain \<times> world"
    using that by (auto elim!: chain_stepE simp: node_inv_def dest: send_step)
  show "chain_grows s s" for s by (simp add: chain_grows_def)
  show "chain_grows s u" if "chain_grows s t" "chain_grows t u" for s t u
    using that by (auto simp: chain_grows_def intro: map_le_trans)
  show "chain_grows s t" if "node_inv lib s" "chain_step lib s t" for s t :: "blockchain \<times> world"
    using that by (auto elim!: chain_stepE simp: node_inv_def chain_grows_def dest: send_step)
qed

end
