(* ===== verification/Chain_Properties.thy ===== *)
theory Chain_Properties
  imports Chain
begin

text \<open>
  The properties of the simulated chain in its reachable states: its abstraction is a list of
  linked blocks to which mining appends, lookups agree with that list, history never changes,
  log queries filter the blocks of their range, and a panic during mining stops the node.
\<close>

section \<open>The abstract chain\<close>

definition abs_chain :: "chain_state \<Rightarrow> ethereum_block list" where
  "abs_chain cs = map (\<lambda>n. the (cs_get_block_by_number cs n)) (block_range 0 (cs_block_number cs))"

lemma length_abs_chain: "length (abs_chain cs) = Suc (unat (cs_block_number cs))"
  by (simp add: abs_chain_def block_range_def del: upt_Suc)

lemma block_range_nth: "i \<le> unat b \<Longrightarrow> block_range 0 b ! i = of_nat i"
  by (simp add: block_range_def del: upt_Suc)

lemma abs_chain_nth: "i < length (abs_chain cs) \<Longrightarrow> abs_chain cs ! i = the (cs_get_block_by_number cs (of_nat i))"
  using length_abs_chain [of cs] block_range_nth [of i "cs_block_number cs"]
  by (simp add: abs_chain_def block_range_def del: upt_Suc)

lemma of_nat_le_best: "i < length (abs_chain cs) \<Longrightarrow> of_nat i \<le> cs_block_number cs \<and> unat (of_nat i :: u64) = i"
proof -
  assume "i < length (abs_chain cs)"
  then have "i \<le> unat (cs_block_number cs)" by (simp add: length_abs_chain)
  moreover have "unat (cs_block_number cs) < 2 ^ 64"
    using unsigned_less [of "cs_block_number cs", where ?'a = nat] by simp
  ultimately show ?thesis by (simp add: word_le_nat_alt unat_of_nat)
qed

text \<open>Every block of the list is the block that the number index gives, with its number and links.\<close>

lemma abs_chain_block:
  assumes "blocks_inv lib cs" and "i < length (abs_chain cs)"
  shows "cs_get_block_by_number cs (of_nat i) = Some (abs_chain cs ! i)"
    "eb_number (abs_chain cs ! i) = of_nat i" "eb_hash (abs_chain cs ! i) = number_hash lib (of_nat i)"
    "block_linked lib (abs_chain cs ! i)" "block_content (abs_chain cs ! i)"
proof -
  have le: "of_nat i \<le> cs_block_number cs" using of_nat_le_best [OF assms(2)] by simp
  obtain b where b: "cs_get_block_by_number cs (of_nat i) = Some b" "eb_number b = of_nat i"
    using chain.block_found [OF assms(1) le] by blast
  then show "cs_get_block_by_number cs (of_nat i) = Some (abs_chain cs ! i)"
    "eb_number (abs_chain cs ! i) = of_nat i" using abs_chain_nth [OF assms(2)] by simp_all
  show "eb_hash (abs_chain cs ! i) = number_hash lib (of_nat i)"
    using b abs_chain_nth [OF assms(2)] best_hash [OF assms(1)] by simp
  have "cs_blocks cs (number_hash lib (of_nat i)) = Some b"
    using b(1) get_block_iff [OF assms(1)] le by simp
  then show "block_linked lib (abs_chain cs ! i)" "block_content (abs_chain cs ! i)"
    using assms(1) b abs_chain_nth [OF assms(2)] by (auto simp: blocks_inv_def)
qed

lemma number_lookup:
  assumes "blocks_inv lib cs"
  shows "cs_get_block_by_number cs n = vec_get (abs_chain cs) (unat n)"
proof (cases "n \<le> cs_block_number cs")
  case True
  then have "unat n < length (abs_chain cs)" by (simp add: length_abs_chain word_le_nat_alt less_Suc_eq_le)
  with abs_chain_block(1) [OF assms this] show ?thesis by (simp add: vec_get_def)
next
  case False
  then have "\<not> unat n < length (abs_chain cs)" by (simp add: length_abs_chain word_le_nat_alt less_Suc_eq_le)
  with False get_block_iff [OF assms] show ?thesis by (simp add: vec_get_def)
qed

lemma hash_lookup:
  assumes "blocks_inv lib cs"
  shows "cs_blocks cs h = find (\<lambda>b. eb_hash b = h) (abs_chain cs)"
proof (cases "cs_blocks cs h")
  case None
  have "eb_hash (abs_chain cs ! i) \<noteq> h" if "i < length (abs_chain cs)" for i
  proof -
    have "cs_blocks cs (number_hash lib (of_nat i)) \<noteq> None"
      using assms of_nat_le_best [OF that] by (auto simp: blocks_inv_def)
    with None abs_chain_block(3) [OF assms that] show ?thesis by auto
  qed
  then have "find (\<lambda>b. eb_hash b = h) (abs_chain cs) = None" unfolding find_None_iff in_set_conv_nth by blast
  with None show ?thesis by simp
next
  case (Some b)
  let ?n = "eb_number b" and ?L = "abs_chain cs"
  have b: "?n \<le> cs_block_number cs" "h = number_hash lib ?n" "collision_free lib"
    using stored_block [OF assms Some] blocks_inv_collision_free [OF assms] by blast+
  have i: "unat ?n < length ?L" using b(1) by (simp add: length_abs_chain word_le_nat_alt less_Suc_eq_le)
  have "?L ! unat ?n = b"
    using abs_chain_block(1) [OF assms i] get_block_iff [OF assms, of ?n] b Some by simp
  moreover have "eb_hash (?L ! j) \<noteq> h" if "j < unat ?n" for j
  proof -
    have j: "j < length ?L" using that i by simp
    have "(of_nat j :: u64) \<noteq> ?n" using of_nat_le_best [OF j] that by auto
    with abs_chain_block(3) [OF assms j] b show ?thesis by (simp add: number_hash_inject)
  qed
  moreover have "eb_hash (?L ! unat ?n) = h" using abs_chain_block(3) [OF assms i] b(2) by simp
  ultimately have "find (\<lambda>b. eb_hash b = h) ?L = Some b" using i by (auto simp: find_Some_iff)
  with Some show ?thesis by simp
qed

lemma store_block_lookup:
  assumes "blocks_inv lib cs" and "extends lib cs number best" and "n \<le> cs_block_number cs"
  shows "cs_get_block_by_number (store_block lib g number ts best txn rc cs) n = cs_get_block_by_number cs n"
proof -
  have lt: "n < number"
    using assms(2,3) successor_number(1) [of "cs_block_number cs"] by (auto simp: extends_def)
  with blocks_inv_collision_free [OF assms(1)] have "number_hash lib n \<noteq> number_hash lib number"
    by (simp add: number_hash_inject)
  moreover have "n \<noteq> number" using lt by simp
  ultimately show ?thesis
    using assms(1,3) by (simp add: cs_get_block_by_number_def store_block_eq blocks_inv_def)
qed

lemma store_block_number [simp]: "cs_block_number (store_block lib g number ts best txn rc cs) = number"
  by (simp add: store_block_eq)

lemma store_block_latest:
  "cs_get_block_by_number (store_block lib g number ts best txn rc cs) number
     = Some (mined_block lib g number ts (eb_hash best) txn rc)"
  by (simp add: cs_get_block_by_number_def store_block_eq)

lemma abs_chain_store:
  assumes "blocks_inv lib cs" and "extends lib cs number best"
  shows "abs_chain (store_block lib g number ts best txn rc cs) =
    abs_chain cs @ [mined_block lib g number ts (eb_hash best) txn rc]"
proof -
  let ?cs = "store_block lib g number ts best txn rc cs" and ?N = "cs_block_number cs"
  have n: "number = ?N + 1" "?N < number" using assms(2) successor_number(1) [of ?N] by (auto simp: extends_def)
  have "block_range 0 number = block_range 0 ?N @ [number]"
    using block_range_append [of 0 ?N number] n by (simp add: block_range_single)
  moreover have "map (\<lambda>n. the (cs_get_block_by_number ?cs n)) (block_range 0 ?N) = abs_chain cs"
    unfolding abs_chain_def
    by (rule map_cong) (auto simp: set_block_range store_block_lookup [OF assms])
  ultimately show ?thesis
    by (simp add: abs_chain_def [of ?cs] store_block_latest)
qed

lemma last_abs_chain:
  assumes "blocks_inv lib cs" and "cs_get_block_by_number cs (cs_block_number cs) = Some best"
  shows "last (abs_chain cs) = best"
proof -
  have i: "unat (cs_block_number cs) < length (abs_chain cs)" by (simp add: length_abs_chain)
  have ne: "abs_chain cs \<noteq> []" using length_abs_chain [of cs] by auto
  then have "last (abs_chain cs) = abs_chain cs ! unat (cs_block_number cs)"
    by (simp add: last_conv_nth length_abs_chain)
  with abs_chain_block(1) [OF assms(1) i] assms(2) show ?thesis by simp
qed

section \<open>A concrete library\<close>

text \<open>
  For the witnesses: Keccak as the identity, a decoder that takes the bytes as the data of a
  contract creation, and an execution that refuses empty data, panics on the data \<open>[255]\<close> and
  otherwise succeeds with one log.
\<close>

definition sample_tx :: "bytes \<Rightarrow> unverified_transaction" where
  "sample_tx raw =
     \<lparr>as_unsigned = \<lparr>tx_nonce = 0, tx_gas_price = 2, tx_gas = 3, tx_action = Create, tx_value = 0, tx_data = raw\<rparr>,
      ut_signature = [], ut_hash = raw\<rparr>"

definition sample_receipt :: receipt where
  "sample_receipt =
     \<lparr>rc_gas_used = 3, rc_log_bloom = [], rc_logs = [\<lparr>log_address = [9], log_topics = [], log_data = []\<rparr>],
      rc_outcome = StatusCode 1\<rparr>"

definition sample_apply ::
  "unit \<Rightarrow> env_info \<Rightarrow> signed_transaction \<Rightarrow> world \<Rightarrow> bytes \<Rightarrow> (apply_outcome, string) outcome \<times> unit \<times> world" where
  "sample_apply st ei txn w rnd =
     (let d = tx_data (as_unsigned (st_transaction txn)) in
      if d = [] then (Err ''bad nonce'', st, w)
      else if d = [255] then (Panic, st, w)
      else (Ok \<lparr>ao_receipt = sample_receipt, ao_output = d\<rparr>, st, w))"

definition sample_chain :: "unit chain_lib" where
  "sample_chain =
     \<lparr>keccak = (\<lambda>d. d), rlp_decode = (\<lambda>raw. Some (sample_tx raw)),
      signed_new = (\<lambda>u. Some \<lparr>st_transaction = u, st_sender = [1]\<rparr>), ensure_db_good = (\<lambda>m h. (Ok (), h)),
      from_existing = (\<lambda>m c w. Ok ()), state_apply = sample_apply, state_commit = (\<lambda>s w. (Ok (), w)),
      transact_virtual = (\<lambda>s ei txn w. Ok \<lparr>ex_exception = None, ex_gas_used = 3, ex_refunded = 0, ex_output = []\<rparr>),
      contract_address = (\<lambda>n s nonce d. s), filter_matches = (\<lambda>f l. True), keccak_empty_list_rlp = [],
      chain_oc = True\<rparr>"

definition sample_world :: world where
  "sample_world = \<lparr>w_heap = empty_heap, w_km = mock_client_new\<rparr>"

definition sample_io :: io_input where
  "sample_io = \<lparr>io_now = 5000000000, io_random = []\<rparr>"

text \<open>A node that received the given raw transactions, one after the other.\<close>

fun sample_node :: "bytes list \<Rightarrow> blockchain \<times> world" where
  "sample_node [] =
     (case blockchain_new sample_chain 1 10 sample_world :: (blockchain, string) outcome \<times> world of
        (Ok bc, w) \<Rightarrow> (bc, w))"
| "sample_node (raw # raws) =
     (let (bc, w) = sample_node raws in snd (send_raw_transaction sample_chain sample_io bc w raw))"

lemma sample_chain_simps [simp]:
  "keccak sample_chain d = d" "rlp_decode sample_chain raw = Some (sample_tx raw)"
  "signed_new sample_chain u = Some \<lparr>st_transaction = u, st_sender = [1]\<rparr>"
  "ensure_db_good sample_chain m h = (Ok (), h)" "from_existing sample_chain m c w = Ok ()"
  "state_apply sample_chain = sample_apply" "state_commit sample_chain s w = (Ok (), w)"
  "filter_matches sample_chain f l" "chain_oc sample_chain"
  by (simp_all add: sample_chain_def)

lemma sample_chain_collision_free: "collision_free sample_chain"
  by (simp add: collision_free_def inj_on_def)

lemma sample_node_start:
  "chain_start sample_chain (sample_node [])" "\<not> bc_poisoned (fst (sample_node []))"
  "bc_gas_price (fst (sample_node [])) = 1" "bc_block_gas_limit (fst (sample_node [])) = 10"
  "cs_block_number (bc_chain_state (fst (sample_node []))) = 0"
  "blockchain_new sample_chain 1 10 sample_world = (Ok (fst (sample_node [])) :: (blockchain, string) outcome, snd (sample_node []))"
proof -
  obtain cs w where "chain_state_new sample_chain sample_world = (Ok cs :: (chain_state, string) outcome, w)"
    and n: "cs_block_number cs = 0"
    by (cases "memory_mkvs_new (w_heap sample_world)") (simp add: chain_state_new_def Let_def)
  then have b: "blockchain_new sample_chain 1 10 sample_world =
      (Ok \<lparr>bc_gas_price = 1, bc_block_gas_limit = 10, bc_chain_state = cs, bc_poisoned = False\<rparr>
        :: (blockchain, string) outcome, w)"
    by (simp add: blockchain_new_def)
  then show "chain_start sample_chain (sample_node [])"
    using sample_chain_collision_free unfolding chain_start_def by fastforce
  show "\<not> bc_poisoned (fst (sample_node []))" "bc_gas_price (fst (sample_node [])) = 1"
    "bc_block_gas_limit (fst (sample_node [])) = 10" "cs_block_number (bc_chain_state (fst (sample_node []))) = 0"
    "blockchain_new sample_chain 1 10 sample_world = (Ok (fst (sample_node [])) :: (blockchain, string) outcome, snd (sample_node []))"
    using b n by simp_all
qed

declare sample_node.simps [simp del]

lemma sample_node_reachable: "reachable (chain_start sample_chain) (chain_step sample_chain) (sample_node raws)"
proof (induction raws)
  case Nil
  show ?case by (rule reachable.reachable_start) (rule sample_node_start(1))
next
  case (Cons raw raws)
  obtain bc w where n: "sample_node raws = (bc, w)" by (meson surj_pair)
  obtain r bc' w' where s: "send_raw_transaction sample_chain sample_io bc w raw = (r, bc', w')" by (meson prod_cases3)
  have "chain_step sample_chain (bc, w) (bc', w')"
    by (rule chain_step.step_send [OF _ s]) (simp add: room_def)
  with Cons n s show ?case by (auto simp: sample_node.simps intro: reachable.reachable_step)
qed

lemma sample_reachable:
  "reachable (chain_start sample_chain) (chain_step sample_chain) (fst (sample_node raws), snd (sample_node raws))"
  by (simp add: sample_node_reachable)

lemma reachable_chain_inv:
  "reachable (chain_start lib) (chain_step lib) (bc, w) \<Longrightarrow> chain_inv lib (bc_chain_state bc)"
  using cg.reachable_inv [of lib "(bc, w)"] by (simp add: node_inv_def)

lemma reachable_blocks_inv:
  "reachable (chain_start lib) (chain_step lib) (bc, w) \<Longrightarrow> blocks_inv lib (bc_chain_state bc)"
  using reachable_chain_inv by (auto simp: chain_inv_def)

section \<open>Properties of the chain\<close>

text \<open>
  C2. In every reachable state the chain is a list of blocks: number lookups are positions in that
  list and hash lookups find the first block with the hash; the block at position \<open>i\<close> has number \<open>i\<close>
  and the hash of its predecessor as its parent hash.
\<close>

theorem chain_is_linked_list:
  assumes "reachable (chain_start lib) (chain_step lib) (bc, w)" and "\<not> bc_poisoned bc"
  shows "get_block_by_number bc n = Ok (vec_get (abs_chain (bc_chain_state bc)) (unat n))
    \<and> get_block_by_hash bc h = Ok (find (\<lambda>b. eb_hash b = h) (abs_chain (bc_chain_state bc)))
    \<and> get_latest_block bc = Ok (last (abs_chain (bc_chain_state bc)))
    \<and> (i < length (abs_chain (bc_chain_state bc)) \<longrightarrow>
         number_u64 (abs_chain (bc_chain_state bc) ! i) = of_nat i
       \<and> eb_parent_hash (abs_chain (bc_chain_state bc) ! i) =
           (if i = 0 then ZERO_HASH else block_hash (abs_chain (bc_chain_state bc) ! (i - 1))))"
proof -
  let ?cs = "bc_chain_state bc" and ?L = "abs_chain (bc_chain_state bc)"
  have inv: "blocks_inv lib ?cs" using assms(1) by (rule reachable_blocks_inv)
  obtain best where best: "cs_get_block_by_number ?cs (cs_block_number ?cs) = Some best"
    using chain.block_found [OF inv order_refl] by blast
  have link: "eb_parent_hash (?L ! i) = (if i = 0 then ZERO_HASH else eb_hash (?L ! (i - 1)))"
    if i: "i < length ?L"
  proof (cases i)
    case 0
    with abs_chain_block(2,4) [OF inv i] show ?thesis by (simp add: block_linked_def)
  next
    case (Suc j)
    have "unat (of_nat i :: u64) = i" using of_nat_le_best [OF i] by simp
    then have "(of_nat i :: u64) \<noteq> 0" using Suc by auto
    then show ?thesis
      using abs_chain_block(2,4) [OF inv i] abs_chain_block(3) [OF inv, of j] i Suc
      by (simp add: block_linked_def)
  qed
  show ?thesis
    using assms(2) best last_abs_chain [OF inv best] number_lookup [OF inv, of n] hash_lookup [OF inv, of h] link
      abs_chain_block(2) [OF inv]
    by (simp add: get_block_by_number_def get_block_by_hash_def get_latest_block_def read_state_def
        number_u64_def block_hash_def)
qed

theorem chain_is_linked_list_witness:
  "\<not> bc_poisoned (fst (sample_node []))
   \<and> get_latest_block (fst (sample_node [])) = (Ok (last (abs_chain (bc_chain_state (fst (sample_node []))))) :: (ethereum_block, string) outcome)"
proof -
  show ?thesis
    using sample_node_start(2) chain_is_linked_list [OF sample_reachable sample_node_start(2)] by blast
qed

text \<open>
  What an accepted transaction does to the genesis node of the concrete library.
\<close>

lemma sample_send:
  "\<exists>best. send_raw_transaction sample_chain sample_io (fst (sample_node [])) (snd (sample_node [])) raw =
    (if raw = [] then (Err ''bad nonce'', fst (sample_node []), snd (sample_node []))
     else if raw = [255] then (Panic, poison (fst (sample_node [])), snd (sample_node []))
     else let out = mined_outcome sample_chain (fst (sample_node [])) \<lparr>st_transaction = sample_tx raw, st_sender = [1]\<rparr>
                      1 5 best \<lparr>ao_receipt = sample_receipt, ao_output = raw\<rparr>
          in (fst out, snd out, snd (sample_node [])))"
proof -
  let ?bc = "fst (sample_node [])" and ?w = "snd (sample_node [])"
  let ?txn = "\<lparr>st_transaction = sample_tx raw, st_sender = [1]\<rparr>"
  obtain best where best: "cs_get_block_by_number (bc_chain_state ?bc) (cs_block_number (bc_chain_state ?bc)) = Some best"
    using chain.block_found [OF reachable_blocks_inv [OF sample_reachable] order_refl] by blast
  have n: "next_number sample_chain (bc_chain_state ?bc) = Ok 1"
    by (simp add: next_number_def sample_node_start add_checked_def)
  have t: "get_timestamp (io_now sample_io) = (Ok 5 :: (u64, string) outcome)"
    by (simp add: get_timestamp_def sample_io_def)
  show ?thesis
    using mine_block_executed [OF sample_node_start(2) best _ n t, of ?w "()" ?txn]
    by (intro exI [of _ best])
       (simp add: send_raw_transaction_def sample_node_start sample_apply_def sample_tx_def Let_def)
qed

lemma sample_mine:
  assumes "raw \<noteq> []" and "raw \<noteq> [255]"
  shows "\<exists>res bc'. send_raw_transaction sample_chain sample_io (fst (sample_node [])) (snd (sample_node [])) raw
      = (Ok (raw, res), bc', snd (sample_node [])) \<and> \<not> bc_poisoned bc'"
  using sample_send [of raw] assms sample_node_start(2)
  by (auto simp: mined_outcome_def sample_receipt_def sample_tx_def Let_def)

lemma send_mined:
  assumes "send_raw_transaction lib io bc w raw = (Ok (h, res), bc', w')" and "room lib (bc_chain_state bc)"
  obtains decoded txn best number ts rc where "rlp_decode lib raw = Some decoded"
    "tx_gas (as_unsigned decoded) \<le> bc_block_gas_limit bc" "signed_new lib decoded = Some txn"
    "bc_gas_price bc \<le> tx_gas_price (as_unsigned (st_transaction txn))" "h = ut_hash (st_transaction txn)"
    "extends lib (bc_chain_state bc) number best" "bc' = stored lib bc txn number ts best rc"
    "er_gas_used res = rc_gas_used rc" "er_logs res = rc_logs rc" "\<not> bc_poisoned bc"
  using assms(1)
proof (cases rule: send_raw_transaction_cases)
  case (admitted decoded txn)
  from admitted(5) show ?thesis
  proof (cases rule: mine_block_cases)
    case (mined best number ts ao)
    have "extends lib (bc_chain_state bc) number best" using extends_of_mined assms(2) mined(2,3) by blast
    then show ?thesis using that admitted(1-4) mined(1) mined_outcome_state [OF mined(4)] by auto
  qed (use admitted in auto)
qed auto

lemma map_entry_localize_logs [simp]: "map entry (localize_logs n h th ls) = ls"
  by (simp add: localize_logs_def case_prod_beta comp_def)

lemma get_txn_by_number_eq:
  "get_txn_by_number_and_index bc n k =
     map_ok (\<lambda>cs. Option.bind (cs_get_block_by_number cs n) (\<lambda>b. vec_get (eb_transactions b) (unat k))) (read_state bc)"
  by (simp add: get_txn_by_number_and_index_def cs_get_block_by_number_def)

text \<open>What a mined transaction leaves in the chain state.\<close>

lemma mined_chain_state:
  assumes "reachable (chain_start lib) (chain_step lib) (bc, w)" and "room lib (bc_chain_state bc)"
    and "send_raw_transaction lib io bc w raw = (Ok (h, res), bc', w')"
  obtains b t r where
    "abs_chain (bc_chain_state bc') = abs_chain (bc_chain_state bc) @ [b]"
    "eb_parent_hash b = eb_hash (last (abs_chain (bc_chain_state bc)))"
    "eb_transactions b = [t]" "ut_hash (lt_signed t) = h" "lt_block_hash t = eb_hash b"
    "eb_gas_used b = er_gas_used res" "map entry (eb_logs b) = er_logs res"
    "cs_block_number (bc_chain_state bc') = cs_block_number (bc_chain_state bc) + 1"
    "cs_get_block_by_number (bc_chain_state bc') (cs_block_number (bc_chain_state bc) + 1) = Some b"
    "cs_blocks (bc_chain_state bc') (eb_hash b) = Some b"
    "cs_transactions (bc_chain_state bc') h = Some t"
    "cs_receipts (bc_chain_state bc') h = Some r" "receipt_of r t b" "\<not> bc_poisoned bc'"
proof -
  let ?cs = "bc_chain_state bc"
  obtain txn best number ts rc where m: "h = ut_hash (st_transaction txn)" "extends lib ?cs number best"
    "bc' = stored lib bc txn number ts best rc" "er_gas_used res = rc_gas_used rc" "er_logs res = rc_logs rc"
    "\<not> bc_poisoned bc"
    using send_mined [OF assms(3,2)] by metis
  have inv: "blocks_inv lib ?cs" using assms(1) by (rule reachable_blocks_inv)
  let ?b = "mined_block lib (bc_block_gas_limit bc) number ts (eb_hash best) txn rc"
  let ?t = "mined_transaction lib number txn"
  let ?r = "localize_receipt lib number (number_hash lib number) txn rc (eb_logs ?b)"
  have n: "number = cs_block_number ?cs + 1" using m(2) by (simp add: extends_def)
  have cs': "bc_chain_state bc' = store_block lib (bc_block_gas_limit bc) number ts best txn rc ?cs"
    using m(3) by simp
  show ?thesis
  proof (rule that [of ?b ?t ?r])
    show "abs_chain (bc_chain_state bc') = abs_chain ?cs @ [?b]"
      unfolding cs' using inv m(2) by (rule abs_chain_store)
    show "eb_parent_hash ?b = eb_hash (last (abs_chain ?cs))"
      using last_abs_chain [OF inv] m(2) by (simp add: extends_def mined_block_def)
    show "eb_transactions ?b = [?t]" "ut_hash (lt_signed ?t) = h" "lt_block_hash ?t = eb_hash ?b"
      "eb_gas_used ?b = er_gas_used res" "map entry (eb_logs ?b) = er_logs res"
      using m by (simp_all add: mined_block_def mined_transaction_def)
    show "cs_block_number (bc_chain_state bc') = cs_block_number ?cs + 1" unfolding cs' using n by simp
    show "cs_get_block_by_number (bc_chain_state bc') (cs_block_number ?cs + 1) = Some ?b"
      unfolding cs' n [symmetric] by (rule store_block_latest)
    show "cs_blocks (bc_chain_state bc') (eb_hash ?b) = Some ?b" "cs_transactions (bc_chain_state bc') h = Some ?t"
      "cs_receipts (bc_chain_state bc') h = Some ?r"
      unfolding cs' using m(1) by (simp_all add: store_block_eq mined_block_def)
    show "receipt_of ?r ?t ?b"
      by (simp add: receipt_of_def localize_receipt_def mined_transaction_def mined_block_def Let_def)
    show "\<not> bc_poisoned bc'" using m(3,6) by simp
  qed
qed

text \<open>
  C1. A successful submission appends exactly one block to the chain: it follows the previous
  last block, holds exactly the submitted transaction and the logs of its execution, and at once
  the transaction is found by its hash and by its position, and its receipt by its hash, all
  naming the same block.
\<close>

theorem mining_appends_block:
  assumes "reachable (chain_start lib) (chain_step lib) (bc, w)" and "room lib (bc_chain_state bc)"
    and "send_raw_transaction lib io bc w raw = (Ok (h, res), bc', w')"
  shows "\<exists>b t r. abs_chain (bc_chain_state bc') = abs_chain (bc_chain_state bc) @ [b]
    \<and> eb_parent_hash b = eb_hash (last (abs_chain (bc_chain_state bc)))
    \<and> block_transactions b = [t] \<and> ut_hash (lt_signed t) = h
    \<and> eb_gas_used b = er_gas_used res \<and> map entry (eb_logs b) = er_logs res
    \<and> get_block bc' Latest = Ok (Some b) \<and> get_block bc' (Hash (block_hash b)) = Ok (Some b)
    \<and> get_txn_by_hash bc' h = Ok (Some t) \<and> get_txn bc' Latest 0 = Ok (Some t)
    \<and> get_txn bc' (Hash (block_hash b)) 0 = Ok (Some t)
    \<and> get_txn_receipt_by_hash bc' h = Ok (Some r) \<and> receipt_of r t b
    \<and> best_block_number bc' = Ok (cs_block_number (bc_chain_state bc) + 1)"
proof -
  obtain b t r where m:
    "abs_chain (bc_chain_state bc') = abs_chain (bc_chain_state bc) @ [b]"
    "eb_parent_hash b = eb_hash (last (abs_chain (bc_chain_state bc)))"
    "eb_transactions b = [t]" "ut_hash (lt_signed t) = h"
    "eb_gas_used b = er_gas_used res" "map entry (eb_logs b) = er_logs res"
    "cs_block_number (bc_chain_state bc') = cs_block_number (bc_chain_state bc) + 1"
    "cs_get_block_by_number (bc_chain_state bc') (cs_block_number (bc_chain_state bc) + 1) = Some b"
    "cs_blocks (bc_chain_state bc') (eb_hash b) = Some b"
    "cs_transactions (bc_chain_state bc') h = Some t"
    "cs_receipts (bc_chain_state bc') h = Some r" "receipt_of r t b" "\<not> bc_poisoned bc'"
    by (rule mined_chain_state [OF assms])
  then show ?thesis
    by (intro exI [of _ b] exI [of _ t] exI [of _ r])
       (simp add: block_transactions_def get_block_by_hash_def get_latest_block_def get_txn_by_hash_def
         get_txn_by_number_eq get_txn_by_block_hash_and_index_def get_txn_receipt_by_hash_def
         best_block_number_def block_hash_def vec_get_def read_state_def)
qed

theorem mining_appends_block_witness:
  "\<exists>res bc' w' b. send_raw_transaction sample_chain sample_io (fst (sample_node [])) (snd (sample_node [])) [1] = (Ok ([1], res), bc', w')
   \<and> abs_chain (bc_chain_state bc') = abs_chain (bc_chain_state (fst (sample_node []))) @ [b]"
proof -
  obtain res bc' where s: "send_raw_transaction sample_chain sample_io (fst (sample_node [])) (snd (sample_node [])) [1]
      = (Ok ([1], res), bc', snd (sample_node []))"
    using sample_mine [of "[1]"] by auto
  have "room sample_chain (bc_chain_state (fst (sample_node [])))" by (simp add: room_def)
  from mining_appends_block [OF sample_reachable this s] s show ?thesis by blast
qed

text \<open>
  C6. History never changes: whatever happens later, as long as the node has not stopped, a block
  that was once returned for a number or a hash is returned for it again.
\<close>

theorem history_is_immutable:
  assumes "reachable (chain_start lib) (chain_step lib) (bc, w)" and "(chain_step lib)\<^sup>*\<^sup>* (bc, w) (bc', w')"
    and "\<not> bc_poisoned bc'"
  shows "(get_block_by_number bc n = Ok (Some b) \<longrightarrow> get_block_by_number bc' n = Ok (Some b))
    \<and> (get_block_by_hash bc h = Ok (Some b) \<longrightarrow> get_block_by_hash bc' h = Ok (Some b))
    \<and> cs_block_number (bc_chain_state bc) \<le> cs_block_number (bc_chain_state bc')"
proof -
  have g: "chain_grows (bc, w) (bc', w')" using cg.reachable_steps_grow [OF assms(1,2)] .
  then have le: "cs_blocks (bc_chain_state bc) \<subseteq>\<^sub>m cs_blocks (bc_chain_state bc')"
    "cs_block_number_to_hash (bc_chain_state bc) \<subseteq>\<^sub>m cs_block_number_to_hash (bc_chain_state bc')"
    by (simp_all add: chain_grows_def)
  then have "cs_get_block_by_number (bc_chain_state bc) n = Some b
      \<Longrightarrow> cs_get_block_by_number (bc_chain_state bc') n = Some b"
    by (auto simp: cs_get_block_by_number_def bind_eq_Some_conv dest: map_le_SomeD)
  with map_le_SomeD [OF le(1), of h b] show ?thesis
    using assms(3) g by (auto simp: get_block_by_number_def get_block_by_hash_def read_state_def chain_grows_def)
qed

theorem history_is_immutable_witness:
  "\<exists>bc' w' b. (chain_step sample_chain)\<^sup>*\<^sup>* (sample_node []) (bc', w') \<and> \<not> bc_poisoned bc'
    \<and> get_block_by_number bc' 0 = (Ok (Some b) :: (ethereum_block option, string) outcome)"
proof -
  let ?bc = "fst (sample_node [])" and ?w = "snd (sample_node [])"
  obtain res bc' where s: "send_raw_transaction sample_chain sample_io ?bc ?w [1] = (Ok ([1], res), bc', ?w)"
    and p: "\<not> bc_poisoned bc'" using sample_mine [of "[1]"] by auto
  have "chain_step sample_chain (?bc, ?w) (bc', ?w)" by (rule chain_step.step_send [OF _ s]) (simp add: room_def)
  then have steps: "(chain_step sample_chain)\<^sup>*\<^sup>* (?bc, ?w) (bc', ?w)" by blast
  obtain b where "get_block_by_number ?bc 0 = (Ok (Some b) :: (ethereum_block option, string) outcome)"
    using chain.block_found [OF reachable_blocks_inv [OF sample_reachable, of "[]"], of 0] sample_node_start(2)
    by (auto simp: get_block_by_number_def read_state_def)
  with history_is_immutable [OF sample_reachable steps p] steps p show ?thesis by (metis prod.collapse)
qed

text \<open>
  C22. A refused transaction leaves no trace in the chain: if the submission fails with an error,
  the chain is unchanged, and if it is not even executed (it does not decode, asks for more gas
  than a block has, is not signed or offers too little for the gas) nothing else changes either;
  a transaction that does change the chain passed all of these checks.
\<close>

theorem refused_transaction_changes_nothing:
  assumes "send_raw_transaction lib io bc w raw = (r, bc', w')"
  shows "(r = Err e \<longrightarrow> bc' = bc)
    \<and> (rlp_decode lib raw = None \<or> Option.bind (rlp_decode lib raw) (signed_new lib) = None \<longrightarrow> bc' = bc \<and> w' = w \<and> (\<exists>e. r = Err e))
    \<and> (bc' \<noteq> bc \<longrightarrow> (\<exists>decoded txn. rlp_decode lib raw = Some decoded \<and> signed_new lib decoded = Some txn
         \<and> tx_gas (as_unsigned decoded) \<le> bc_block_gas_limit bc
         \<and> bc_gas_price bc \<le> tx_gas_price (as_unsigned (st_transaction txn))))"
  using assms
proof (cases rule: send_raw_transaction_cases)
  case (admitted decoded txn)
  have "r = Err e \<longrightarrow> bc' = bc"
    using admitted(5) by (cases rule: mine_block_cases) (auto dest: mined_outcome_state)
  with admitted show ?thesis by auto
qed auto

theorem refused_transaction_changes_nothing_witness:
  "send_raw_transaction sample_chain sample_io (fst (sample_node [])) (snd (sample_node [])) []
    = (Err ''bad nonce'', fst (sample_node []), snd (sample_node []))"
proof -
  let ?bc = "fst (sample_node [])" and ?w = "snd (sample_node [])"
  obtain bc' where s: "send_raw_transaction sample_chain sample_io ?bc ?w [] = (Err ''bad nonce'', bc', ?w)"
    using sample_send [of "[]"] by (simp only: if_True simp_thms)
  with refused_transaction_changes_nothing [OF s, of "''bad nonce''"] show ?thesis by blast
qed

lemma poisoned_queries:
  assumes "bc_poisoned bc"
  shows poisoned_read_state: "read_state bc = Panic"
    and poisoned_get_block: "get_block bc i = Panic" and poisoned_get_txn: "get_txn bc i k = Panic"
proof -
  show "read_state bc = Panic" using assms by (simp add: read_state_def)
  show "get_block bc i = Panic" using assms
    by (cases i) (simp_all add: get_block_by_hash_def get_block_by_number_def get_latest_block_def read_state_def)
  show "get_txn bc i k = Panic" using assms
    by (cases i) (simp_all add: get_txn_by_block_hash_and_index_def get_txn_by_number_and_index_def
        best_block_number_def read_state_def)
qed

text \<open>
  C13. A panic during mining stops the node for good: the lock is poisoned, every query of the
  chain panics from then on, and no later submission is mined or changes anything.
\<close>

theorem panic_stops_the_node:
  assumes "send_raw_transaction lib io bc w raw = (Panic, bc', w')"
  shows "bc_poisoned bc'
    \<and> best_block_number bc' = Panic \<and> get_block bc' i = Panic \<and> get_latest_block bc' = Panic
    \<and> get_txn_by_hash bc' h = Panic \<and> get_txn bc' i k = Panic \<and> get_txn_receipt_by_hash bc' h = Panic
    \<and> state_at lib w2 bc' i = Panic \<and> simulate_transaction lib io2 bc' w2 txn i = Panic \<and> logs lib bc' flt = Panic
    \<and> (\<exists>r. send_raw_transaction lib io2 bc' w2 raw2 = (r, bc', w2) \<and> \<not> is_ok r)"
proof -
  have p: "bc_poisoned bc'"
    using assms
  proof (cases rule: send_raw_transaction_cases)
    case (admitted decoded txn)
    from admitted(5) show ?thesis
      by (cases rule: mine_block_cases) (auto dest: mined_outcome_state)
  qed simp
  then have "\<exists>r. send_raw_transaction lib io2 bc' w2 raw2 = (r, bc', w2) \<and> \<not> is_ok r"
    by (simp add: send_raw_transaction_def mine_block_def split: option.split)
  with p show ?thesis
    by (simp add: best_block_number_def get_latest_block_def get_txn_by_hash_def get_txn_receipt_by_hash_def
        state_at_def simulate_transaction_def logs_def logs_between_def poisoned_queries)
qed

theorem panic_stops_the_node_witness:
  "\<exists>bc' w'. send_raw_transaction sample_chain sample_io (fst (sample_node [])) (snd (sample_node [])) [255] = (Panic, bc', w')
    \<and> get_latest_block bc' = (Panic :: (ethereum_block, string) outcome)"
proof -
  obtain bc' w' where s: "send_raw_transaction sample_chain sample_io (fst (sample_node [])) (snd (sample_node [])) [255]
      = (Panic, bc', w')"
    using sample_send [of "[255]"] by simp
  with panic_stops_the_node [OF s] show ?thesis by blast
qed

text \<open>
  C14. Receipts and transactions agree: in every reachable state a transaction has a receipt exactly
  if it is stored; the transaction is the one in the block it names, at the index it names, and
  the receipt names the same block and index and carries the logs, the gas and the bloom of that
  block.
\<close>

theorem receipts_match_transactions:
  assumes "reachable (chain_start lib) (chain_step lib) (bc, w)" and "\<not> bc_poisoned bc"
  shows "case cs_transactions (bc_chain_state bc) h of
      None \<Rightarrow> get_txn_receipt_by_hash bc h = Ok None
    | Some t \<Rightarrow> ut_hash (lt_signed t) = h
        \<and> (\<exists>r b. get_txn_receipt_by_hash bc h = Ok (Some r) \<and> get_block bc (Hash (lt_block_hash t)) = Ok (Some b)
             \<and> get_block bc (Number (lt_block_number t)) = Ok (Some b)
             \<and> get_txn bc (Number (lr_block_number r)) (of_nat (lr_transaction_index r)) = Ok (Some t) \<and> receipt_of r t b)"
proof (cases "cs_transactions (bc_chain_state bc) h")
  case None
  have "receipts_inv (bc_chain_state bc)" using reachable_chain_inv [OF assms(1)] by (simp add: chain_inv_def)
  with None have "cs_receipts (bc_chain_state bc) h = None" unfolding receipts_inv_def by (metis domIff)
  with None assms(2) show ?thesis by (simp add: get_txn_receipt_by_hash_def read_state_def)
next
  case (Some t)
  let ?cs = "bc_chain_state bc"
  have inv: "blocks_inv lib ?cs" "transactions_inv ?cs" "receipts_inv ?cs"
    using reachable_chain_inv [OF assms(1)] by (simp_all add: chain_inv_def)
  obtain r b where r: "cs_receipts ?cs h = Some r" "cs_blocks ?cs (lt_block_hash t) = Some b" "receipt_of r t b"
    using inv(3) Some unfolding receipts_inv_def by blast
  have t: "ut_hash (lt_signed t) = h" "eb_transactions b = [t]"
    using inv(2) Some r(2) unfolding transactions_inv_def by (metis option.inject)+
  note sb = stored_block [OF inv(1) r(2)]
  have tb: "lt_block_number t = eb_number b" "lt_transaction_index t = 0"
    using sb(5) t(2) unfolding block_content_def by (auto split: if_splits)
  have num: "cs_get_block_by_number ?cs (eb_number b) = Some b"
    using get_block_iff [OF inv(1)] sb r(2) by simp
  have "lr_block_number r = eb_number b" "lr_transaction_index r = 0"
    using r(3) tb by (simp_all add: receipt_of_def)
  with assms(2) Some r t tb num show ?thesis
    by (simp add: get_txn_receipt_by_hash_def get_block_by_hash_def get_block_by_number_def read_state_def
        get_txn_by_number_eq vec_get_def)
qed

theorem receipts_match_transactions_witness:
  "\<exists>bc' w' t r. reachable (chain_start sample_chain) (chain_step sample_chain) (bc', w') \<and> \<not> bc_poisoned bc'
    \<and> cs_transactions (bc_chain_state bc') [1] = Some t
    \<and> get_txn_receipt_by_hash bc' [1] = (Ok (Some r) :: (localized_receipt option, string) outcome)"
proof -
  let ?bc = "fst (sample_node [])" and ?w = "snd (sample_node [])"
  obtain res bc' where s: "send_raw_transaction sample_chain sample_io ?bc ?w [1] = (Ok ([1], res), bc', ?w)"
    and p: "\<not> bc_poisoned bc'" using sample_mine [of "[1]"] by auto
  have room: "room sample_chain (bc_chain_state ?bc)" by (simp add: room_def)
  have r: "reachable (chain_start sample_chain) (chain_step sample_chain) (bc', ?w)"
    by (rule reachable.reachable_step [OF sample_reachable chain_step.step_send [OF room s]])
  obtain txn number ts best rc where "[1] = ut_hash (st_transaction txn)"
    "bc' = stored sample_chain ?bc txn number ts best rc"
    using send_mined [OF s room] by metis
  then obtain t where t: "cs_transactions (bc_chain_state bc') [1] = Some t" by (simp add: store_block_eq)
  with receipts_match_transactions [OF r p, of "[1]"] r p show ?thesis by auto
qed

end
