(* ===== verification/Chain_Logs.thy ===== *)
theory Chain_Logs
  imports Chain_Properties
begin

text \<open>
  Log queries of \<open>src/blockchain.rs\<close>, also when blocks are mined while a query runs.
\<close>

lemma log_block_number: "l \<in> set (localize_logs n h th ls) \<Longrightarrow> ll_block_number l = n"
  by (auto simp: localize_logs_def)

lemma block_logs_number:
  assumes "block_content b" and "l \<in> set (eb_logs b)"
  shows "ll_block_number l = eb_number b"
  using assms by (auto simp: block_content_def log_block_number split: if_splits)

lemma sorted_logs:
  assumes "\<And>b. b \<in> set bs \<Longrightarrow> block_content b" and "sorted (map eb_number bs)"
  shows "sorted (map ll_block_number (filter P (concat (map eb_logs bs))))"
  using assms
proof (induction bs)
  case (Cons b bs)
  have "sorted (map ll_block_number (filter P (eb_logs b)))"
  proof -
    have "map ll_block_number (filter P (eb_logs b)) = map (\<lambda>_. eb_number b) (filter P (eb_logs b))"
      by (rule map_cong) (use block_logs_number [of b] Cons.prems(1) in auto)
    then show ?thesis by (simp add: map_replicate_const)
  qed
  moreover have "ll_block_number x \<le> ll_block_number y" if "x \<in> set (eb_logs b)" "c \<in> set bs" "y \<in> set (eb_logs c)" for x y c
    using that block_logs_number [of b x] block_logs_number [of c y] Cons.prems by auto
  ultimately show ?case using Cons by (auto simp: sorted_append)
qed simp

text \<open>The blocks with numbers in a range.\<close>

definition chain_slice :: "chain_state \<Rightarrow> u64 \<Rightarrow> u64 \<Rightarrow> ethereum_block list" where
  "chain_slice cs lo hi = drop (unat lo) (take (Suc (unat hi)) (abs_chain cs))"

lemma drop_take_upt: "hi \<le> n \<Longrightarrow> drop lo (take hi [0 ..< n]) = [lo ..< hi]"
  by (simp add: take_upt drop_upt)

lemma chain_slice_eq:
  assumes "hi \<le> cs_block_number cs"
  shows "chain_slice cs lo hi = map (\<lambda>n. the (cs_get_block_by_number cs n)) (block_range lo hi)"
proof -
  have "Suc (unat hi) \<le> Suc (unat (cs_block_number cs))" using assms by (simp add: word_le_nat_alt)
  then show ?thesis
    unfolding chain_slice_def abs_chain_def block_range_def
    by (simp only: take_map drop_map drop_take_upt unat_0)
qed

lemma chain_slice_blocks:
  assumes "blocks_inv lib cs" and "hi \<le> cs_block_number cs"
  shows "map eb_number (chain_slice cs lo hi) = block_range lo hi"
    "b \<in> set (chain_slice cs lo hi) \<Longrightarrow> block_content b"
proof -
  have le: "n \<in> set (block_range lo hi) \<Longrightarrow> n \<le> cs_block_number cs" for n
    using assms(2) by (auto simp: set_block_range)
  then show "map eb_number (chain_slice cs lo hi) = block_range lo hi"
    unfolding chain_slice_eq [OF assms(2)] using assms(1) by (rule chain.nums_of_blocks [rotated])
  assume "b \<in> set (chain_slice cs lo hi)"
  then have "b \<in> set (abs_chain cs)" unfolding chain_slice_def by (meson in_set_dropD in_set_takeD)
  then show "block_content b" using abs_chain_block(5) [OF assms(1)] by (auto simp: in_set_conv_nth)
qed

text \<open>A block that one state has is the same in every later state.\<close>

lemma grown_lookup:
  assumes "chain_grows s t" and "blocks_inv lib (bc_chain_state (fst s))" and "n \<le> cs_block_number (bc_chain_state (fst s))"
  shows "cs_get_block_by_number (bc_chain_state (fst t)) n = cs_get_block_by_number (bc_chain_state (fst s)) n"
proof -
  obtain b where b: "cs_get_block_by_number (bc_chain_state (fst s)) n = Some b"
    using chain.block_found [OF assms(2,3)] by blast
  then have "cs_get_block_by_number (bc_chain_state (fst t)) n = Some b"
    using assms(1) by (auto simp: chain_grows_def cs_get_block_by_number_def bind_eq_Some_conv dest: map_le_SomeD)
  with b show ?thesis by simp
qed

lemma found_number:
  assumes "blocks_inv lib (bc_chain_state bc)" and "get_block bc i = Ok (Some b)"
  shows "eb_number b \<le> cs_block_number (bc_chain_state bc)"
proof -
  have "\<exists>h. cs_blocks (bc_chain_state bc) h = Some b"
    using assms(2)
    by (cases i) (auto simp: get_block_by_hash_def get_block_by_number_def get_latest_block_def read_state_def
        cs_get_block_by_number_def bind_eq_Some_conv dest!: sym [of "Some b"] split: if_splits, blast+)
  with stored_block(1) [OF assms(1)] show ?thesis by blast
qed

lemma logs_between_eq:
  assumes "reachable (chain_start lib) (chain_step lib) (bc1, w1)" and "(chain_step lib)\<^sup>*\<^sup>* (bc1, w1) (bc2, w2)"
    and "\<And>n. \<exists>w. (chain_step lib)\<^sup>*\<^sup>* (bc2, w2) (at n, w) \<and> \<not> bc_poisoned (at n)"
    and "get_block bc1 (from_block flt) = (Ok (Some fb) :: (ethereum_block option, string) outcome)"
    and "get_block bc2 (to_block flt) = (Ok (Some tb) :: (ethereum_block option, string) outcome)"
  shows "logs_between lib bc1 bc2 at flt =
    Ok (filter (\<lambda>l. filter_matches lib flt (entry l))
         (concat (map eb_logs (chain_slice (bc_chain_state bc2) (number_u64 fb) (number_u64 tb)))))"
proof -
  let ?cs = "bc_chain_state bc2" and ?R = "block_range (number_u64 fb) (number_u64 tb)"
  have "reachable (chain_start lib) (chain_step lib) (bc2, w2)"
    by (rule reachable_steps [OF assms(2,1)])
  note r2 = this and inv = reachable_blocks_inv [OF this]
  have tb: "number_u64 tb \<le> cs_block_number ?cs" using found_number [OF inv assms(5)] by (simp add: number_u64_def)
  have rd: "read_block (at n) n = Ok (the (cs_get_block_by_number ?cs n))" if "n \<in> set ?R" for n
  proof -
    have n: "n \<le> cs_block_number ?cs" using that tb by (auto simp: set_block_range)
    obtain w where "(chain_step lib)\<^sup>*\<^sup>* (bc2, w2) (at n, w)" and np: "\<not> bc_poisoned (at n)" using assms(3) by blast
    then have "chain_grows (bc2, w2) (at n, w)" using cg.reachable_steps_grow [OF r2] by blast
    from grown_lookup [OF this, of lib n] inv n chain.block_found [OF inv n] np show ?thesis
      by (auto simp: read_block_def read_state_def)
  qed
  have "try_map (\<lambda>n. read_block (at n) n) ?R = (Ok (chain_slice ?cs (number_u64 fb) (number_u64 tb)) :: (_, string) outcome)"
    unfolding chain_slice_eq [OF tb] by (rule try_map_all_Ok) (rule rd)
  moreover have "sorted (map eb_number (chain_slice ?cs (number_u64 fb) (number_u64 tb)))"
    using chain_slice_blocks(1) [OF inv tb] block_range_strict_sorted strict_sorted_iff by metis
  note sorted_logs [OF chain_slice_blocks(2) [OF inv tb] this]
  ultimately show ?thesis
    using assms(4,5) by (simp add: logs_between_def sort_key_id_if_sorted)
qed

section \<open>Properties\<close>

text \<open>
  C7. A log query returns the logs of exactly the blocks from the one its filter starts at to the
  one it ends at, in chain order, filtered; this holds also when transactions are mined between
  the resolution of the two ends and the reading of the blocks, as long as no panic stops the
  node, and the query itself never panics.
\<close>

theorem logs_query_is_consistent:
  assumes "reachable (chain_start lib) (chain_step lib) (bc1, w1)" and "(chain_step lib)\<^sup>*\<^sup>* (bc1, w1) (bc2, w2)"
    and "\<And>n. \<exists>w. (chain_step lib)\<^sup>*\<^sup>* (bc2, w2) (at n, w) \<and> \<not> bc_poisoned (at n)"
    and "get_block bc1 (from_block flt) = (Ok (Some fb) :: (ethereum_block option, string) outcome)"
    and "get_block bc2 (to_block flt) = (Ok (Some tb) :: (ethereum_block option, string) outcome)"
  shows "logs_between lib bc1 bc2 at flt =
    Ok (filter (\<lambda>l. filter_matches lib flt (entry l))
         (concat (map eb_logs (chain_slice (bc_chain_state bc2) (number_u64 fb) (number_u64 tb)))))"
  using assms by (rule logs_between_eq)

definition all_logs :: log_filter where
  "all_logs = \<lparr>from_block = Earliest, to_block = Latest, f_address = None, f_topics = [], f_limit = None\<rparr>"

theorem logs_query_is_consistent_witness:
  "logs sample_chain (fst (sample_node [])) all_logs =
    Ok (filter (\<lambda>l. filter_matches sample_chain all_logs (entry l))
         (concat (map eb_logs (chain_slice (bc_chain_state (fst (sample_node []))) 0 0))))"
proof -
  let ?bc = "fst (sample_node [])" and ?w = "snd (sample_node [])"
  have inv: "blocks_inv sample_chain (bc_chain_state ?bc)" by (rule reachable_blocks_inv [OF sample_reachable])
  obtain b where b: "cs_get_block_by_number (bc_chain_state ?bc) 0 = Some b" "eb_number b = 0"
    using chain.block_found [OF inv, of 0] by auto
  have g: "get_block ?bc (from_block all_logs) = (Ok (Some b) :: (ethereum_block option, string) outcome)"
    "get_block ?bc (to_block all_logs) = (Ok (Some b) :: (ethereum_block option, string) outcome)"
    using b sample_node_start(2,5)
    by (simp_all add: all_logs_def get_block_by_number_def get_latest_block_def read_state_def)
  have "\<And>n :: u64. \<exists>w. (chain_step sample_chain)\<^sup>*\<^sup>* (?bc, ?w) ((\<lambda>_. ?bc) n, w) \<and> \<not> bc_poisoned ((\<lambda>_. ?bc) n)"
    using sample_node_start(2) by (intro exI [of _ ?w]) simp
  from logs_query_is_consistent [OF sample_reachable rtranclp.rtrancl_refl this g] b(2)
  show ?thesis by (simp add: logs_def number_u64_def)
qed

text \<open>
  If a filter names a block that does not exist, the query fails with an error and does not
  panic.
\<close>

theorem logs_unknown_block:
  assumes "reachable (chain_start lib) (chain_step lib) (bc, w)" and "\<not> bc_poisoned bc"
    and "get_block bc (from_block flt) = (Ok None :: (ethereum_block option, string) outcome)
       \<or> get_block bc (to_block flt) = (Ok None :: (ethereum_block option, string) outcome)"
  shows "logs lib bc flt = Err ''block not found''"
proof -
  obtain best where best: "cs_get_block_by_number (bc_chain_state bc) (cs_block_number (bc_chain_state bc)) = Some best"
    using chain.block_found [OF reachable_blocks_inv [OF assms(1)] order_refl] by blast
  have "\<exists>b. get_block bc i = (Ok b :: (ethereum_block option, string) outcome)" for i
    using best assms(2)
    by (cases i) (simp_all add: get_block_by_hash_def get_block_by_number_def get_latest_block_def read_state_def)
  then obtain f t where ft: "get_block bc (from_block flt) = (Ok f :: (ethereum_block option, string) outcome)"
    "get_block bc (to_block flt) = (Ok t :: (ethereum_block option, string) outcome)" by blast
  show ?thesis
    using assms(3) ft by (cases f; cases t) (auto simp: logs_def logs_between_def)
qed

theorem logs_unknown_block_witness:
  "logs sample_chain (fst (sample_node [])) (all_logs\<lparr>to_block := Number 7\<rparr>) = Err ''block not found''"
proof -
  have inv: "blocks_inv sample_chain (bc_chain_state (fst (sample_node [])))"
    by (rule reachable_blocks_inv [OF sample_reachable])
  have "get_block (fst (sample_node [])) (to_block (all_logs\<lparr>to_block := Number 7\<rparr>))
      = (Ok None :: (ethereum_block option, string) outcome)"
    using sample_node_start(2,5) get_block_iff [OF inv, of 7]
    by (simp add: get_block_by_number_def read_state_def)
  from logs_unknown_block [OF sample_reachable sample_node_start(2) disjI2 [OF this]] show ?thesis .
qed

end
