(* ===== verification/Pubsub.thy ===== *)
theory Pubsub
  imports Chain_Logs
begin

text \<open>
  \<open>src/pubsub.rs\<close>: the broker that tells its listeners about new blocks at every tick of a timer.
  A listener is a weak reference: \<open>alive\<close> tells whether it can still be upgraded.  A notification is
  the triple of the listener and the first and last block number it is told about.
\<close>

section \<open>The broker\<close>

record 'l broker =
  last_notified_block :: u64
  listeners :: "'l list"

definition broker_new :: "'l broker" where
  "broker_new = \<lparr>last_notified_block = 0, listeners = []\<rparr>"

definition add_listener :: "'l broker \<Rightarrow> 'l \<Rightarrow> 'l broker" where
  "add_listener br l = br\<lparr>listeners := listeners br @ [l]\<rparr>"

text \<open>
  The closure that runs at each tick of \<open>start\<close>, given the number \<open>to\<close> of the latest block.  The addition
  cannot overflow, because there is a larger number.
\<close>

definition notify_difference ::
  "('l \<Rightarrow> bool) \<Rightarrow> 'l broker \<Rightarrow> u64 \<Rightarrow> ('l \<times> u64 \<times> u64) list \<times> 'l broker" where
  "notify_difference alive br to =
     (if to \<le> last_notified_block br then ([], br)
      else let frm = last_notified_block br + 1
           in (map (\<lambda>l. (l, frm, to)) (filter alive (listeners br)), br\<lparr>last_notified_block := to\<rparr>))"

definition broker_tick ::
  "('l \<Rightarrow> bool) \<Rightarrow> blockchain \<Rightarrow> 'l broker \<Rightarrow> (('l \<times> u64 \<times> u64) list \<times> 'l broker, 'e) outcome" where
  "broker_tick alive bc br = map_ok (\<lambda>blk. notify_difference alive br (number_u64 blk)) (get_latest_block bc)"

text \<open>The ticks of \<open>start\<close>, each with the chain as it is then.\<close>

fun broker_run ::
  "('l \<Rightarrow> bool) \<Rightarrow> blockchain list \<Rightarrow> 'l broker \<Rightarrow> (('l \<times> u64 \<times> u64) list \<times> 'l broker, 'e) outcome" where
  "broker_run alive [] br = Ok ([], br)"
| "broker_run alive (bc # bcs) br =
     and_then (broker_tick alive bc br) (\<lambda>(ev, br').
     and_then (broker_run alive bcs br') (\<lambda>(evs, br''). Ok (ev @ evs, br'')))"

section \<open>Consumers of the chain\<close>

text \<open>
  A consumer that remembers the next block number it has not seen and is asked now and then with
  the latest number.  It promises to deliver exactly the unseen numbers and to remember them.
\<close>

fun poll_all :: "('s \<Rightarrow> u64 \<Rightarrow> u64 list \<times> 's) \<Rightarrow> 's \<Rightarrow> u64 list \<Rightarrow> u64 list \<times> 's" where
  "poll_all poll s [] = ([], s)"
| "poll_all poll s (n # ns) =
     (let (xs, s') = poll s n; (ys, s'') = poll_all poll s' ns in (xs @ ys, s''))"

locale block_cursor =
  fixes poll :: "'s \<Rightarrow> u64 \<Rightarrow> u64 list \<times> 's"
    and unseen :: "'s \<Rightarrow> u64"
    and invar :: "'s \<Rightarrow> bool"
  assumes poll_delivers: "invar s \<Longrightarrow> n \<noteq> - 1 \<Longrightarrow> unseen s \<le> n + 1 \<Longrightarrow> fst (poll s n) = block_range (unseen s) n"
    and poll_unseen: "invar s \<Longrightarrow> n \<noteq> - 1 \<Longrightarrow> unseen s \<le> n + 1 \<Longrightarrow> unseen (snd (poll s n)) = n + 1"
    and poll_invar: "invar s \<Longrightarrow> n \<noteq> - 1 \<Longrightarrow> unseen s \<le> n + 1 \<Longrightarrow> invar (snd (poll s n))"
begin

lemma exactly_once:
  assumes "invar s" and "sorted (n # ns)" and "- 1 \<notin> set (n # ns)" and "unseen s \<le> n + 1"
  shows "fst (poll_all poll s (n # ns)) = block_range (unseen s) (last (n # ns))
    \<and> unseen (snd (poll_all poll s (n # ns))) = last (n # ns) + 1 \<and> invar (snd (poll_all poll s (n # ns)))"
  using assms
proof (induction ns arbitrary: s n)
  case Nil
  then show ?case
    using poll_delivers [of s n] poll_unseen [of s n] poll_invar [of s n] by (auto simp: case_prod_beta)
next
  case (Cons m ns)
  let ?s = "snd (poll s n)"
  have n: "n \<noteq> - 1" "m \<noteq> - 1" "n \<le> m" using Cons.prems by auto
  have s: "fst (poll s n) = block_range (unseen s) n" "unseen ?s = n + 1" "invar ?s"
    using poll_delivers poll_unseen poll_invar Cons.prems n by auto
  have "n + 1 \<le> m + 1" using n by (intro successor_mono)
  then have IH: "fst (poll_all poll ?s (m # ns)) = block_range (n + 1) (last (m # ns))
      \<and> unseen (snd (poll_all poll ?s (m # ns))) = last (m # ns) + 1 \<and> invar (snd (poll_all poll ?s (m # ns)))"
    using Cons.IH [of ?s m] Cons.prems s by auto
  have le: "n \<le> last (m # ns)" using Cons.prems(2) by (auto simp: last_in_set)
  have "block_range (unseen s) n @ block_range (n + 1) (last (m # ns)) = block_range (unseen s) (last (m # ns))"
  proof (cases "n = last (m # ns)")
    case True
    then show ?thesis using block_range_empty [of n "n + 1"] successor_number(1) [OF n(1)] by simp
  next
    case False
    with le Cons.prems(4) show ?thesis by (intro block_range_append) auto
  qed
  with IH s show ?case by (simp add: case_prod_beta Let_def)
qed

end

section \<open>The broker as a consumer\<close>

definition numbers_for :: "'l \<Rightarrow> ('l \<times> u64 \<times> u64) list \<Rightarrow> u64 list" where
  "numbers_for l evs = concat (map (\<lambda>(_, frm, to). block_range frm to) (filter (\<lambda>(l', _, _). l' = l) evs))"

text \<open>What one tick tells the listener \<open>l\<close>, as a function of the latest number only.\<close>

definition broker_poll :: "('l \<Rightarrow> bool) \<Rightarrow> 'l \<Rightarrow> 'l broker \<Rightarrow> u64 \<Rightarrow> u64 list \<times> 'l broker" where
  "broker_poll alive l br n =
     (let (evs, br') = notify_difference alive br n in (numbers_for l evs, br'))"

definition registered :: "'l \<Rightarrow> 'l broker \<Rightarrow> bool" where
  "registered l br \<longleftrightarrow> filter (\<lambda>l'. l' = l) (listeners br) = [l] \<and> last_notified_block br \<noteq> - 1"

lemma numbers_for_append: "numbers_for l (xs @ ys) = numbers_for l xs @ numbers_for l ys"
  by (simp add: numbers_for_def)

lemma numbers_for_notified:
  "filter (\<lambda>l'. l' = l) ls = [l] \<Longrightarrow> alive l \<Longrightarrow>
     numbers_for l (map (\<lambda>l'. (l', frm, to)) (filter alive ls)) = block_range frm to"
proof -
  assume "filter (\<lambda>l'. l' = l) ls = [l]" and "alive l"
  then have "filter (\<lambda>l'. l' = l) (filter alive ls) = [l]"
    by (simp add: filter_filter conj_commute) (metis (mono_tags, lifting) filter_cong)
  then show ?thesis by (simp add: numbers_for_def filter_map comp_def)
qed

interpretation bp: block_cursor "broker_poll alive l" "\<lambda>br. last_notified_block br + 1"
    "\<lambda>br. alive l \<and> registered l br" for alive l
proof -
  have "fst (broker_poll alive l br n) = block_range (last_notified_block br + 1) n
      \<and> last_notified_block (snd (broker_poll alive l br n)) = n \<and> registered l (snd (broker_poll alive l br n))"
    if "alive l \<and> registered l br" "n \<noteq> - 1" "last_notified_block br + 1 \<le> n + 1" for br n
  proof (cases "n \<le> last_notified_block br")
    case True
    have "last_notified_block br \<noteq> - 1" using that(1) by (simp add: registered_def)
    with that(2,3) have "last_notified_block br \<le> n"
      using unat_successor [of n] unat_successor [of "last_notified_block br"] by (simp add: word_le_nat_alt)
    with True have "n = last_notified_block br" by simp
    then show ?thesis
      using that block_range_empty [of n "n + 1"] successor_number(1) [of n]
      by (simp add: broker_poll_def notify_difference_def numbers_for_def)
  next
    case False
    then show ?thesis
      using that numbers_for_notified [of l "listeners br" alive]
      by (simp add: broker_poll_def notify_difference_def Let_def registered_def)
  qed
  then show "block_cursor (broker_poll alive l) (\<lambda>br. last_notified_block br + 1) (\<lambda>br. alive l \<and> registered l br)"
    by unfold_locales auto
qed

text \<open>A run of ticks is a run of polls with the latest numbers.\<close>

definition best_numbers :: "(blockchain \<times> world) list \<Rightarrow> u64 list" where
  "best_numbers ss = map (\<lambda>s. cs_block_number (bc_chain_state (fst s))) ss"

lemma latest_block_number:
  assumes "reachable (chain_start lib) (chain_step lib) s" and "\<not> bc_poisoned (fst s)"
  shows "\<exists>b. get_latest_block (fst s) = Ok b \<and> number_u64 b = cs_block_number (bc_chain_state (fst s))"
proof -
  have "blocks_inv lib (bc_chain_state (fst s))"
    using reachable_blocks_inv [of lib "fst s" "snd s"] assms(1) by simp
  from chain.block_found [OF this order_refl] assms(2) show ?thesis
    by (auto simp: get_latest_block_def read_state_def number_u64_def)
qed

lemma broker_run_polls:
  assumes "\<And>s. s \<in> set ss \<Longrightarrow> reachable (chain_start lib) (chain_step lib) s \<and> \<not> bc_poisoned (fst s)"
  shows "\<exists>evs br'. broker_run alive (map fst ss) br = (Ok (evs, br') :: (_, string) outcome)
    \<and> poll_all (broker_poll alive l) br (best_numbers ss) = (numbers_for l evs, br')"
  using assms
proof (induction ss arbitrary: br)
  case (Cons s ss)
  let ?n = "cs_block_number (bc_chain_state (fst s))"
  obtain b where b: "get_latest_block (fst s) = (Ok b :: (ethereum_block, string) outcome)" "number_u64 b = ?n"
    using latest_block_number [of lib s] Cons.prems by auto
  obtain ev br1 where t: "notify_difference alive br ?n = (ev, br1)" by (meson surj_pair)
  obtain evs br' where r: "broker_run alive (map fst ss) br1 = (Ok (evs, br') :: (_, string) outcome)"
    "poll_all (broker_poll alive l) br1 (best_numbers ss) = (numbers_for l evs, br')"
    using Cons.IH [of br1] Cons.prems by auto
  moreover have "broker_poll alive l br ?n = (numbers_for l ev, br1)" using t by (simp add: broker_poll_def)
  ultimately show ?case
    using b t by (simp add: broker_tick_def best_numbers_def numbers_for_append)
qed (simp add: best_numbers_def numbers_for_def)

lemma successive_states:
  assumes "successively (\<lambda>s t. (chain_step lib)\<^sup>*\<^sup>* s t) (s # ss)" and "reachable (chain_start lib) (chain_step lib) s"
  shows "(\<forall>t \<in> set (s # ss). reachable (chain_start lib) (chain_step lib) t) \<and> sorted (best_numbers (s # ss))"
  using assms
proof (induction ss arbitrary: s)
  case (Cons t ss)
  have st: "(chain_step lib)\<^sup>*\<^sup>* s t" using Cons.prems(1) by simp
  then have rt: "reachable (chain_start lib) (chain_step lib) t"
    by (rule reachable_steps) (rule Cons.prems(2))
  have "cs_block_number (bc_chain_state (fst s)) \<le> cs_block_number (bc_chain_state (fst t))"
    using cg.reachable_steps_grow [OF Cons.prems(2) st] by (simp add: chain_grows_def)
  with Cons.IH [of t] Cons.prems rt show ?case by (auto simp: best_numbers_def)
qed (simp add: best_numbers_def)

text \<open>The concrete node mines a block with one log entry.\<close>

lemma sample_successor:
  "\<exists>bc' b. successively (\<lambda>s t. (chain_step sample_chain)\<^sup>*\<^sup>* s t) [sample_node [], (bc', snd (sample_node []))]
    \<and> \<not> bc_poisoned bc' \<and> cs_block_number (bc_chain_state bc') = 1
    \<and> cs_get_block_by_number (bc_chain_state bc') 1 = Some b \<and> length (eb_logs b) = 1"
proof -
  let ?s = "sample_node []" and ?txn = "\<lparr>st_transaction = sample_tx [1], st_sender = [1]\<rparr>"
  have room: "room sample_chain (bc_chain_state (fst ?s))" by (simp add: room_def)
  from sample_send [of "[1]"] obtain best res where
    m: "send_raw_transaction sample_chain sample_io (fst ?s) (snd ?s) [1] =
        (Ok ([1], res), stored sample_chain (fst ?s) ?txn 1 5 best sample_receipt, snd ?s)"
    by (auto simp: mined_outcome_def sample_receipt_def sample_tx_def Let_def)
  let ?bc = "stored sample_chain (fst ?s) ?txn 1 5 best sample_receipt"
  have "chain_step sample_chain (fst ?s, snd ?s) (?bc, snd ?s)" by (rule chain_step.step_send [OF room m])
  then have "successively (\<lambda>s t. (chain_step sample_chain)\<^sup>*\<^sup>* s t) [?s, (?bc, snd ?s)]" by auto
  moreover have "\<not> bc_poisoned ?bc" using sample_node_start(2) by (simp add: stored_def)
  moreover have "cs_block_number (bc_chain_state ?bc) = 1"
    "cs_get_block_by_number (bc_chain_state ?bc) 1 =
       Some (mined_block sample_chain (bc_block_gas_limit (fst ?s)) 1 5 (eb_hash best) ?txn sample_receipt)"
    by (simp_all add: stored_def store_block_eq cs_get_block_by_number_def)
  moreover have "length (eb_logs (mined_block sample_chain (bc_block_gas_limit (fst ?s)) 1 5 (eb_hash best) ?txn sample_receipt)) = 1"
    by (simp add: mined_block_def sample_receipt_def localize_logs_def)
  ultimately show ?thesis by blast
qed

text \<open>A registered listener that stays alive is told about every block exactly once.\<close>

lemma registered_told:
  assumes "successively (\<lambda>s t. (chain_step lib)\<^sup>*\<^sup>* s t) (s # ss)" and "reachable (chain_start lib) (chain_step lib) s"
    and "\<And>t. t \<in> set (s # ss) \<Longrightarrow> \<not> bc_poisoned (fst t) \<and> cs_block_number (bc_chain_state (fst t)) \<noteq> - 1"
    and "alive l \<and> registered l br" and "last_notified_block br = 0"
  shows "\<exists>evs br'. broker_run alive (map fst (s # ss)) br = (Ok (evs, br') :: (_, string) outcome)
    \<and> numbers_for l evs = block_range 1 (cs_block_number (bc_chain_state (fst (last (s # ss)))))"
proof -
  note ss = successive_states [OF assms(1,2)]
  obtain evs br' where run: "broker_run alive (map fst (s # ss)) br = (Ok (evs, br') :: (_, string) outcome)"
    "poll_all (broker_poll alive l) br (best_numbers (s # ss)) = (numbers_for l evs, br')"
    using broker_run_polls [of "s # ss" lib alive br l] ss assms(3) by blast
  obtain n ns where ns: "best_numbers (s # ss) = n # ns" by (simp add: best_numbers_def)
  have "- 1 \<notin> set (best_numbers (s # ss))"
    unfolding best_numbers_def set_map using assms(3) by (metis (no_types, lifting) imageE)
  then have ok: "- 1 \<notin> set (n # ns)" "sorted (n # ns)" using ns ss by simp_all
  have "last_notified_block br + 1 \<le> n + 1" using assms(5) successor_mono [of 0 n] ok(1) by auto
  from bp.exactly_once [of alive l, OF assms(4) ok(2,1) this] run(2) ns assms(5)
  have "numbers_for l evs = block_range 1 (last (best_numbers (s # ss)))" by simp
  moreover have "last (best_numbers (s # ss)) = cs_block_number (bc_chain_state (fst (last (s # ss))))"
    by (simp only: best_numbers_def) (subst last_map, simp_all)
  ultimately show ?thesis using run(1) by auto
qed

lemma add_listeners:
  "fold (\<lambda>l br. add_listener br l) ls br = br\<lparr>listeners := listeners br @ ls\<rparr>"
  by (induction ls arbitrary: br) (simp_all add: add_listener_def)

section \<open>Properties\<close>

text \<open>
  Every listener that is registered once with a fresh broker and stays alive is told about
  every block exactly once and in order: after any number of ticks over a growing chain, the
  numbers in its notifications are \<open>1, 2, ...\<close> up to the number that was the latest at the last tick.
\<close>

theorem listeners_see_every_block_once:
  assumes "successively (\<lambda>s t. (chain_step lib)\<^sup>*\<^sup>* s t) (s # ss)" and "reachable (chain_start lib) (chain_step lib) s"
    and "\<And>t. t \<in> set (s # ss) \<Longrightarrow> \<not> bc_poisoned (fst t) \<and> cs_block_number (bc_chain_state (fst t)) \<noteq> - 1"
    and "alive l" and "filter (\<lambda>l'. l' = l) ls = [l]"
  shows "\<exists>evs br'. broker_run alive (map fst (s # ss)) (fold (\<lambda>l br. add_listener br l) ls broker_new)
        = (Ok (evs, br') :: (_, string) outcome)
    \<and> numbers_for l evs = block_range 1 (cs_block_number (bc_chain_state (fst (last (s # ss)))))"
  by (rule registered_told [OF assms(1-3)]) (use assms(4,5) in \<open>simp_all add: add_listeners registered_def broker_new_def\<close>)

theorem listeners_see_every_block_once_witness:
  "\<exists>bc' evs br'. broker_run (\<lambda>_. True) [fst (sample_node []), bc'] (add_listener broker_new ''heads'') = (Ok (evs, br') :: (_, string) outcome)
    \<and> numbers_for ''heads'' evs = block_range 1 1"
proof -
  let ?s = "sample_node []"
  obtain bc' where succ: "successively (\<lambda>s t. (chain_step sample_chain)\<^sup>*\<^sup>* s t) [?s, (bc', snd ?s)]"
    and n: "\<not> bc_poisoned bc'" "cs_block_number (bc_chain_state bc') = 1" using sample_successor by blast
  have ok: "\<not> bc_poisoned (fst t) \<and> cs_block_number (bc_chain_state (fst t)) \<noteq> - 1"
    if "t \<in> set [?s, (bc', snd ?s)]" for t
    using that n sample_node_start by auto
  from listeners_see_every_block_once [OF succ sample_node_reachable ok, of "\<lambda>_. True" "''heads''" "[''heads'']"] n
  show ?thesis by (auto simp del: broker_run.simps)
qed

end
