(* ===== verification/Rpc_Apis.thy ===== *)
theory Rpc_Apis
  imports Pubsub "HOL-Library.Sublist"
begin

text \<open>
  \<open>src/rpc_apis.rs\<close>: the names of the APIs, the notation for a set of them, and the registration of
  the handlers of each API with an I/O handler.  A hash set of APIs is a set; where the code iterates
  over it the order is an argument.
\<close>

section \<open>API names and sets\<close>

datatype api = Web3 | Net | Eth | EthPubSub | Oasis

definition api_from_str :: "string \<Rightarrow> (api, string) outcome" where
  "api_from_str s =
     (if s = ''web3'' then Ok Web3
      else if s = ''net'' then Ok Net
      else if s = ''eth'' then Ok Eth
      else if s = ''pubsub'' then Ok EthPubSub
      else if s = ''oasis'' then Ok Oasis
      else Err (''Unknown api: '' @ s))"

datatype api_set = SafeContext | UnsafeContext | AllApis | ListApis "api set"

definition api_set_default :: api_set where
  "api_set_default = UnsafeContext"

fun list_apis :: "api_set \<Rightarrow> api set" where
  "list_apis (ListApis apis) = apis"
| "list_apis UnsafeContext = {Web3, Net, Eth, EthPubSub, Oasis}"
| "list_apis SafeContext = {Web3, Net, Eth, EthPubSub, Oasis}"
| "list_apis AllApis = {Web3, Net, Eth, EthPubSub, Oasis}"

definition api_set_eq :: "api_set \<Rightarrow> api_set \<Rightarrow> bool" where
  "api_set_eq s t \<longleftrightarrow> list_apis s = list_apis t"

text \<open>\<open>str::split\<close> with one character: there is always at least one piece.\<close>

fun split_on :: "char \<Rightarrow> string \<Rightarrow> string list" where
  "split_on c [] = [[]]"
| "split_on c (x # xs) =
     (if x = c then [] # split_on c xs
      else case split_on c xs of [] \<Rightarrow> [[x]] | w # ws \<Rightarrow> (x # w) # ws)"

text \<open>The body of the loop over the pieces, and the loop.\<close>

definition parse_api_token :: "string \<Rightarrow> api set \<Rightarrow> (api set, string) outcome" where
  "parse_api_token tok apis =
     (if tok = ''all'' then Ok (apis \<union> list_apis AllApis)
      else if tok = ''safe'' then Ok (apis \<union> list_apis UnsafeContext)
      else if prefix ''-'' tok then and_then (api_from_str (drop 1 tok)) (\<lambda>a. Ok (apis - {a}))
      else and_then (api_from_str tok) (\<lambda>a. Ok (insert a apis)))"

fun parse_api_tokens :: "string list \<Rightarrow> api set \<Rightarrow> (api set, string) outcome" where
  "parse_api_tokens [] apis = Ok apis"
| "parse_api_tokens (tok # toks) apis = and_then (parse_api_token tok apis) (parse_api_tokens toks)"

definition api_set_from_str :: "string \<Rightarrow> (api_set, string) outcome" where
  "api_set_from_str s = map_ok ListApis (parse_api_tokens (split_on CHR '','' s) {})"

section \<open>Registration of the handlers\<close>

text \<open>
  What an I/O handler is extended with: the delegate of a client that is created for it.  The
  publish/subscribe client is also known to the broker, by a reference to its notification handler.
\<close>

datatype 'l delegate = Web3Client | NetClient | EthClient | EthSigningClient | EthFilterClient | EthPubSubClient 'l | OasisClient

definition extend_with :: "'d list \<Rightarrow> 'd \<Rightarrow> 'd list" where
  "extend_with handler d = handler @ [d]"

fun extend_one :: "bool \<Rightarrow> 'l \<Rightarrow> api \<Rightarrow> 'l delegate list \<times> 'l broker \<Rightarrow> 'l delegate list \<times> 'l broker" where
  "extend_one generic l Web3 (handler, br) = (extend_with handler Web3Client, br)"
| "extend_one generic l Net (handler, br) = (extend_with handler NetClient, br)"
| "extend_one generic l Eth (handler, br) =
     (let handler1 = extend_with (extend_with handler EthClient) EthSigningClient
      in (if \<not> generic then extend_with handler1 EthFilterClient else handler1, br))"
| "extend_one generic l EthPubSub (handler, br) =
     (if \<not> generic then (extend_with handler (EthPubSubClient l), add_listener br l) else (handler, br))"
| "extend_one generic l Oasis (handler, br) = (extend_with handler OasisClient, br)"

definition extend_api ::
  "bool \<Rightarrow> 'l \<Rightarrow> api list \<Rightarrow> 'l delegate list \<times> 'l broker \<Rightarrow> 'l delegate list \<times> 'l broker" where
  "extend_api generic l apis st = fold (extend_one generic l) apis st"

definition extend_with_set ::
  "'l \<Rightarrow> api list \<Rightarrow> 'l delegate list \<times> 'l broker \<Rightarrow> 'l delegate list \<times> 'l broker" where
  "extend_with_set l apis st = extend_api False l apis st"

text \<open>An order in which a hash set may be visited.\<close>

definition visits :: "api list \<Rightarrow> api set \<Rightarrow> bool" where
  "visits order apis \<longleftrightarrow> distinct order \<and> set order = apis"

section \<open>What the notation means\<close>

definition token_adds :: "string \<Rightarrow> bool" where
  "token_adds tok \<longleftrightarrow> \<not> prefix ''-'' tok"

definition token_name :: "string \<Rightarrow> string" where
  "token_name tok = (if token_adds tok then tok else drop 1 tok)"

definition token_apis :: "string \<Rightarrow> api set" where
  "token_apis tok =
     (if tok = ''all'' \<or> tok = ''safe'' then UNIV
      else {a. api_from_str (token_name tok) = Ok a})"

lemma all_apis: "{Web3, Net, Eth, EthPubSub, Oasis} = UNIV"
proof -
  have "a \<in> {Web3, Net, Eth, EthPubSub, Oasis}" for a by (cases a) simp_all
  then show ?thesis by blast
qed

lemma api_from_str_cases:
  "(\<exists>a. api_from_str s = Ok a) \<or> api_from_str s = Err (''Unknown api: '' @ s)"
  by (simp add: api_from_str_def)

lemma parse_api_token_eq:
  "parse_api_token tok apis =
    (if token_apis tok = {} then Err (''Unknown api: '' @ token_name tok)
     else Ok (if token_adds tok then apis \<union> token_apis tok else apis - token_apis tok))"
proof (cases "tok = ''all'' \<or> tok = ''safe''")
  case True
  then show ?thesis by (auto simp: parse_api_token_def token_apis_def token_adds_def all_apis)
next
  case False
  from api_from_str_cases [of "token_name tok"] show ?thesis
  proof
    assume "\<exists>a. api_from_str (token_name tok) = Ok a"
    then obtain a where a: "api_from_str (token_name tok) = Ok a" by blast
    with False have "token_apis tok = {a}" by (auto simp: token_apis_def)
    with False a show ?thesis by (auto simp: parse_api_token_def token_name_def token_adds_def split: if_splits)
  next
    assume e: "api_from_str (token_name tok) = Err (''Unknown api: '' @ token_name tok)"
    with False have "token_apis tok = {}" by (auto simp: token_apis_def)
    with False e show ?thesis by (auto simp: parse_api_token_def token_name_def token_adds_def split: if_splits)
  qed
qed

lemma parse_api_tokens_snoc:
  "parse_api_tokens (toks @ [tok]) apis = and_then (parse_api_tokens toks apis) (parse_api_token tok)"
proof (induction toks arbitrary: apis)
  case Nil
  show ?case by (cases "parse_api_token tok apis") simp_all
next
  case (Cons t toks)
  then show ?case by (cases "parse_api_token t apis") simp_all
qed

lemma find_append: "find P (xs @ ys) = (case find P xs of None \<Rightarrow> find P ys | Some x \<Rightarrow> Some x)"
  by (induction xs) simp_all

lemma parse_api_tokens_eq:
  "parse_api_tokens toks {} =
    (case find (\<lambda>t. token_apis t = {}) toks of
       Some t \<Rightarrow> Err (''Unknown api: '' @ token_name t)
     | None \<Rightarrow> Ok {a. case find (\<lambda>t. a \<in> token_apis t) (rev toks) of None \<Rightarrow> False | Some t \<Rightarrow> token_adds t})"
proof (induction toks rule: rev_induct)
  case (snoc tok toks)
  show ?case
  proof (cases "find (\<lambda>t. token_apis t = {}) toks")
    case None
    then have ok: "parse_api_tokens (toks @ [tok]) {} = parse_api_token tok
        {a. case find (\<lambda>t. a \<in> token_apis t) (rev toks) of None \<Rightarrow> False | Some t \<Rightarrow> token_adds t}"
      by (simp add: parse_api_tokens_snoc snoc.IH)
    show ?thesis
    proof (cases "token_apis tok = {}")
      case True
      then show ?thesis unfolding ok by (simp add: find_append None parse_api_token_eq)
    next
      case False
      then show ?thesis unfolding ok by (auto simp: find_append None parse_api_token_eq)
    qed
  qed (simp add: parse_api_tokens_snoc snoc.IH find_append)
qed simp

section \<open>Properties\<close>

text \<open>
  C32. The meaning of an API list: parsing fails exactly if some piece names no API, and then reports
  the first such piece; otherwise an API is in the set if and only if the last piece that mentions
  it (\<open>all\<close> and \<open>safe\<close> mention every API) does not remove it with a leading minus sign.
\<close>

theorem last_mention_wins:
  "api_set_from_str s =
    (let toks = split_on CHR '','' s in
     case find (\<lambda>t. token_apis t = {}) toks of
       Some t \<Rightarrow> Err (''Unknown api: '' @ token_name t)
     | None \<Rightarrow> Ok (ListApis {a. case find (\<lambda>t. a \<in> token_apis t) (rev toks) of None \<Rightarrow> False | Some t \<Rightarrow> token_adds t}))"
  by (simp add: api_set_from_str_def parse_api_tokens_eq Let_def split: option.split)

text \<open>
  Registration does not depend on the order of the hash set: the handler gets the delegates of
  exactly the APIs of the set, each once, and the broker gets the notification handler of the
  publish/subscribe client once if that API is in the set.
\<close>

definition api_delegates :: "'l \<Rightarrow> api \<Rightarrow> 'l delegate list" where
  "api_delegates l a =
     (case a of Web3 \<Rightarrow> [Web3Client] | Net \<Rightarrow> [NetClient] | Eth \<Rightarrow> [EthClient, EthSigningClient, EthFilterClient]
      | EthPubSub \<Rightarrow> [EthPubSubClient l] | Oasis \<Rightarrow> [OasisClient])"

lemma extend_with_set_eq:
  "extend_with_set l apis (handler, br) =
    (handler @ concat (map (api_delegates l) apis),
     br\<lparr>listeners := listeners br @ replicate (length (filter (\<lambda>a. a = EthPubSub) apis)) l\<rparr>)"
proof -
  have "fold (extend_one False l) apis (handler, br) =
    (handler @ concat (map (api_delegates l) apis),
     br\<lparr>listeners := listeners br @ replicate (length (filter (\<lambda>a. a = EthPubSub) apis)) l\<rparr>)"
  proof (induction apis arbitrary: handler br)
    case (Cons a apis)
    then show ?case by (cases a) (simp_all add: extend_with_def api_delegates_def add_listener_def)
  qed simp
  then show ?thesis by (simp add: extend_with_set_def extend_api_def)
qed

lemma visits_once:
  assumes "visits order apis"
  shows "length (filter (\<lambda>a. a = x) order) = (if x \<in> apis then 1 else 0)"
proof -
  have "length (filter (\<lambda>a. a = x) order) = card (set order \<inter> {x})"
    using assms by (simp add: visits_def distinct_length_filter conj_commute Int_def)
  then show ?thesis using assms by (simp add: visits_def)
qed

lemma api_delegates_distinct:
  "distinct order \<Longrightarrow> distinct (concat (map (api_delegates l) order))"
  by (induction order) (auto simp: api_delegates_def split: api.splits)

lemma registration:
  assumes "visits order apis"
  shows "\<exists>ds. extend_with_set l order (handler, br) =
      (handler @ ds, if EthPubSub \<in> apis then add_listener br l else br)
    \<and> distinct ds \<and> set ds = (\<Union>a\<in>apis. set (api_delegates l a))"
  using assms visits_once [OF assms, of EthPubSub] api_delegates_distinct [of order l]
  by (auto simp: extend_with_set_eq add_listener_def visits_def)

end
