(* ===== verification/Informant.thy ===== *)
theory Informant
  imports Byte_Arrays
begin

text \<open>
  \<open>src/informant.rs\<close>: request statistics per session.  Times are readings of the monotonic clock in
  nanoseconds; every call of \<open>Instant::now\<close> or \<open>elapsed\<close> is a reading of its own.
\<close>

section \<open>The rate calculator\<close>

definition RATE_SECONDS :: nat where
  "RATE_SECONDS = 10"

record rate_calculator =
  era :: nat
  samples :: "u16 list"

definition rate_default :: "nat \<Rightarrow> rate_calculator" where
  "rate_default now = \<lparr>era = now, samples = replicate RATE_SECONDS 0\<rparr>"

definition elapsed :: "rate_calculator \<Rightarrow> nat \<Rightarrow> nat" where
  "elapsed rc now = (now - era rc) div 1000000000"

text \<open>The readings of one \<open>tick\<close>: for the age check, for a new era, for the position.\<close>

record tick_clock =
  t_check :: nat
  t_era :: nat
  t_pos :: nat

definition new_era :: "rate_calculator \<Rightarrow> tick_clock \<Rightarrow> rate_calculator" where
  "new_era rc t =
     (if elapsed rc (t_check t) \<ge> RATE_SECONDS then rc\<lparr>era := t_era t, samples := (samples rc)[0 := 0]\<rparr> else rc)"

definition tick :: "rate_calculator \<Rightarrow> tick_clock \<Rightarrow> u16 \<times> rate_calculator" where
  "tick rc0 t =
     (let rc = new_era rc0 t;
          pos = elapsed rc (t_pos t) mod RATE_SECONDS;
          nxt = (pos + 1) mod RATE_SECONDS;
          s1 = (samples rc)[nxt := 0];
          s2 = s1[pos := saturating_add (s1 ! pos) 1]
      in (s2 ! pos, rc\<lparr>samples := s2\<rparr>))"

definition current_rate :: "rate_calculator \<Rightarrow> nat \<Rightarrow> nat" where
  "current_rate rc t =
     (let now = (if elapsed rc t \<ge> RATE_SECONDS then RATE_SECONDS else elapsed rc t + 1)
      in sum_list (map unat (take now (samples rc))) div now)"

definition rate :: "rate_calculator \<Rightarrow> nat \<Rightarrow> nat \<Rightarrow> nat" where
  "rate rc t1 t2 = (if elapsed rc t1 > RATE_SECONDS then 0 else current_rate rc t2)"

section \<open>Session statistics\<close>

record rpc_stats =
  requests :: rate_calculator
  sessions :: "bytes \<rightharpoonup> rate_calculator"

definition rpc_stats_default :: "nat \<Rightarrow> rpc_stats" where
  "rpc_stats_default now = \<lparr>requests = rate_default now, sessions = Map.empty\<rparr>"

definition open_session :: "rpc_stats \<Rightarrow> nat \<Rightarrow> bytes \<Rightarrow> rpc_stats" where
  "open_session st now session = st\<lparr>sessions := (sessions st)(session \<mapsto> rate_default now)\<rparr>"

definition close_session :: "rpc_stats \<Rightarrow> bytes \<Rightarrow> rpc_stats" where
  "close_session st session = st\<lparr>sessions := (sessions st)(session := None)\<rparr>"

definition count_request :: "rpc_stats \<Rightarrow> tick_clock \<Rightarrow> bytes \<Rightarrow> u16 \<times> rpc_stats" where
  "count_request st t session =
     (case sessions st session of
        None \<Rightarrow> (0, st)
      | Some calc \<Rightarrow> (let (n, calc') = tick calc t in (n, st\<lparr>sessions := (sessions st)(session \<mapsto> calc')\<rparr>)))"

definition session_count :: "rpc_stats \<Rightarrow> nat" where
  "session_count st = card (dom (sessions st))"

definition requests_rate :: "rpc_stats \<Rightarrow> nat \<Rightarrow> nat \<Rightarrow> bytes \<Rightarrow> nat" where
  "requests_rate st t1 t2 session =
     (case sessions st session of None \<Rightarrow> 0 | Some calc \<Rightarrow> rate calc t1 t2)"

section \<open>Counting\<close>

definition rate_wf :: "rate_calculator \<Rightarrow> bool" where
  "rate_wf rc \<longleftrightarrow> length (samples rc) = RATE_SECONDS"

text \<open>The second of the current era that a tick at these readings counts in.\<close>

definition tick_pos :: "rate_calculator \<Rightarrow> tick_clock \<Rightarrow> nat" where
  "tick_pos rc t = elapsed (new_era rc t) (t_pos t) mod RATE_SECONDS"

lemma rate_default_wf [wf_intros]: "rate_wf (rate_default now)"
  by (simp add: rate_wf_def rate_default_def)

lemma tick_pos_less: "tick_pos rc t < RATE_SECONDS"
  by (simp add: tick_pos_def RATE_SECONDS_def)

lemma next_pos: "p < RATE_SECONDS \<Longrightarrow> (p + 1) mod RATE_SECONDS \<noteq> p \<and> (p + 1) mod RATE_SECONDS < RATE_SECONDS"
  by (simp add: RATE_SECONDS_def) presburger

lemma new_era_wf: "rate_wf rc \<Longrightarrow> rate_wf (new_era rc t)"
  by (simp add: rate_wf_def new_era_def)

text \<open>One tick: it counts in its position, clears the next one and keeps the era it found or began.\<close>

lemma tick_eq:
  assumes "rate_wf rc" and "tick rc t = (n, rc')"
  shows "n = saturating_add (samples (new_era rc t) ! tick_pos rc t) 1" "samples rc' ! tick_pos rc t = n"
    "era rc' = era (new_era rc t)" "rate_wf rc'"
    "i \<noteq> tick_pos rc t \<Longrightarrow> i < RATE_SECONDS \<Longrightarrow>
       samples rc' ! i = (if i = (tick_pos rc t + 1) mod RATE_SECONDS then 0 else samples (new_era rc t) ! i)"
proof -
  let ?rc = "new_era rc t" and ?p = "tick_pos rc t"
  have len: "length (samples ?rc) = RATE_SECONDS" using new_era_wf [OF assms(1)] by (simp add: rate_wf_def)
  have p: "?p < RATE_SECONDS" "(?p + 1) mod RATE_SECONDS \<noteq> ?p" using tick_pos_less next_pos by blast+
  have t: "n = ((samples ?rc)[(?p + 1) mod RATE_SECONDS := 0, ?p := saturating_add ((samples ?rc)[(?p + 1) mod RATE_SECONDS := 0] ! ?p) 1]) ! ?p"
    "rc' = ?rc\<lparr>samples := (samples ?rc)[(?p + 1) mod RATE_SECONDS := 0, ?p := saturating_add ((samples ?rc)[(?p + 1) mod RATE_SECONDS := 0] ! ?p) 1]\<rparr>"
    using assms(2) by (simp_all add: tick_def Let_def tick_pos_def)
  show "n = saturating_add (samples ?rc ! ?p) 1" using t(1) len p by simp
  show "samples rc' ! ?p = n" "era rc' = era ?rc" "rate_wf rc'" using t len by (simp_all add: rate_wf_def)
  show "samples rc' ! i = (if i = (?p + 1) mod RATE_SECONDS then 0 else samples ?rc ! i)" if "i \<noteq> ?p" "i < RATE_SECONDS"
    using t(2) len that by (simp add: nth_list_update)
qed

text \<open>A tick in the same second of the same era adds one.\<close>

definition same_second :: "rate_calculator \<Rightarrow> nat \<Rightarrow> tick_clock \<Rightarrow> bool" where
  "same_second rc p t \<longleftrightarrow> elapsed rc (t_check t) < RATE_SECONDS \<and> elapsed rc (t_pos t) mod RATE_SECONDS = p"

lemma same_second_tick:
  assumes "rate_wf rc" and "same_second rc p t" and "tick rc t = (n, rc')"
  shows "n = saturating_add (samples rc ! p) 1" "samples rc' ! p = n" "era rc' = era rc" "rate_wf rc'"
proof -
  have "new_era rc t = rc" "tick_pos rc t = p" using assms(2) by (simp_all add: same_second_def new_era_def tick_pos_def)
  with tick_eq [OF assms(1,3)] show "n = saturating_add (samples rc ! p) 1" "samples rc' ! p = n" "era rc' = era rc" "rate_wf rc'"
    by simp_all
qed

fun run_ticks :: "rate_calculator \<Rightarrow> tick_clock list \<Rightarrow> u16 list" where
  "run_ticks rc [] = []"
| "run_ticks rc (t # ts) = (let (n, rc') = tick rc t in n # run_ticks rc' ts)"

lemma same_second_era: "era rc' = era rc \<Longrightarrow> same_second rc' p t = same_second rc p t"
  by (simp add: same_second_def elapsed_def)

lemma run_ticks_same_second:
  assumes "rate_wf rc" and "\<And>t. t \<in> set ts \<Longrightarrow> same_second rc p t" and "i < length ts"
  shows "unat (run_ticks rc ts ! i) = min 65535 (unat (samples rc ! p) + Suc i)"
  using assms
proof (induction ts arbitrary: rc i)
  case (Cons t ts)
  obtain n rc' where t: "tick rc t = (n, rc')" by (meson surj_pair)
  note st = same_second_tick [OF Cons.prems(1) Cons.prems(2) [of t, simplified] t]
  have n: "unat n = min 65535 (unat (samples rc ! p) + 1)"
    unfolding st(1) by (simp add: unat_saturating_add)
  show ?case
  proof (cases i)
    case 0
    then show ?thesis using t n by simp
  next
    case (Suc j)
    have "unat (run_ticks rc' ts ! j) = min 65535 (unat (samples rc' ! p) + Suc j)"
      using Cons.IH [OF st(4), of j] Cons.prems(2,3) Suc same_second_era [OF st(3)] by simp
    then show ?thesis using t n st(2) Suc by simp
  qed
qed simp

text \<open>
  What a run of ticks leaves in a later second of the same era: the sample is cleared by a tick in
  the second just before it, and only by that.
\<close>

fun after_ticks :: "rate_calculator \<Rightarrow> tick_clock list \<Rightarrow> rate_calculator" where
  "after_ticks rc [] = rc"
| "after_ticks rc (t # ts) = after_ticks (snd (tick rc t)) ts"

lemma earlier_tick:
  assumes "rate_wf rc" and "same_second rc q t" and "q < p" and "p < RATE_SECONDS" and "tick rc t = (n, rc')"
  shows "samples rc' ! p = (if q = p - 1 then 0 else samples rc ! p)"
proof -
  have "new_era rc t = rc" "tick_pos rc t = q" using assms(2) by (simp_all add: same_second_def new_era_def tick_pos_def)
  with tick_eq(5) [OF assms(1,5), of p] assms(3,4) show ?thesis by auto
qed

lemma same_second_unique: "same_second rc q t \<Longrightarrow> same_second rc p t \<longleftrightarrow> p = q"
  by (auto simp: same_second_def)

lemma after_earlier_ticks:
  assumes "rate_wf rc" and "\<And>t. t \<in> set ts \<Longrightarrow> \<exists>q<p. same_second rc q t" and "p < RATE_SECONDS"
  shows "rate_wf (after_ticks rc ts) \<and> era (after_ticks rc ts) = era rc
    \<and> samples (after_ticks rc ts) ! p = (if \<exists>t \<in> set ts. same_second rc (p - 1) t then 0 else samples rc ! p)"
  using assms(1,2)
proof (induction ts arbitrary: rc)
  case (Cons t ts)
  obtain n rc' where t: "tick rc t = (n, rc')" by (meson surj_pair)
  obtain q where q: "q < p" "same_second rc q t" using Cons.prems(2) by auto
  note st = same_second_tick [OF Cons.prems(1) q(2) t] and same = same_second_era [OF st(3)]
  have "samples rc' ! p = (if same_second rc (p - 1) t then 0 else samples rc ! p)"
    using earlier_tick [OF Cons.prems(1) q(2,1) assms(3) t] same_second_unique [OF q(2)] by auto
  moreover note Cons.IH [OF st(4)]
  ultimately show ?case using t st(3) same Cons.prems(2) by (auto split: if_splits)
qed simp

section \<open>Properties\<close>

text \<open>
  Within one second of an era the counter counts: the requests of a session that fall into the
  same second are given consecutive numbers above what the sample held before, up to saturation
  at 65535; in particular the first \<open>i\<close> requests of a fresh session get the numbers \<open>1, 2, ..., i\<close>.
\<close>

theorem ticks_count_requests:
  assumes "rate_wf rc" and "\<And>t. t \<in> set ts \<Longrightarrow> same_second rc p t" and "i < length ts"
  shows "unat (run_ticks rc ts ! i) = min 65535 (unat (samples rc ! p) + Suc i)"
  using assms by (rule run_ticks_same_second)

theorem ticks_count_requests_witness:
  "unat (run_ticks (rate_default 0) [\<lparr>t_check = 5, t_era = 6, t_pos = 7\<rparr>, \<lparr>t_check = 8, t_era = 8, t_pos = 9\<rparr>] ! 1) = 2"
proof -
  let ?ts = "[\<lparr>t_check = 5, t_era = 6, t_pos = 7\<rparr>, \<lparr>t_check = 8, t_era = 8, t_pos = 9\<rparr>]"
  have h: "t \<in> set ?ts \<Longrightarrow> same_second (rate_default 0) 0 t" for t
    by (auto simp: same_second_def elapsed_def rate_default_def RATE_SECONDS_def)
  from ticks_count_requests [where ts = ?ts and i = 1 and p = 0, OF rate_default_wf h] show ?thesis
    by (simp add: rate_default_def RATE_SECONDS_def)
qed

text \<open>All readings of one tick at the start of a second.\<close>

definition secs :: "nat \<Rightarrow> nat" where
  "secs s = s * 1000000000"

definition at_second :: "nat \<Rightarrow> tick_clock" where
  "at_second s = \<lparr>t_check = secs s, t_era = secs s, t_pos = secs s\<rparr>"

lemma elapsed_secs: "elapsed \<lparr>era = secs e, samples = xs\<rparr> (secs s) = s - e"
  by (simp add: elapsed_def secs_def flip: diff_mult_distrib)

lemma tick_at_second:
  "tick \<lparr>era = secs e, samples = xs\<rparr> (at_second s) =
     (let fresh = 10 \<le> s - e; e' = (if fresh then s else e); ys = (if fresh then xs[0 := 0] else xs);
          pos = (s - e') mod 10; ys' = ys[(pos + 1) mod 10 := 0]; zs = ys'[pos := saturating_add (ys' ! pos) 1]
      in (zs ! pos, \<lparr>era = secs e', samples = zs\<rparr>))"
  by (simp add: tick_def new_era_def at_second_def elapsed_secs RATE_SECONDS_def Let_def)

lemma rate_default_secs: "rate_default 0 = \<lparr>era = secs 0, samples = [0, 0, 0, 0, 0, 0, 0, 0, 0, 0]\<rparr>"
  by (simp add: rate_default_def secs_def RATE_SECONDS_def) (simp add: numeral_eq_Suc)

text \<open>
  C35. A new era clears only its first two samples.  When a request has begun a new era, in its
  second \<open>0\<close>, and more requests have come before second \<open>p\<close> of it, then the first request in second
  \<open>p\<close> is counted as the first only if second \<open>p - 1\<close> had a request; otherwise it is counted on top
  of the requests that the same second of the old era had.
\<close>

theorem stale_sample_overcounts:
  assumes "rate_wf rc" and "RATE_SECONDS \<le> elapsed rc (t_check t1)" and "tick_pos rc t1 = 0"
    and "0 < p" and "p < RATE_SECONDS"
    and "\<And>t. t \<in> set ts \<Longrightarrow> \<exists>q<p. same_second (snd (tick rc t1)) q t"
    and "same_second (snd (tick rc t1)) p t2"
  shows "fst (tick (after_ticks rc (t1 # ts)) t2) =
    (if p = 1 \<or> (\<exists>t \<in> set ts. same_second (snd (tick rc t1)) (p - 1) t) then 1 else saturating_add (samples rc ! p) 1)"
proof -
  obtain n1 rc1 where t1: "tick rc t1 = (n1, rc1)" by (meson surj_pair)
  have "samples (new_era rc t1) ! p = samples rc ! p" using assms(1,2,4) by (simp add: new_era_def)
  then have s1: "samples rc1 ! p = (if p = 1 then 0 else samples rc ! p)"
    using tick_eq(5) [OF assms(1) t1, of p] assms(3-5) by (simp add: RATE_SECONDS_def)
  note w1 = tick_eq(4) [OF assms(1) t1]
  have r: "rate_wf (after_ticks rc1 ts)" "era (after_ticks rc1 ts) = era rc1"
    "samples (after_ticks rc1 ts) ! p = (if \<exists>t \<in> set ts. same_second rc1 (p - 1) t then 0 else samples rc1 ! p)"
    using after_earlier_ticks [OF w1 _ assms(5), of ts] assms(6) t1 by simp_all
  obtain n2 rc2 where t2: "tick (after_ticks rc1 ts) t2 = (n2, rc2)" by (meson surj_pair)
  have "same_second (after_ticks rc1 ts) p t2" using assms(7) t1 same_second_era [OF r(2)] by simp
  note n2 = same_second_tick(1) [OF r(1) this t2, unfolded r(3) s1]
  have "saturating_add 0 1 = (1 :: u16)" by (simp add: saturating_add_def)
  with n2 t1 t2 show ?thesis by auto
qed

text \<open>
  Five requests in the sixth second of one era, then one in the first and one in the third second of
  the next: a single request in its sixth second is counted as the sixth.
\<close>

theorem stale_sample_overcounts_witness:
  "fst (tick (after_ticks \<lparr>era = secs 0, samples = [0, 0, 0, 0, 0, 5, 0, 0, 0, 0]\<rparr> [at_second 12, at_second 14])
     (at_second 17)) = 6
   \<and> after_ticks (rate_default 0) (replicate 5 (at_second 5)) = \<lparr>era = secs 0, samples = [0, 0, 0, 0, 0, 5, 0, 0, 0, 0]\<rparr>"
proof -
  let ?rc = "\<lparr>era = secs 0, samples = [0, 0, 0, 0, 0, 5, 0, 0, 0, 0]\<rparr>"
  have h: "rate_wf ?rc" "RATE_SECONDS \<le> elapsed ?rc (t_check (at_second 12))" "tick_pos ?rc (at_second 12) = 0"
    "(0::nat) < 5" "5 < RATE_SECONDS"
    by (simp_all add: rate_wf_def RATE_SECONDS_def at_second_def elapsed_secs tick_pos_def new_era_def)
  have t1: "snd (tick ?rc (at_second 12)) = \<lparr>era = secs 12, samples = [1, 0, 0, 0, 0, 5, 0, 0, 0, 0]\<rparr>"
    by (simp add: tick_at_second Let_def saturating_add_def)
  have ts: "same_second (snd (tick ?rc (at_second 12))) q (at_second s) \<longleftrightarrow> s - 12 < 10 \<and> (s - 12) mod 10 = q" for q s
    unfolding t1 by (simp add: same_second_def at_second_def elapsed_secs RATE_SECONDS_def)
  have run: "replicate 5 x = [x, x, x, x, x]" for x :: tick_clock by (simp add: numeral_eq_Suc)
  have "fst (tick (after_ticks ?rc [at_second 12, at_second 14]) (at_second 17)) = 6"
    using stale_sample_overcounts [OF h, of "[at_second 14]" "at_second 17"] ts by (simp add: saturating_add_def)
  moreover have "after_ticks (rate_default 0) (replicate 5 (at_second 5)) = ?rc"
    unfolding rate_default_secs run by (simp add: tick_at_second Let_def saturating_add_def)
  ultimately show ?thesis by blast
qed

end
