(* ===== verification/Middleware.thy ===== *)
theory Middleware
  imports Informant Util
begin

text \<open>
  \<open>src/middleware.rs\<close>: the JSON-RPC middleware, which limits the size of a batch and the request
  rate of a WebSocket session.  The rest of the request handling is the argument \<open>process\<close>, which
  works on a state of its own: a request that is answered here leaves that state alone.  The
  construction of a failure output belongs to the JSON-RPC library and is the argument \<open>mk\<close>.
\<close>

section \<open>Requests and errors\<close>

datatype rpc_id = IdNull | IdNum u64 | IdStr string

datatype rpc_call =
  MethodCall (call_version: "string option") (call_method: string) (call_id: rpc_id)
| Notification (call_version: "string option") (call_method: string)
| Invalid (call_id: rpc_id)

datatype request = Single rpc_call | Batch "rpc_call list"

datatype 'o response = SingleR 'o | BatchR "'o list"

definition ERROR_BATCH_SIZE :: int where
  "ERROR_BATCH_SIZE = - 32099"

definition ERROR_RATE_LIMITED :: int where
  "ERROR_RATE_LIMITED = - 32098"

definition error_batch_size :: rpc_error where
  "error_batch_size =
     \<lparr>err_code = ServerError ERROR_BATCH_SIZE, err_message = ''Too many JSON-RPC requests in batch'', err_data = None\<rparr>"

definition error_rate_limited :: rpc_error where
  "error_rate_limited =
     \<lparr>err_code = ServerError ERROR_RATE_LIMITED, err_message = ''Too many requests'', err_data = None\<rparr>"

datatype err_gen = BatchSizeErrGen | RateLimitedErrGen

fun generate :: "err_gen \<Rightarrow> rpc_error" where
  "generate BatchSizeErrGen = error_batch_size"
| "generate RateLimitedErrGen = error_rate_limited"

type_synonym 'o output_from = "rpc_error \<Rightarrow> rpc_id \<Rightarrow> string option \<Rightarrow> 'o"

fun generate_error_response_call :: "'o output_from \<Rightarrow> err_gen \<Rightarrow> rpc_call \<Rightarrow> 'o" where
  "generate_error_response_call mk gen (MethodCall v m i) = mk (generate gen) i v"
| "generate_error_response_call mk gen (Notification v m) = mk (generate gen) IdNull v"
| "generate_error_response_call mk gen (Invalid i) = mk (generate gen) i None"

definition generate_error_response_calls :: "'o output_from \<Rightarrow> err_gen \<Rightarrow> rpc_call list \<Rightarrow> 'o list" where
  "generate_error_response_calls mk gen calls = map (generate_error_response_call mk gen) calls"

fun generate_error_response :: "'o output_from \<Rightarrow> err_gen \<Rightarrow> request \<Rightarrow> 'o response option" where
  "generate_error_response mk gen (Single call) = Some (SingleR (generate_error_response_call mk gen call))"
| "generate_error_response mk gen (Batch calls) = Some (BatchR (generate_error_response_calls mk gen calls))"

section \<open>The batch size limit\<close>

type_synonym ('s, 'o) processor = "request \<Rightarrow> 's \<Rightarrow> 'o response option \<times> 's"

definition middleware_on_request :: "'o output_from \<Rightarrow> nat \<Rightarrow> ('s, 'o) processor \<Rightarrow> ('s, 'o) processor" where
  "middleware_on_request mk max_batch_size process request s =
     (case request of
        Batch calls \<Rightarrow>
          if length calls > max_batch_size
          then (Some (BatchR (generate_error_response_calls mk BatchSizeErrGen calls)), s)
          else process request s
      | _ \<Rightarrow> process request s)"

section \<open>The rate limit\<close>

datatype origin = Ws (ws_session: bytes) | OtherOrigin

definition ws_on_request ::
  "'o output_from \<Rightarrow> nat \<Rightarrow> origin \<Rightarrow> ('s, 'o) processor \<Rightarrow> tick_clock \<Rightarrow> request \<Rightarrow> rpc_stats \<times> 's
   \<Rightarrow> 'o response option \<times> rpc_stats \<times> 's" where
  "ws_on_request mk max_req_per_sec orig process t request state =
     (case orig of
        Ws session \<Rightarrow>
          (let (n, stats') = count_request (fst state) t session in
           if unat n > max_req_per_sec
           then (generate_error_response mk RateLimitedErrGen request, stats', snd state)
           else let (r, s') = process request (snd state) in (r, stats', s'))
      | OtherOrigin \<Rightarrow> (let (r, s') = process request (snd state) in (r, fst state, s')))"

text \<open>The session callbacks of the WebSocket server.\<close>

definition ws_open_session :: "rpc_stats \<Rightarrow> nat \<Rightarrow> bytes \<Rightarrow> rpc_stats" where
  "ws_open_session stats now session = open_session stats now session"

definition ws_close_session :: "rpc_stats \<Rightarrow> bytes \<Rightarrow> rpc_stats" where
  "ws_close_session stats session = close_session stats session"

section \<open>Sequences of requests\<close>

text \<open>
  A WebSocket request passes the rate limit first and the batch limit second: the library applies
  the two middlewares of \<open>new_ws\<close> from left to right.
\<close>

definition ws_pipeline ::
  "'o output_from \<Rightarrow> nat \<Rightarrow> nat \<Rightarrow> origin \<Rightarrow> ('s, 'o) processor \<Rightarrow> tick_clock \<Rightarrow> request \<Rightarrow> rpc_stats \<times> 's
   \<Rightarrow> 'o response option \<times> rpc_stats \<times> 's" where
  "ws_pipeline mk max_req_per_sec max_batch_size orig process =
     ws_on_request mk max_req_per_sec orig (middleware_on_request mk max_batch_size process)"

text \<open>Processors that also count how often they are called, or how many calls they are given.\<close>

definition counting :: "('s, 'o) processor \<Rightarrow> ('s \<times> nat, 'o) processor" where
  "counting process request s = (let (r, s') = process request (fst s) in (r, s', Suc (snd s)))"

fun call_count :: "request \<Rightarrow> nat" where
  "call_count (Single _) = 1"
| "call_count (Batch calls) = length calls"

definition counting_calls :: "('s, 'o) processor \<Rightarrow> ('s \<times> nat, 'o) processor" where
  "counting_calls process request s = (let (r, s') = process request (fst s) in (r, s', snd s + call_count request))"

fun run_ws :: "(tick_clock \<Rightarrow> request \<Rightarrow> rpc_stats \<times> 's \<Rightarrow> 'o response option \<times> rpc_stats \<times> 's)
   \<Rightarrow> (tick_clock \<times> request) list \<Rightarrow> rpc_stats \<times> 's \<Rightarrow> rpc_stats \<times> 's" where
  "run_ws handle [] st = st"
| "run_ws handle ((t, req) # reqs) st = run_ws handle reqs (snd (handle t req st))"

lemma count_request_Some:
  "sessions st session = Some calc \<Longrightarrow> tick calc t = (n, calc') \<Longrightarrow>
     count_request st t session = (n, st\<lparr>sessions := (sessions st)(session \<mapsto> calc')\<rparr>)"
  by (simp add: count_request_def)

text \<open>If a processor adds at most \<open>c\<close> to its counter, the limit bounds what a second adds.\<close>

lemma run_ws_same_second:
  assumes "sessions st session = Some rc" and "rate_wf rc" and "\<forall>x \<in> set reqs. same_second rc p (fst x)"
    and "mx < 65535" and cost: "\<And>req s. snd (snd (process req s)) \<le> snd s + c"
  shows "snd (snd (run_ws (ws_on_request mk mx (Ws session) process) reqs (st, s)))
    \<le> snd s + c * (mx - unat (samples rc ! p))"
  using assms(1-3)
proof (induction reqs arbitrary: st s rc)
  case (Cons r reqs)
  obtain t req where r: "r = (t, req)" by (cases r)
  obtain n rc' where tk: "tick rc t = (n, rc')" by (meson surj_pair)
  have ss: "same_second rc p t" using Cons.prems(3) r by auto
  note st = same_second_tick [OF Cons.prems(2) ss tk]
  have n: "unat n = min 65535 (unat (samples rc ! p) + 1)" unfolding st(1) by (simp add: unat_saturating_add)
  let ?st = "st\<lparr>sessions := (sessions st)(session \<mapsto> rc')\<rparr>"
  note cnt = count_request_Some [OF Cons.prems(1) tk]
  have IH: "snd (snd (run_ws (ws_on_request mk mx (Ws session) process) reqs (?st, s')))
      \<le> snd s' + c * (mx - unat (samples rc' ! p))" for s'
  proof (rule Cons.IH)
    show "sessions ?st session = Some rc'" by simp
    show "rate_wf rc'" by (rule st(4))
    show "\<forall>x \<in> set reqs. same_second rc' p (fst x)"
      using Cons.prems(3) same_second_era [OF st(3)] by simp
  qed
  show ?case
  proof (cases "unat n > mx")
    case True
    have "unat (samples rc ! p) < 65536" using unsigned_less [of "samples rc ! p", where ?'a = nat] by simp
    then have "snd s + c * (mx - unat (samples rc' ! p)) \<le> snd s + c * (mx - unat (samples rc ! p))"
      using st(2) n by (intro add_left_mono mult_le_mono2) auto
    from order_trans [OF IH this] have "snd (snd (run_ws (ws_on_request mk mx (Ws session) process) reqs (?st, s)))
      \<le> snd s + c * (mx - unat (samples rc ! p))" .
    moreover have "snd (ws_on_request mk mx (Ws session) process t req (st, s)) = (?st, s)"
      using True cnt by (simp add: ws_on_request_def)
    ultimately show ?thesis using r by simp
  next
    case False
    obtain resp s' where pr: "process req s = (resp, s')" by (meson surj_pair)
    then have "snd s' \<le> snd s + c" using cost [of req s] by simp
    moreover have "mx - unat (samples rc ! p) = Suc (mx - unat (samples rc' ! p))"
      using n st(2) False assms(4) by auto
    moreover have "snd (ws_on_request mk mx (Ws session) process t req (st, s)) = (?st, s')"
      using False cnt pr by (simp add: ws_on_request_def)
    ultimately show ?thesis using IH [of s'] r by simp
  qed
qed simp

section \<open>Properties\<close>

text \<open>
  The rate limit holds: however many requests a WebSocket session sends within one second of
  its era, at most \<open>max_req_per_sec\<close> of them reach the handler, for every limit below 65535 (the
  counter saturates there), and fewer if the sample of that second already counted some.
\<close>

lemma rate_limit_enforced:
  assumes "sessions st session = Some rc" and "rate_wf rc" and "\<forall>x \<in> set reqs. same_second rc p (fst x)"
    and "max_req_per_sec < 65535"
  shows "snd (snd (run_ws (ws_on_request mk max_req_per_sec (Ws session) (counting process)) reqs (st, s, 0)))
    \<le> max_req_per_sec - unat (samples rc ! p)"
proof -
  have "snd (snd (counting process req s)) \<le> snd s + 1" for req s by (simp add: counting_def case_prod_beta)
  from run_ws_same_second [where process = "counting process" and c = 1 and s = "(s, 0)" and mk = mk, OF assms this] show ?thesis by simp
qed

lemma pipeline_cost:
  "snd (snd (middleware_on_request mk mx (counting_calls process) req s)) \<le> snd s + max 1 mx"
proof (cases req)
  case (Batch calls)
  then show ?thesis by (simp add: middleware_on_request_def counting_calls_def case_prod_beta max_def)
qed (simp add: middleware_on_request_def counting_calls_def case_prod_beta max_def)

text \<open>
  C24. The two limits together bound the work of a WebSocket session: within one second of its era,
  whatever it sends, single calls or batches of any size, at most \<open>max_req_per_sec\<close> times
  \<open>max_batch_size\<close> calls reach the handlers, for every rate below 65535 (the counter saturates there)
  and every batch limit (a limit of zero still lets single calls pass).
\<close>

theorem session_calls_bounded:
  assumes "sessions st session = Some rc" and "rate_wf rc" and "\<forall>x \<in> set reqs. same_second rc p (fst x)"
    and "max_req_per_sec < 65535"
  shows "snd (snd (run_ws (ws_pipeline mk max_req_per_sec max_batch_size (Ws session) (counting_calls process)) reqs (st, s, 0)))
    \<le> max 1 max_batch_size * (max_req_per_sec - unat (samples rc ! p))"
  using run_ws_same_second [where process = "middleware_on_request mk max_batch_size (counting_calls process)"
      and c = "max 1 max_batch_size" and s = "(s, 0)" and mk = mk, OF assms pipeline_cost]
  by (simp add: ws_pipeline_def)

theorem session_calls_bounded_witness:
  "snd (snd (run_ws (ws_pipeline (\<lambda>e i v. e) 1 2 (Ws [7]) (counting_calls (\<lambda>r s. (None, s))))
      [(\<lparr>t_check = 5, t_era = 6, t_pos = 7\<rparr>, Batch [Invalid IdNull, Invalid IdNull]),
       (\<lparr>t_check = 8, t_era = 8, t_pos = 9\<rparr>, Single (Invalid IdNull))]
      (open_session (rpc_stats_default 0) 0 [7], (), 0))) \<le> 2"
proof -
  let ?reqs = "[(\<lparr>t_check = 5, t_era = 6, t_pos = 7\<rparr>, Batch [Invalid IdNull, Invalid IdNull]),
       (\<lparr>t_check = 8, t_era = 8, t_pos = 9\<rparr>, Single (Invalid IdNull))]"
  have s: "sessions (open_session (rpc_stats_default 0) 0 [7]) [7] = Some (rate_default 0)"
    by (simp add: open_session_def)
  have h: "\<forall>x \<in> set ?reqs. same_second (rate_default 0) 0 (fst x)"
    by (simp add: same_second_def elapsed_def rate_default_def RATE_SECONDS_def)
  from session_calls_bounded [OF s rate_default_wf h, of 1 "\<lambda>e i v. e" 2 "\<lambda>r s. (None, s)" "()"]
  show ?thesis by (simp add: rate_default_def RATE_SECONDS_def del: run_ws.simps)
qed

text \<open>
  The batch limit is exact: a batch of at most \<open>max_batch_size\<close> calls, and every single call,
  is handed to the handler unchanged; a larger batch never reaches it and is answered by one
  error per call, in order, each with the identifier of its call, or null for a notification.
\<close>

theorem batch_limit_exact:
  "middleware_on_request mk max_batch_size process req s =
    (case req of
       Batch calls \<Rightarrow>
         if length calls \<le> max_batch_size then process req s
         else (Some (BatchR (map (\<lambda>c. mk error_batch_size (if is_Notification c then IdNull else call_id c)
                                        (if is_Invalid c then None else call_version c)) calls)), s)
     | Single c \<Rightarrow> process req s)"
proof -
  have "generate_error_response_call mk BatchSizeErrGen c =
      mk error_batch_size (if is_Notification c then IdNull else call_id c) (if is_Invalid c then None else call_version c)" for c
    by (cases c) simp_all
  then show ?thesis
    by (auto simp: middleware_on_request_def generate_error_response_calls_def split: request.split)
qed

end
