(* ===== verification/Rpc.thy ===== *)
theory Rpc
  imports Rpc_Apis Middleware
begin

text \<open>
  \<open>src/rpc.rs\<close> and \<open>src/servers.rs\<close>: the configuration of the two servers, the host and origin lists,
  and how a server is assembled from handlers, middleware and limits.  The server libraries, their
  host and origin types and the parser of socket addresses, whose accepted notation depends on the
  version of the standard library, form the record \<open>rpc_env\<close>.  A hash set is listed in an order that
  is an argument.
\<close>

section \<open>Strings\<close>

text \<open>\<open>str::replace\<close> for a pattern that is not empty: from left to right, without overlap.\<close>

function str_replace :: "string \<Rightarrow> string \<Rightarrow> string \<Rightarrow> string" where
  "str_replace pat to [] = []"
| "str_replace pat to (x # xs) =
     (if pat \<noteq> [] \<and> prefix pat (x # xs) then to @ str_replace pat to (drop (length pat) (x # xs))
      else x # str_replace pat to xs)"
  by pat_completeness auto
termination by (relation "measure (\<lambda>(pat, to, s). length s)") auto

definition socket_url :: "string \<Rightarrow> u16 \<Rightarrow> string" where
  "socket_url iface port = iface @ '':'' @ dec_string (unat port)"

section \<open>Configuration\<close>

record http_configuration =
  hc_enabled :: bool
  hc_interface :: string
  hc_port :: u16
  hc_apis :: api_set
  hc_cors :: "string list option"
  hc_hosts :: "string list option"
  hc_server_threads :: nat
  hc_max_batch_size :: nat

definition http_configuration_default :: http_configuration where
  "http_configuration_default =
     \<lparr>hc_enabled = True, hc_interface = ''127.0.0.1'', hc_port = 8545, hc_apis = UnsafeContext,
      hc_cors = Some [], hc_hosts = Some [], hc_server_threads = 1, hc_max_batch_size = 10\<rparr>"

record 'd ws_configuration =
  wc_enabled :: bool
  wc_interface :: string
  wc_port :: u16
  wc_apis :: api_set
  wc_max_connections :: nat
  wc_origins :: "string list option"
  wc_hosts :: "string list option"
  wc_support_token_api :: bool
  wc_dapps_address :: "'d option"
  wc_max_batch_size :: nat
  wc_max_req_per_sec :: nat

definition ws_configuration_default :: "(string \<Rightarrow> 'd) \<Rightarrow> 'd ws_configuration" where
  "ws_configuration_default host_from =
     \<lparr>wc_enabled = True, wc_interface = ''127.0.0.1'', wc_port = 8546, wc_apis = UnsafeContext,
      wc_max_connections = 100,
      wc_origins = Some [''parity://*'', ''chrome-extension://*'', ''moz-extension://*''],
      wc_hosts = Some [], wc_support_token_api = True,
      wc_dapps_address = Some (host_from ''127.0.0.1:8545''), wc_max_batch_size = 10, wc_max_req_per_sec = 50\<rparr>"

definition address :: "(string \<Rightarrow> 'd) \<Rightarrow> bool \<Rightarrow> string \<Rightarrow> u16 \<Rightarrow> string list option \<Rightarrow> 'd option" where
  "address host_from enabled bind_iface bind_port hosts =
     (if \<not> enabled then None
      else case hosts of
        Some (h # _) \<Rightarrow> Some (host_from h)
      | _ \<Rightarrow> Some (host_from (socket_url bind_iface bind_port)))"

definition ws_address :: "(string \<Rightarrow> 'd) \<Rightarrow> 'd ws_configuration \<Rightarrow> 'd option" where
  "ws_address host_from conf = address host_from (wc_enabled conf) (wc_interface conf) (wc_port conf) (wc_hosts conf)"

section \<open>The servers\<close>

text \<open>
  An I/O handler with its middleware: the rate limit of the WebSocket dispatcher, if there is one,
  the batch limit, and the delegates.
\<close>

record 'l io_handler =
  ih_max_req_per_sec :: "nat option"
  ih_max_batch_size :: nat
  ih_delegates :: "'l delegate list"

datatype request_action = Respond string | Proceed

record ('l, 'v, 'u) http_builder =
  hb_handler :: "'l io_handler"
  hb_threads :: nat
  hb_request_middleware :: "'u \<Rightarrow> request_action"
  hb_cors :: 'v
  hb_allowed_hosts :: 'v

record ('l, 'v) ws_builder =
  wb_handler :: "'l io_handler"
  wb_allowed_origins :: 'v
  wb_allowed_hosts :: 'v
  wb_max_connections :: nat

record ('d, 'v, 'a, 'srv, 'e, 'l, 'u) rpc_env =
  host_from :: "string \<Rightarrow> 'd"
  host_to_string :: "'d \<Rightarrow> string"
  host_deref :: "'d \<Rightarrow> string"
  origin_from :: "string \<Rightarrow> 'd"
  cors_from :: "string \<Rightarrow> 'd"
  validation_from :: "'d list option \<Rightarrow> 'v"
  parse_addr :: "string \<Rightarrow> 'a option"
  uri_eq :: "'u \<Rightarrow> string \<Rightarrow> bool"
  builder_start_http :: "('l, 'v, 'u) http_builder \<Rightarrow> 'a \<Rightarrow> ('srv, 'e) outcome"
  builder_start_ws :: "('l, 'v) ws_builder \<Rightarrow> 'a \<Rightarrow> ('srv, 'e) outcome"
  http_addr_in_use :: "'e \<Rightarrow> bool"
  ws_addr_in_use :: "'e \<Rightarrow> bool"
  http_error_debug :: "'e \<Rightarrow> string"
  ws_error_debug :: "'e \<Rightarrow> string"
  str_order :: "string set \<Rightarrow> string list"
  api_order :: "api set \<Rightarrow> api list"

definition status_middleware :: "('u \<Rightarrow> string \<Rightarrow> bool) \<Rightarrow> 'u \<Rightarrow> request_action" where
  "status_middleware eq uri = (if eq uri ''/status'' then Respond '''' else Proceed)"

definition start_http ::
  "('d, 'v, 'a, 'srv, 'e, 'l, 'u) rpc_env \<Rightarrow> 'a \<Rightarrow> 'v \<Rightarrow> 'v \<Rightarrow> 'l io_handler \<Rightarrow> nat \<Rightarrow> ('srv, 'e) outcome" where
  "start_http env addr cors_domains allowed_hosts handler threads =
     builder_start_http env
       \<lparr>hb_handler = handler, hb_threads = threads, hb_request_middleware = status_middleware (uri_eq env),
        hb_cors = cors_domains, hb_allowed_hosts = allowed_hosts\<rparr> addr"

definition start_ws ::
  "('d, 'v, 'a, 'srv, 'e, 'l, 'u) rpc_env \<Rightarrow> 'a \<Rightarrow> 'l io_handler \<Rightarrow> 'v \<Rightarrow> 'v \<Rightarrow> nat \<Rightarrow> ('srv, 'e) outcome" where
  "start_ws env addr handler allowed_origins allowed_hosts max_connections =
     builder_start_ws env
       \<lparr>wb_handler = handler, wb_allowed_origins = allowed_origins, wb_allowed_hosts = allowed_hosts,
        wb_max_connections = max_connections\<rparr> addr"

section \<open>Assembling a server\<close>

definition into_domains :: "('d list option \<Rightarrow> 'v) \<Rightarrow> (string \<Rightarrow> 'd) \<Rightarrow> string list option \<Rightarrow> 'v" where
  "into_domains validation conv items = validation (map_option (map conv) items)"

definition with_domain ::
  "('d, 'v, 'a, 'srv, 'e, 'l, 'u) rpc_env \<Rightarrow> string list option \<Rightarrow> 'd option \<Rightarrow> string list option" where
  "with_domain env items dapps_address =
     map_option (\<lambda>items. str_order env
       (case dapps_address of
          Some host \<Rightarrow> insert (str_replace ''127.0.0.1'' ''localhost'' (host_deref env host))
                         (insert (host_to_string env host) (set items))
        | None \<Rightarrow> set items)) items"

definition setup_apis ::
  "('d, 'v, 'a, 'srv, 'e, 'l, 'u) rpc_env \<Rightarrow> 'l \<Rightarrow> api_set \<Rightarrow> nat \<Rightarrow> 'l broker \<Rightarrow> 'l io_handler \<times> 'l broker" where
  "setup_apis env l apis max_batch_size br =
     (let (ds, br') = extend_with_set l (api_order env (list_apis apis)) ([], br)
      in (\<lparr>ih_max_req_per_sec = None, ih_max_batch_size = max_batch_size, ih_delegates = ds\<rparr>, br'))"

definition new_ws ::
  "('d, 'v, 'a, 'srv, 'e, 'l, 'u) rpc_env \<Rightarrow> 'l \<Rightarrow> 'd ws_configuration \<Rightarrow> 'l broker
   \<Rightarrow> ('srv option, string) outcome \<times> 'l broker" where
  "new_ws env l conf br =
     (if \<not> wc_enabled conf then (Ok None, br)
      else let url = socket_url (wc_interface conf) (wc_port conf) in
      case parse_addr env url of
        None \<Rightarrow> (Err (''Invalid WebSockets listen host/port given: '' @ url), br)
      | Some addr \<Rightarrow>
          (let (ds, br') = extend_with_set l (api_order env (list_apis (wc_apis conf))) ([], br);
               handler = \<lparr>ih_max_req_per_sec = Some (wc_max_req_per_sec conf),
                          ih_max_batch_size = wc_max_batch_size conf, ih_delegates = ds\<rparr>;
               allowed_origins = into_domains (validation_from env) (origin_from env)
                                   (with_domain env (wc_origins conf) (wc_dapps_address conf));
               allowed_hosts = into_domains (validation_from env) (host_from env)
                                 (with_domain env (wc_hosts conf) (Some (host_from env url)))
           in (case start_ws env addr handler allowed_origins allowed_hosts (wc_max_connections conf) of
                 Ok server \<Rightarrow> Ok (Some server)
               | Err e \<Rightarrow>
                   if ws_addr_in_use env e
                   then Err (''WebSockets address '' @ url @ '' is already in use, make sure that another instance of an Ethereum client is not running or change the address using the --ws-port and --ws-interface options.'')
                   else Err (''WebSockets error: '' @ ws_error_debug env e)
               | Panic \<Rightarrow> Panic, br')))"

definition new_http ::
  "('d, 'v, 'a, 'srv, 'e, 'l, 'u) rpc_env \<Rightarrow> 'l \<Rightarrow> string \<Rightarrow> string \<Rightarrow> http_configuration \<Rightarrow> 'l broker
   \<Rightarrow> ('srv option, string) outcome \<times> 'l broker" where
  "new_http env l ident options conf br =
     (if \<not> hc_enabled conf then (Ok None, br)
      else let url = socket_url (hc_interface conf) (hc_port conf) in
      case parse_addr env url of
        None \<Rightarrow> (Err (''Invalid '' @ ident @ '' listen host/port given: '' @ url), br)
      | Some addr \<Rightarrow>
          (let (handler, br') = setup_apis env l (hc_apis conf) (hc_max_batch_size conf) br;
               cors_domains = into_domains (validation_from env) (cors_from env) (hc_cors conf);
               allowed_hosts = into_domains (validation_from env) (host_from env)
                                 (with_domain env (hc_hosts conf) (Some (host_from env url)))
           in (case start_http env addr cors_domains allowed_hosts handler (hc_server_threads conf) of
                 Ok server \<Rightarrow> Ok (Some server)
               | Err e \<Rightarrow>
                   if http_addr_in_use env e
                   then Err (ident @ '' address '' @ url @ '' is already in use, make sure that another instance of an Ethereum client is not running or change the address using the --'' @ options @ ''-port and --'' @ options @ ''-interface options.'')
                   else Err (ident @ '' error: '' @ http_error_debug env e)
               | Panic \<Rightarrow> Panic, br')))"

section \<open>The lists of allowed hosts\<close>

text \<open>A hash set is listed completely.\<close>

definition lists_strings :: "('d, 'v, 'a, 'srv, 'e, 'l, 'u) rpc_env \<Rightarrow> bool" where
  "lists_strings env \<longleftrightarrow> (\<forall>s. finite s \<longrightarrow> set (str_order env s) = s)"

definition lists_apis :: "('d, 'v, 'a, 'srv, 'e, 'l, 'u) rpc_env \<Rightarrow> bool" where
  "lists_apis env \<longleftrightarrow> (\<forall>a. visits (api_order env a) a)"

lemma with_domain_hosts:
  assumes "lists_strings env" and "with_domain env items (Some host) = Some hosts"
  shows "\<exists>given. items = Some given \<and> set hosts =
    set given \<union> {host_to_string env host, str_replace ''127.0.0.1'' ''localhost'' (host_deref env host)}"
  using assms by (auto simp: with_domain_def lists_strings_def)

text \<open>Replacement leaves a string without the pattern alone and turns a leading occurrence.\<close>

lemma str_replace_none: "\<not> sublist pat s \<Longrightarrow> str_replace pat to s = s"
proof (induction pat to s rule: str_replace.induct)
  case (2 pat to x xs)
  then show ?case by (auto simp: sublist_Cons_right)
qed simp

lemma str_replace_prefix: "pat \<noteq> [] \<Longrightarrow> str_replace pat to (pat @ s) = to @ str_replace pat to s"
  by (cases pat) simp_all

end
