(* ===== verification/Run.thy ===== *)
theory Run
  imports Rpc Keymanager
begin

text \<open>
  \<open>src/run.rs\<close> and \<open>start\<close> of \<open>src/lib.rs\<close>: how the gateway is put together and how it is shut down.
  The runtime, the timer and the clock are inputs; the references to the notification handlers of the
  two servers' publish/subscribe clients are arguments.
\<close>

section \<open>Start\<close>

record 'srv running_gateway =
  rg_blockchain :: blockchain
  rg_km_client :: mock_client
  rg_http_server :: "'srv option"
  rg_ws_server :: "'srv option"

definition execute_ws_conf :: "(string \<Rightarrow> 'd) \<Rightarrow> string \<Rightarrow> u16 \<Rightarrow> nat \<Rightarrow> 'd ws_configuration" where
  "execute_ws_conf hf iface ws_port ws_max_connections =
     (ws_configuration_default hf)\<lparr>wc_origins := None, wc_hosts := None, wc_interface := iface,
       wc_port := ws_port, wc_max_connections := ws_max_connections\<rparr>"

definition execute_http_conf :: "string \<Rightarrow> u16 \<Rightarrow> nat \<Rightarrow> http_configuration" where
  "execute_http_conf iface http_port num_threads =
     http_configuration_default\<lparr>hc_cors := None, hc_hosts := None, hc_interface := iface,
       hc_port := http_port, hc_server_threads := num_threads\<rparr>"

text \<open>The parameters of \<open>execute\<close> that come from the command line.\<close>

record gateway_args =
  ga_pubsub_interval_secs :: u64
  ga_interface :: string
  ga_http_port :: u16
  ga_num_threads :: nat
  ga_ws_port :: u16
  ga_ws_max_connections :: nat
  ga_gas_price :: u256
  ga_block_gas_limit :: u256

text \<open>
  \<open>runtime\<close> is the result of creating the runtime and \<open>new_interval\<close> that of creating the timer, which
  panics for some durations.  The key manager is shared: its state is part of the world from then on.
  The result carries the broker and the world, which outlive \<open>execute\<close>.
\<close>

definition execute ::
  "'s chain_lib \<Rightarrow> ('d, 'v, 'a, 'srv, 'e, 'l, 'u) rpc_env \<Rightarrow> (unit, string) outcome \<Rightarrow> (u64 \<Rightarrow> (unit, string) outcome)
   \<Rightarrow> 'l \<Rightarrow> 'l \<Rightarrow> mock_client \<Rightarrow> gateway_args \<Rightarrow> world \<Rightarrow> ('srv running_gateway \<times> 'l broker \<times> world, string) outcome" where
  "execute lib env runtime new_interval ws_client http_client km_client args w =
     and_then runtime (\<lambda>_.
     let (r, w') = blockchain_new lib (ga_gas_price args) (ga_block_gas_limit args) (w\<lparr>w_km := km_client\<rparr>) in
     and_then r (\<lambda>bc.
     let br0 = broker_new in
     and_then (new_interval (ga_pubsub_interval_secs args)) (\<lambda>_.
     let ws_conf = execute_ws_conf (host_from env) (ga_interface args) (ga_ws_port args) (ga_ws_max_connections args);
         http_conf = execute_http_conf (ga_interface args) (ga_http_port args) (ga_num_threads args);
         (ws, br1) = new_ws env ws_client ws_conf br0
     in and_then ws (\<lambda>ws_server.
     let (http, br2) = new_http env http_client ''HTTP JSON-RPC'' ''jsonrpc'' http_conf br1
     in and_then http (\<lambda>http_server.
       Ok (\<lparr>rg_blockchain = bc, rg_km_client = km_client, rg_http_server = http_server, rg_ws_server = ws_server\<rparr>, br2, w'))))))"

definition start ::
  "'s chain_lib \<Rightarrow> ('d, 'v, 'a, 'srv, 'e, 'l, 'u) rpc_env \<Rightarrow> (unit, string) outcome \<Rightarrow> (u64 \<Rightarrow> (unit, string) outcome)
   \<Rightarrow> 'l \<Rightarrow> 'l \<Rightarrow> gateway_args \<Rightarrow> world \<Rightarrow> ('srv running_gateway \<times> 'l broker \<times> world, string) outcome" where
  "start lib env runtime new_interval ws_client http_client args w =
     execute lib env runtime new_interval ws_client http_client mock_client_new args w"

section \<open>Shutdown\<close>

text \<open>
  The loop that waits until the last reference to the blockchain is gone.  In round \<open>i\<close>, \<open>check i\<close> and
  \<open>check2 i\<close> are the two readings of the elapsed time in nanoseconds and \<open>dropped i\<close> tells that the
  weak reference cannot be upgraded.  The result is the list of warnings and the number of the last
  round.  The loop has no bound of its own: it is a partial function.
\<close>

definition SEC :: nat where
  "SEC = 1000000000"

definition slow_warning :: string where
  "slow_warning = ''Shutdown is taking longer than expected''"

definition timeout_warning :: string where
  "timeout_warning = ''Shutdown timeout reached, exiting uncleanly''"

partial_function (option) wait_loop ::
  "(nat \<Rightarrow> nat) \<Rightarrow> (nat \<Rightarrow> bool) \<Rightarrow> (nat \<Rightarrow> nat) \<Rightarrow> nat \<Rightarrow> bool \<Rightarrow> string list \<Rightarrow> (string list \<times> nat) option" where
  "wait_loop check dropped check2 i warned out =
     (if check i < 300 * SEC
      then if dropped i then Some (out, i)
           else if \<not> warned \<and> check2 i > 60 * SEC
           then wait_loop check dropped check2 (Suc i) True (out @ [slow_warning])
           else wait_loop check dropped check2 (Suc i) warned out
      else Some (out @ [timeout_warning], i))"

definition wait_for_drop :: "(nat \<Rightarrow> nat) \<Rightarrow> (nat \<Rightarrow> bool) \<Rightarrow> (nat \<Rightarrow> nat) \<Rightarrow> (string list \<times> nat) option" where
  "wait_for_drop check dropped check2 = wait_loop check dropped check2 0 False []"

text \<open>\<open>shutdown\<close>: what is dropped, in order, and then the wait.\<close>

datatype 'srv released = RuntimeR | HttpServerR "'srv option" | WsServerR "'srv option" | BlockchainR | KmClientR mock_client

definition shutdown ::
  "'srv running_gateway \<Rightarrow> (nat \<Rightarrow> nat) \<Rightarrow> (nat \<Rightarrow> bool) \<Rightarrow> (nat \<Rightarrow> nat) \<Rightarrow> 'srv released list \<times> (string list \<times> nat) option" where
  "shutdown g check dropped check2 =
     ([RuntimeR, HttpServerR (rg_http_server g), WsServerR (rg_ws_server g), BlockchainR, KmClientR (rg_km_client g)],
      wait_for_drop check dropped check2)"

text \<open>
  What the standard library promises: the monotonic clock does not run backwards, and \<open>thread::sleep\<close>
  blocks for at least the time it is given.
\<close>

definition clock_law :: "(nat \<Rightarrow> nat) \<Rightarrow> (nat \<Rightarrow> nat) \<Rightarrow> bool" where
  "clock_law check check2 \<longleftrightarrow> (\<forall>i. check i \<le> check2 i \<and> check2 i + SEC \<le> check (Suc i))"

lemma clock_lower_bound: "clock_law check check2 \<Longrightarrow> i * SEC \<le> check i"
proof (induction i)
  case (Suc i)
  then have "check i + SEC \<le> check (Suc i)" unfolding clock_law_def by (meson add_le_mono1 le_trans)
  with Suc show ?case by simp
qed simp

text \<open>The loop from round \<open>i\<close> on, if \<open>k\<close> more rounds are certainly enough.\<close>

lemma wait_loop_returns:
  assumes "clock_law check check2" and "i + k = 300" and "warned \<longleftrightarrow> (\<exists>j<i. check2 j > 60 * SEC)"
    and "out = (if warned then [slow_warning] else [])" and "\<forall>j<i. check j < 300 * SEC \<and> \<not> dropped j"
  shows "\<exists>n\<le>300. wait_loop check dropped check2 i warned out =
      Some ((if \<exists>j<n. check2 j > 60 * SEC then [slow_warning] else []) @ (if check n < 300 * SEC then [] else [timeout_warning]), n)
    \<and> (\<forall>j<n. check j < 300 * SEC \<and> \<not> dropped j) \<and> (check n < 300 * SEC \<longrightarrow> dropped n)"
  using assms(2-5)
proof (induction k arbitrary: i warned out)
  case 0
  then have "300 * SEC \<le> check i" using clock_lower_bound [OF assms(1), of i] by simp
  with 0 show ?case by (intro exI [of _ i]) (simp add: wait_loop.simps)
next
  case (Suc k)
  show ?case
  proof (cases "check i < 300 * SEC \<and> \<not> dropped i")
    case False
    with Suc.prems show ?thesis by (intro exI [of _ i]) (auto simp: wait_loop.simps)
  next
    case True
    let ?w = "warned \<or> check2 i > 60 * SEC"
    have "\<exists>n\<le>300. wait_loop check dropped check2 (Suc i) ?w (if ?w then [slow_warning] else []) =
        Some ((if \<exists>j<n. check2 j > 60 * SEC then [slow_warning] else []) @ (if check n < 300 * SEC then [] else [timeout_warning]), n)
      \<and> (\<forall>j<n. check j < 300 * SEC \<and> \<not> dropped j) \<and> (check n < 300 * SEC \<longrightarrow> dropped n)"
      using Suc.prems True by (intro Suc.IH) (auto simp: less_Suc_eq)
    moreover have "wait_loop check dropped check2 i warned out =
        wait_loop check dropped check2 (Suc i) ?w (if ?w then [slow_warning] else [])"
      using True Suc.prems(3) by (subst wait_loop.simps) (cases warned; auto)
    ultimately show ?thesis by simp
  qed
qed

section \<open>Properties\<close>

text \<open>
  C19. Shutdown ends: whatever holds on to the blockchain, the waiting loop returns after at most 300
  rounds.  It returns in the first round in which it finds the reference dropped, if that is before
  the timeout, and otherwise in the first round after the timeout with the timeout warning; the
  other warning is given at most once, if a round before the last was slower than a minute.
\<close>

theorem wait_for_drop_returns:
  assumes "clock_law check check2"
  shows "\<exists>n\<le>300. wait_for_drop check dropped check2 =
      Some ((if \<exists>j<n. check2 j > 60 * SEC then [slow_warning] else []) @ (if check n < 300 * SEC then [] else [timeout_warning]), n)
    \<and> (\<forall>j<n. check j < 300 * SEC \<and> \<not> dropped j) \<and> (check n < 300 * SEC \<longrightarrow> dropped n)"
  unfolding wait_for_drop_def by (rule wait_loop_returns [OF assms, of 0 300]) simp_all

theorem wait_for_drop_returns_witness:
  "wait_for_drop (\<lambda>i. 2 * i * SEC) (\<lambda>i. i = 40) (\<lambda>i. 2 * i * SEC) = Some ([slow_warning], 40)"
proof -
  have "clock_law (\<lambda>i. 2 * i * SEC) (\<lambda>i. 2 * i * SEC)" by (simp add: clock_law_def)
  from wait_for_drop_returns [OF this, of "\<lambda>i. i = 40"] obtain n where
    r: "wait_for_drop (\<lambda>i. 2 * i * SEC) (\<lambda>i. i = 40) (\<lambda>i. 2 * i * SEC) =
        Some ((if \<exists>j<n. 60 * SEC < 2 * j * SEC then [slow_warning] else []) @ (if 2 * n * SEC < 300 * SEC then [] else [timeout_warning]), n)"
    and n: "\<forall>j<n. j \<noteq> 40" "2 * n * SEC < 300 * SEC \<longrightarrow> n = 40" by blast
  have "0 < SEC" by (simp add: SEC_def)
  moreover have "n \<le> 40" using n(1) by (metis not_le)
  ultimately have "n = 40" using n(2) by simp
  moreover have "\<exists>j<40. 60 * SEC < 2 * j * SEC" by (rule exI [of _ 31]) (simp add: SEC_def)
  ultimately show ?thesis using r \<open>0 < SEC\<close> by simp
qed

end
