(* ===== verification/Gateway.thy ===== *)
theory Gateway
  imports Run
begin

text \<open>
  The composition of the servers, the API registration and the broker by \<open>start\<close> and \<open>execute\<close>: what
  a gateway that has started consists of, and what its publish/subscribe clients are told.
\<close>

section \<open>The two servers\<close>

definition all_delegates :: "'l \<Rightarrow> 'l delegate set" where
  "all_delegates l = {Web3Client, NetClient, EthClient, EthSigningClient, EthFilterClient, EthPubSubClient l, OasisClient}"

lemma all_delegates_eq: "(\<Union>a. set (api_delegates l a)) = all_delegates l"
proof -
  have "(\<Union>a. set (api_delegates l a)) = (\<Union>a\<in>{Web3, Net, Eth, EthPubSub, Oasis}. set (api_delegates l a))"
    by (simp only: all_apis)
  then show ?thesis by (auto simp: api_delegates_def all_delegates_def)
qed

text \<open>The handler of a server with the default APIs.\<close>

definition serves_all :: "nat option \<Rightarrow> 'l \<Rightarrow> 'l io_handler \<Rightarrow> bool" where
  "serves_all limit l h \<longleftrightarrow> ih_max_req_per_sec h = limit \<and> ih_max_batch_size h = 10
     \<and> distinct (ih_delegates h) \<and> set (ih_delegates h) = all_delegates l"

lemma default_registration:
  assumes "lists_apis env"
  obtains ds where "extend_with_set l (api_order env (list_apis UnsafeContext)) ([], br) = (ds, add_listener br l)"
    "distinct ds" "set ds = all_delegates l"
proof -
  have "visits (api_order env UNIV) UNIV" using assms by (simp add: lists_apis_def)
  from registration [OF this, of l "[]" br] that show thesis
    by (auto simp: all_apis all_delegates_eq)
qed

lemma execute_new_ws:
  assumes "lists_apis env"
    and "new_ws env l (execute_ws_conf (host_from env) iface port max_conn) br = (Ok server, br')"
  shows "br' = add_listener br l \<and> (\<exists>s a wb. server = Some s \<and> parse_addr env (socket_url iface port) = Some a
    \<and> builder_start_ws env wb a = Ok s \<and> serves_all (Some 50) l (wb_handler wb)
    \<and> wb_allowed_origins wb = validation_from env None \<and> wb_allowed_hosts wb = validation_from env None
    \<and> wb_max_connections wb = max_conn)"
proof -
  obtain ds where ds: "extend_with_set l (api_order env (list_apis UnsafeContext)) ([], br) = (ds, add_listener br l)"
    "distinct ds" "set ds = all_delegates l" using default_registration [OF assms(1)] .
  let ?wb = "\<lparr>wb_handler = \<lparr>ih_max_req_per_sec = Some 50, ih_max_batch_size = 10, ih_delegates = ds\<rparr>,
    wb_allowed_origins = validation_from env None, wb_allowed_hosts = validation_from env None, wb_max_connections = max_conn\<rparr>"
  obtain a where a: "parse_addr env (socket_url iface port) = Some a"
    using assms(2) by (auto simp: new_ws_def Let_def execute_ws_conf_def ws_configuration_default_def split: option.splits)
  with assms(2) ds(1) obtain s where "builder_start_ws env ?wb a = Ok s" "server = Some s" "br' = add_listener br l"
    by (auto simp: new_ws_def Let_def execute_ws_conf_def ws_configuration_default_def start_ws_def into_domains_def with_domain_def
        simp del: list_apis.simps split: outcome.splits if_splits)
  with a ds(2,3) show ?thesis
    by (intro conjI exI [of _ s] exI [of _ a] exI [of _ ?wb]) (simp_all add: serves_all_def)
qed

lemma execute_new_http:
  assumes "lists_apis env"
    and "new_http env l ident opts (execute_http_conf iface port threads) br = (Ok server, br')"
  shows "br' = add_listener br l \<and> (\<exists>s a hb. server = Some s \<and> parse_addr env (socket_url iface port) = Some a
    \<and> builder_start_http env hb a = Ok s \<and> serves_all None l (hb_handler hb)
    \<and> hb_cors hb = validation_from env None \<and> hb_allowed_hosts hb = validation_from env None
    \<and> hb_threads hb = threads \<and> hb_request_middleware hb = status_middleware (uri_eq env))"
proof -
  obtain ds where ds: "extend_with_set l (api_order env (list_apis UnsafeContext)) ([], br) = (ds, add_listener br l)"
    "distinct ds" "set ds = all_delegates l" using default_registration [OF assms(1)] .
  let ?hb = "\<lparr>hb_handler = \<lparr>ih_max_req_per_sec = None, ih_max_batch_size = 10, ih_delegates = ds\<rparr>,
    hb_threads = threads, hb_request_middleware = status_middleware (uri_eq env),
    hb_cors = validation_from env None, hb_allowed_hosts = validation_from env None\<rparr>"
  obtain a where a: "parse_addr env (socket_url iface port) = Some a"
    using assms(2) by (auto simp: new_http_def Let_def execute_http_conf_def http_configuration_default_def split: option.splits)
  with assms(2) ds(1) obtain s where "builder_start_http env ?hb a = Ok s" "server = Some s" "br' = add_listener br l"
    by (auto simp: new_http_def Let_def setup_apis_def execute_http_conf_def http_configuration_default_def start_http_def
        into_domains_def with_domain_def simp del: list_apis.simps split: outcome.splits if_splits)
  with a ds(2,3) show ?thesis
    by (intro conjI exI [of _ s] exI [of _ a] exI [of _ ?hb]) (simp_all add: serves_all_def)
qed

lemma execute_steps:
  assumes "execute lib env runtime new_interval c1 c2 km args w = Ok (g, br, w')"
  obtains br1 where
    "blockchain_new lib (ga_gas_price args) (ga_block_gas_limit args) (w\<lparr>w_km := km\<rparr>) = (Ok (rg_blockchain g) :: (blockchain, string) outcome, w')"
    "new_ws env c1 (execute_ws_conf (host_from env) (ga_interface args) (ga_ws_port args) (ga_ws_max_connections args)) broker_new
       = (Ok (rg_ws_server g), br1)"
    "new_http env c2 ''HTTP JSON-RPC'' ''jsonrpc'' (execute_http_conf (ga_interface args) (ga_http_port args) (ga_num_threads args)) br1
       = (Ok (rg_http_server g), br)"
    "rg_km_client g = km"
proof -
  obtain r w1 where b: "blockchain_new lib (ga_gas_price args) (ga_block_gas_limit args) (w\<lparr>w_km := km\<rparr>) = (r :: (blockchain, string) outcome, w1)"
    by (meson surj_pair)
  obtain ws br1 where ws: "new_ws env c1 (execute_ws_conf (host_from env) (ga_interface args) (ga_ws_port args)
      (ga_ws_max_connections args)) broker_new = (ws, br1)" by (meson surj_pair)
  obtain http br2 where http: "new_http env c2 ''HTTP JSON-RPC'' ''jsonrpc''
      (execute_http_conf (ga_interface args) (ga_http_port args) (ga_num_threads args)) br1 = (http, br2)" by (meson surj_pair)
  have "r = Ok (rg_blockchain g)" "w1 = w'" "ws = Ok (rg_ws_server g)" "http = Ok (rg_http_server g)" "br2 = br" "rg_km_client g = km"
    using assms b ws http by (auto simp: execute_def Let_def)
  with b ws http that show thesis by simp
qed

lemma execute_listeners:
  assumes "lists_apis env" and "execute lib env runtime new_interval c1 c2 km args w = Ok (g, br, w')"
  shows "br = \<lparr>last_notified_block = 0, listeners = [c1, c2]\<rparr>"
proof -
  obtain br1 where "br1 = add_listener broker_new c1" "br = add_listener br1 c2"
    using execute_steps [OF assms(2)] execute_new_ws [OF assms(1)] execute_new_http [OF assms(1)] by metis
  then show ?thesis by (simp add: add_listener_def broker_new_def)
qed

lemma execute_chain_start:
  assumes "collision_free lib" and "execute lib env runtime new_interval c1 c2 km args w = Ok (g, br, w')"
  shows "chain_start lib (rg_blockchain g, w')"
  using execute_steps [OF assms(2)] assms(1) by (metis chain_start_def fst_conv snd_conv)

text \<open>A server starts when its address is valid and can be bound; otherwise the reason is reported.\<close>

lemma new_ws_starts:
  assumes "parse_addr env (socket_url iface port) = Some a" and "\<And>b. \<exists>s. builder_start_ws env b a = Ok s"
  shows "\<exists>s br'. new_ws env l (execute_ws_conf (host_from env) iface port max_conn) br = (Ok (Some s), br')"
proof -
  obtain ds br' where "extend_with_set l (api_order env (list_apis UnsafeContext)) ([], br) = (ds, br')" by (meson surj_pair)
  moreover from assms(2) obtain s where "builder_start_ws env
      \<lparr>wb_handler = \<lparr>ih_max_req_per_sec = Some 50, ih_max_batch_size = 10, ih_delegates = ds\<rparr>,
       wb_allowed_origins = validation_from env None, wb_allowed_hosts = validation_from env None, wb_max_connections = max_conn\<rparr> a = Ok s"
    by blast
  ultimately show ?thesis using assms(1)
    by (simp add: new_ws_def execute_ws_conf_def ws_configuration_default_def start_ws_def into_domains_def with_domain_def
        del: list_apis.simps)
qed

definition http_start_error :: "('d, 'v, 'a, 'srv, 'e, 'l, 'u) rpc_env \<Rightarrow> string \<Rightarrow> string \<Rightarrow> string \<Rightarrow> 'e \<Rightarrow> string" where
  "http_start_error env ident opts url e =
     (if http_addr_in_use env e
      then ident @ '' address '' @ url @ '' is already in use, make sure that another instance of an Ethereum client is not running or change the address using the --'' @ opts @ ''-port and --'' @ opts @ ''-interface options.''
      else ident @ '' error: '' @ http_error_debug env e)"

lemma new_http_result:
  assumes "parse_addr env (socket_url iface port) = Some a"
  shows "\<exists>b br'. new_http env l ident opts (execute_http_conf iface port threads) br =
    (case builder_start_http env b a of
       Ok s \<Rightarrow> Ok (Some s)
     | Err e \<Rightarrow> Err (http_start_error env ident opts (socket_url iface port) e)
     | Panic \<Rightarrow> Panic, br')"
proof -
  obtain h br' where h: "setup_apis env l UnsafeContext 10 br = (h, br')" by (meson surj_pair)
  let ?b = "\<lparr>hb_handler = h, hb_threads = threads, hb_request_middleware = status_middleware (uri_eq env),
    hb_cors = validation_from env None, hb_allowed_hosts = validation_from env None\<rparr>"
  from assms h show ?thesis
    by (intro exI [of _ ?b] exI [of _ br'])
      (simp add: new_http_def Let_def execute_http_conf_def http_configuration_default_def start_http_def into_domains_def with_domain_def
        http_start_error_def split: outcome.split)
qed

lemma default_urls: "socket_url ''127.0.0.1'' 8546 = ''127.0.0.1:8546''" "socket_url ''127.0.0.1'' 8545 = ''127.0.0.1:8545''"
  by (simp_all add: socket_url_def dec_string_def radix_string.simps digit_char_def char_of_def bit_0)

text \<open>What \<open>execute\<close> does once the chain exists and the WebSocket server can listen.\<close>

lemma execute_result:
  assumes "blockchain_new lib (ga_gas_price args) (ga_block_gas_limit args) (w\<lparr>w_km := km\<rparr>) = (Ok bc :: (blockchain, string) outcome, w')"
    and "new_interval (ga_pubsub_interval_secs args) = Ok ()"
    and "parse_addr env (socket_url (ga_interface args) (ga_ws_port args)) = Some a1" and "\<And>b. \<exists>s. builder_start_ws env b a1 = Ok s"
    and "parse_addr env (socket_url (ga_interface args) (ga_http_port args)) = Some a2"
  shows "\<exists>ws b br. execute lib env (Ok ()) new_interval c1 c2 km args w =
    (case builder_start_http env b a2 of
       Ok s \<Rightarrow> Ok (\<lparr>rg_blockchain = bc, rg_km_client = km, rg_http_server = Some s, rg_ws_server = Some ws\<rparr>, br, w')
     | Err e \<Rightarrow> Err (http_start_error env ''HTTP JSON-RPC'' ''jsonrpc'' (socket_url (ga_interface args) (ga_http_port args)) e)
     | Panic \<Rightarrow> Panic)"
proof -
  obtain ws br1 where ws: "new_ws env c1 (execute_ws_conf (host_from env) (ga_interface args) (ga_ws_port args) (ga_ws_max_connections args)) broker_new
      = (Ok (Some ws), br1)" using new_ws_starts [OF assms(3,4)] by blast
  obtain b br where "new_http env c2 ''HTTP JSON-RPC'' ''jsonrpc'' (execute_http_conf (ga_interface args) (ga_http_port args) (ga_num_threads args)) br1 =
    (case builder_start_http env b a2 of
       Ok s \<Rightarrow> Ok (Some s)
     | Err e \<Rightarrow> Err (http_start_error env ''HTTP JSON-RPC'' ''jsonrpc'' (socket_url (ga_interface args) (ga_http_port args)) e)
     | Panic \<Rightarrow> Panic, br)"
    using new_http_result [OF assms(5)] by blast
  with ws assms(1,2) show ?thesis
    by (intro exI [of _ ws] exI [of _ b] exI [of _ br]) (simp add: execute_def Let_def split: outcome.split)
qed

section \<open>A concrete gateway\<close>

definition local_rpc_env :: "(string, string list option, string, nat, string, 'l, string) rpc_env" where
  "local_rpc_env =
     \<lparr>host_from = \<lambda>s. s, host_to_string = \<lambda>h. h, host_deref = \<lambda>h. h, origin_from = \<lambda>s. s, cors_from = \<lambda>s. s,
      validation_from = \<lambda>v. v, parse_addr = Some, uri_eq = (=),
      builder_start_http = \<lambda>b a. Ok (hb_threads b), builder_start_ws = \<lambda>b a. Ok (wb_max_connections b),
      http_addr_in_use = \<lambda>e. False, ws_addr_in_use = \<lambda>e. False, http_error_debug = \<lambda>e. e, ws_error_debug = \<lambda>e. e,
      str_order = \<lambda>s. [], api_order = \<lambda>s. filter (\<lambda>a. a \<in> s) [Web3, Net, Eth, EthPubSub, Oasis]\<rparr>"

abbreviation sample_rpc_env :: "(string, string list option, string, nat, string, nat, string) rpc_env" where
  "sample_rpc_env \<equiv> local_rpc_env"

definition sample_args :: gateway_args where
  "sample_args =
     \<lparr>ga_pubsub_interval_secs = 1, ga_interface = ''127.0.0.1'', ga_http_port = 8545, ga_num_threads = 3,
      ga_ws_port = 8546, ga_ws_max_connections = 5, ga_gas_price = 1, ga_block_gas_limit = 10\<rparr>"

lemma sample_lists_apis: "lists_apis local_rpc_env"
proof -
  have "set [a\<leftarrow>[Web3, Net, Eth, EthPubSub, Oasis]. a \<in> s] = s" for s
    using all_apis by (metis Int_UNIV_left Int_def list.simps(15) list.set(1) mem_Collect_eq set_filter)
  then show ?thesis unfolding lists_apis_def visits_def local_rpc_env_def by simp
qed

definition sample_gateway :: "nat running_gateway" where
  "sample_gateway =
     \<lparr>rg_blockchain = fst (sample_node []), rg_km_client = mock_client_new, rg_http_server = Some 3, rg_ws_server = Some 5\<rparr>"

lemma sample_world_km [simp]: "sample_world\<lparr>w_km := mock_client_new\<rparr> = sample_world"
  by (simp add: sample_world_def)

lemma sample_execute_lib:
  "blockchain_new lib 1 10 sample_world = (Ok (fst (sample_node [])) :: (blockchain, string) outcome, snd (sample_node [])) \<Longrightarrow>
   execute lib local_rpc_env (Ok ()) (\<lambda>_. Ok ()) c1 c2 mock_client_new sample_args sample_world =
     Ok (sample_gateway, \<lparr>last_notified_block = 0, listeners = [c1, c2]\<rparr>, snd (sample_node []))"
  by (simp add: execute_def Let_def sample_args_def new_ws_def new_http_def setup_apis_def
      execute_ws_conf_def ws_configuration_default_def execute_http_conf_def http_configuration_default_def
      local_rpc_env_def start_ws_def start_http_def extend_with_set_eq broker_new_def sample_gateway_def)

lemmas sample_execute = sample_execute_lib [OF sample_node_start(6)]

section \<open>Properties\<close>

text \<open>
  C25. A gateway that has started serves every API on both servers: each handler has the delegates of
  all five APIs, none twice, with batches of at most ten calls; WebSocket sessions are limited to 50
  requests per second and HTTP is not; host, origin and CORS validation are switched off; the status
  page is served; the limits given on the command line are used; and the broker knows the
  notification handlers of exactly the two publish/subscribe clients, each once.
\<close>

theorem gateway_serves_every_api:
  assumes "lists_apis env" and "execute lib env runtime new_interval c1 c2 km args w = Ok (g, br, w')"
  shows "\<exists>ws http a1 a2 wb hb. rg_ws_server g = Some ws \<and> rg_http_server g = Some http \<and> rg_km_client g = km
    \<and> parse_addr env (socket_url (ga_interface args) (ga_ws_port args)) = Some a1 \<and> builder_start_ws env wb a1 = Ok ws
    \<and> parse_addr env (socket_url (ga_interface args) (ga_http_port args)) = Some a2 \<and> builder_start_http env hb a2 = Ok http
    \<and> serves_all (Some 50) c1 (wb_handler wb) \<and> serves_all None c2 (hb_handler hb)
    \<and> wb_allowed_origins wb = validation_from env None \<and> wb_allowed_hosts wb = validation_from env None
    \<and> hb_cors hb = validation_from env None \<and> hb_allowed_hosts hb = validation_from env None
    \<and> wb_max_connections wb = ga_ws_max_connections args \<and> hb_threads hb = ga_num_threads args
    \<and> hb_request_middleware hb = status_middleware (uri_eq env)
    \<and> br = \<lparr>last_notified_block = 0, listeners = [c1, c2]\<rparr>"
proof -
  obtain br1 where
    ws: "new_ws env c1 (execute_ws_conf (host_from env) (ga_interface args) (ga_ws_port args) (ga_ws_max_connections args)) broker_new
       = (Ok (rg_ws_server g), br1)"
    and http: "new_http env c2 ''HTTP JSON-RPC'' ''jsonrpc'' (execute_http_conf (ga_interface args) (ga_http_port args) (ga_num_threads args)) br1
       = (Ok (rg_http_server g), br)"
    and km: "rg_km_client g = km" by (rule execute_steps [OF assms(2)])
  from execute_new_ws [OF assms(1) ws] execute_new_http [OF assms(1) http] execute_listeners [OF assms] km
  show ?thesis by metis
qed

theorem gateway_serves_every_api_witness:
  "\<exists>a1 a2 wb hb. parse_addr sample_rpc_env (socket_url ''127.0.0.1'' 8546) = Some a1 \<and> builder_start_ws sample_rpc_env wb a1 = Ok 5
    \<and> parse_addr sample_rpc_env (socket_url ''127.0.0.1'' 8545) = Some a2 \<and> builder_start_http sample_rpc_env hb a2 = Ok 3
    \<and> serves_all (Some 50) 0 (wb_handler wb) \<and> serves_all None 1 (hb_handler hb)"
  using gateway_serves_every_api [OF sample_lists_apis sample_execute, of "0 :: nat" 1]
  by (auto simp: sample_gateway_def sample_args_def)

end
