(* ===== verification/Eth_Pubsub.thy ===== *)
theory Eth_Pubsub
  imports Pubsub
begin

text \<open>
  \<open>src/impls/eth_pubsub.rs\<close>: the publish/subscribe API.  The subscription table belongs to the RPC
  library: a table of type \<open>'c\<close> with entries \<open>'x\<close> is used through the record \<open>subs_lib\<close>.  What the
  handler sends is a list of pairs of a sink and a result; sending itself is I/O.
\<close>

section \<open>Subscribers and notifications\<close>

record ('c, 'x) subs_lib =
  subs_default :: 'c
  subs_push :: "'c \<Rightarrow> bytes \<Rightarrow> 'x \<Rightarrow> 'c"
  subs_remove :: "'c \<Rightarrow> string \<Rightarrow> 'x option \<times> 'c"
  subs_values :: "'c \<Rightarrow> 'x list"
  subs_is_empty :: "'c \<Rightarrow> bool"

datatype pubsub_result = Header rich_header | Log localized_log_entry | TransactionOutcomeR h256 bytes

record tx_entry =
  te_transaction_hash :: h256
  te_from_address :: bytes
  te_to_address :: "bytes option"

record ('h, 'l, 't) eth_pubsub_client =
  heads_subscribers :: 'h
  logs_subscribers :: 'l
  tx_subscribers :: 't

definition eth_pubsub_client_new ::
  "('h, 'k) subs_lib \<Rightarrow> ('l, 'k \<times> log_filter) subs_lib \<Rightarrow> ('t, 'k \<times> 'f) subs_lib \<Rightarrow> ('h, 'l, 't) eth_pubsub_client" where
  "eth_pubsub_client_new hl ll xl =
     \<lparr>heads_subscribers = subs_default hl, logs_subscribers = subs_default ll, tx_subscribers = subs_default xl\<rparr>"

text \<open>
  \<open>notify_heads\<close>: the table is consulted once when the handler is called and again when the blocks
  have been fetched, by then as the table \<open>later\<close>; \<open>at n\<close> is the chain when block \<open>n\<close> is fetched.  An
  error is logged by the task and nothing is sent.
\<close>

definition fetch_header :: "'s chain_lib \<Rightarrow> blockchain \<Rightarrow> u64 \<Rightarrow> (rich_header, string) outcome" where
  "fetch_header lib bc n =
     and_then (get_block_by_number bc n) (\<lambda>blk.
       map_ok (rich_header_of lib) (ok_or ''block not found'' blk))"

definition notify_heads ::
  "'s chain_lib \<Rightarrow> ('h, 'k) subs_lib \<Rightarrow> (u64 \<Rightarrow> blockchain) \<Rightarrow> 'h \<Rightarrow> 'h \<Rightarrow> u64 \<Rightarrow> u64
   \<Rightarrow> (('k \<times> pubsub_result) list, string) outcome" where
  "notify_heads lib hl at subscribers later from_number to_number =
     (if subs_is_empty hl subscribers then Ok []
      else map_ok (\<lambda>headers. concat (map (\<lambda>header. map (\<lambda>subscriber. (subscriber, Header header)) (subs_values hl later)) headers))
             (try_map (\<lambda>n. fetch_header lib (at n) n) (block_range from_number to_number)))"

text \<open>
  \<open>notify_logs\<close>: one task for each subscriber, with the subscriber's filter limited to the range.
\<close>

definition notify_logs_task ::
  "'s chain_lib \<Rightarrow> blockchain \<Rightarrow> (u64 \<Rightarrow> blockchain) \<Rightarrow> u64 \<Rightarrow> u64 \<Rightarrow> 'k \<times> log_filter
   \<Rightarrow> (('k \<times> pubsub_result) list, string) outcome" where
  "notify_logs_task lib bc at from_number to_number sub =
     (let flt = (snd sub)\<lparr>from_block := Number from_number, to_block := Number to_number\<rparr>
      in map_ok (map (\<lambda>log. (fst sub, Log log))) (logs_between lib bc bc at flt))"

definition notify_logs ::
  "'s chain_lib \<Rightarrow> ('l, 'k \<times> log_filter) subs_lib \<Rightarrow> blockchain \<Rightarrow> (u64 \<Rightarrow> blockchain) \<Rightarrow> 'l \<Rightarrow> u64 \<Rightarrow> u64
   \<Rightarrow> (('k \<times> pubsub_result) list, string) outcome list" where
  "notify_logs lib ll bc at subscribers from_number to_number =
     map (notify_logs_task lib bc at from_number to_number) (subs_values ll subscribers)"

text \<open>The listener's two callbacks; each element of the result is what one task sends.\<close>

definition notify_blocks ::
  "'s chain_lib \<Rightarrow> ('h, 'k) subs_lib \<Rightarrow> ('l, 'k \<times> log_filter) subs_lib \<Rightarrow> blockchain \<Rightarrow> (u64 \<Rightarrow> blockchain)
   \<Rightarrow> ('h, 'l, 't) eth_pubsub_client \<Rightarrow> 'h \<Rightarrow> u64 \<Rightarrow> u64 \<Rightarrow> (('k \<times> pubsub_result) list, string) outcome list" where
  "notify_blocks lib hl ll bc at c later from_number to_number =
     notify_heads lib hl at (heads_subscribers c) later from_number to_number
     # notify_logs lib ll bc at (logs_subscribers c) from_number to_number"

definition notify_completed_transaction ::
  "('f \<Rightarrow> tx_entry \<Rightarrow> bool) \<Rightarrow> ('t, 'k \<times> 'f) subs_lib \<Rightarrow> ('h, 'l, 't) eth_pubsub_client \<Rightarrow> tx_entry \<Rightarrow> bytes
   \<Rightarrow> ('k \<times> pubsub_result) list" where
  "notify_completed_transaction tx_matches xl c te out =
     map (\<lambda>sub. (fst sub, TransactionOutcomeR (te_transaction_hash te) out))
       (filter (\<lambda>sub. tx_matches (snd sub) te) (subs_values xl (tx_subscribers c)))"

section \<open>Subscribing\<close>

datatype kind = NewHeads | Logs | NewPendingTransactions | CompletedTransaction | Syncing

datatype 'f params = LogsParams log_filter | TransactionParams 'f

text \<open>The errors of the RPC library that the client rejects a subscription with.\<close>

datatype reject = InvalidParamsFor string string | Unimplemented

text \<open>The random bytes are those of the new subscription identifier.\<close>

fun subscribe ::
  "('h, 'k) subs_lib \<Rightarrow> ('l, 'k \<times> log_filter) subs_lib \<Rightarrow> ('t, 'k \<times> 'f) subs_lib \<Rightarrow> bytes
   \<Rightarrow> ('h, 'l, 't) eth_pubsub_client \<Rightarrow> 'k \<Rightarrow> kind \<Rightarrow> 'f params option
   \<Rightarrow> reject option \<times> ('h, 'l, 't) eth_pubsub_client" where
  "subscribe hl ll xl rnd c sub NewHeads None =
     (None, c\<lparr>heads_subscribers := subs_push hl (heads_subscribers c) rnd sub\<rparr>)"
| "subscribe hl ll xl rnd c sub NewHeads (Some _) = (Some (InvalidParamsFor ''newHeads'' ''Expected no parameters.''), c)"
| "subscribe hl ll xl rnd c sub Logs (Some (LogsParams flt)) =
     (None, c\<lparr>logs_subscribers := subs_push ll (logs_subscribers c) rnd (sub, flt)\<rparr>)"
| "subscribe hl ll xl rnd c sub Logs _ = (Some (InvalidParamsFor ''logs'' ''Expected a filter object.''), c)"
| "subscribe hl ll xl rnd c sub CompletedTransaction (Some (TransactionParams flt)) =
     (None, c\<lparr>tx_subscribers := subs_push xl (tx_subscribers c) rnd (sub, flt)\<rparr>)"
| "subscribe hl ll xl rnd c sub NewPendingTransactions _ = (Some Unimplemented, c)"
| "subscribe hl ll xl rnd c sub _ _ = (Some Unimplemented, c)"

definition unsubscribe ::
  "('h, 'k) subs_lib \<Rightarrow> ('l, 'k \<times> log_filter) subs_lib \<Rightarrow> ('t, 'k \<times> 'f) subs_lib
   \<Rightarrow> ('h, 'l, 't) eth_pubsub_client \<Rightarrow> string \<Rightarrow> bool \<times> ('h, 'l, 't) eth_pubsub_client" where
  "unsubscribe hl ll xl c sid =
     (let (res, h) = subs_remove hl (heads_subscribers c) sid;
          (res2, l) = subs_remove ll (logs_subscribers c) sid;
          (res3, t) = subs_remove xl (tx_subscribers c) sid
      in (res \<noteq> None \<or> res2 \<noteq> None \<or> res3 \<noteq> None,
          c\<lparr>heads_subscribers := h, logs_subscribers := l, tx_subscribers := t\<rparr>))"

section \<open>What subscribers are sent\<close>

definition sent_to :: "'k \<Rightarrow> ('k \<times> 'r) list \<Rightarrow> 'r list" where
  "sent_to k evs = map snd (filter (\<lambda>ev. fst ev = k) evs)"

lemma sent_to_broadcast:
  assumes "filter (\<lambda>s. s = k) subs = [k]"
  shows "sent_to k (concat (map (\<lambda>x. map (\<lambda>s. (s, f x)) subs) xs)) = map f xs"
proof -
  have "filter (\<lambda>ev. fst ev = k) (map (\<lambda>s. (s, f x)) subs) = [(k, f x)]" for x
    using assms by (simp add: filter_map comp_def)
  then show ?thesis by (induction xs) (simp_all add: sent_to_def)
qed

text \<open>The chain at later moments: any states that follow and in which the node still runs.\<close>

definition later_states :: "'s chain_lib \<Rightarrow> blockchain \<Rightarrow> world \<Rightarrow> (u64 \<Rightarrow> blockchain) \<Rightarrow> bool" where
  "later_states lib bc w at \<longleftrightarrow> (\<forall>n. \<exists>w'. (chain_step lib)\<^sup>*\<^sup>* (bc, w) (at n, w') \<and> \<not> bc_poisoned (at n))"

lemma later_lookup:
  assumes "reachable (chain_start lib) (chain_step lib) (bc, w)" and "later_states lib bc w at"
    and "n \<le> cs_block_number (bc_chain_state bc)"
  shows "\<exists>b. cs_get_block_by_number (bc_chain_state bc) n = Some b \<and> get_block_by_number (at n) n = Ok (Some b)"
proof -
  have inv: "blocks_inv lib (bc_chain_state bc)" using assms(1) by (rule reachable_blocks_inv)
  obtain w' where w': "(chain_step lib)\<^sup>*\<^sup>* (bc, w) (at n, w')" "\<not> bc_poisoned (at n)"
    using assms(2) unfolding later_states_def by blast
  have "chain_grows (bc, w) (at n, w')" using cg.reachable_steps_grow [OF assms(1) w'(1)] .
  from grown_lookup [OF this, of lib n] inv assms(3) chain.block_found [OF inv assms(3)] w'(2)
  show ?thesis by (auto simp: get_block_by_number_def read_state_def)
qed

lemma fetch_headers_ok:
  assumes "reachable (chain_start lib) (chain_step lib) (bc, w)" and "later_states lib bc w at"
    and "hi \<le> cs_block_number (bc_chain_state bc)"
  shows "try_map (\<lambda>n. fetch_header lib (at n) n) (block_range lo hi)
    = Ok (map (rich_header_of lib) (chain_slice (bc_chain_state bc) lo hi))"
proof -
  have "fetch_header lib (at n) n = Ok (rich_header_of lib (the (cs_get_block_by_number (bc_chain_state bc) n)))"
    if "n \<in> set (block_range lo hi)" for n
  proof -
    have "n \<le> cs_block_number (bc_chain_state bc)" using that assms(3) by (auto simp: set_block_range)
    then obtain b where "cs_get_block_by_number (bc_chain_state bc) n = Some b"
      "get_block_by_number (at n) n = (Ok (Some b) :: (ethereum_block option, string) outcome)"
      using later_lookup [OF assms(1,2)] by blast
    then show ?thesis by (simp add: fetch_header_def)
  qed
  then show ?thesis
    unfolding chain_slice_eq [OF assms(3)] by (subst try_map_all_Ok) (auto simp: comp_def)
qed

text \<open>
  C18. A notification about new blocks reaches the subscribers completely: each subscriber to new
  heads is sent the headers of exactly the announced blocks, in order, and each subscriber to logs
  is sent the logs of these blocks that match its filter, in order, also when further blocks are
  mined meanwhile; none of the tasks fails or panics.
\<close>

theorem block_notifications_complete:
  assumes "reachable (chain_start lib) (chain_step lib) (bc, w)" and "\<not> bc_poisoned bc" and "later_states lib bc w at"
    and "from_number \<le> to_number" and "to_number \<le> cs_block_number (bc_chain_state bc)"
    and "\<not> subs_is_empty hl (heads_subscribers c)" and "filter (\<lambda>s. s = k) (subs_values hl later) = [k]"
    and "(k', flt) \<in> set (subs_values ll (logs_subscribers c))"
  shows "\<exists>heads tasks. notify_blocks lib hl ll bc at c later from_number to_number = Ok heads # tasks
    \<and> sent_to k heads = map (\<lambda>b. Header (rich_header_of lib b)) (chain_slice (bc_chain_state bc) from_number to_number)
    \<and> Ok (map (\<lambda>l. (k', Log l))
          (filter (\<lambda>l. filter_matches lib (flt\<lparr>from_block := Number from_number, to_block := Number to_number\<rparr>) (entry l))
             (concat (map eb_logs (chain_slice (bc_chain_state bc) from_number to_number))))) \<in> set tasks"
proof -
  let ?cs = "bc_chain_state bc" and ?flt = "flt\<lparr>from_block := Number from_number, to_block := Number to_number\<rparr>"
  let ?slice = "chain_slice (bc_chain_state bc) from_number to_number"
  have inv: "blocks_inv lib ?cs" using assms(1) by (rule reachable_blocks_inv)
  obtain fb tb where b: "cs_get_block_by_number ?cs from_number = Some fb" "eb_number fb = from_number"
    "cs_get_block_by_number ?cs to_number = Some tb" "eb_number tb = to_number"
    using chain.block_found [OF inv order_trans [OF assms(4,5)]] chain.block_found [OF inv assms(5)] by blast
  have g: "get_block bc (from_block ?flt) = (Ok (Some fb) :: (ethereum_block option, string) outcome)"
    "get_block bc (to_block ?flt) = (Ok (Some tb) :: (ethereum_block option, string) outcome)"
    using b assms(2) by (simp_all add: get_block_by_number_def read_state_def)
  have "logs_between lib bc bc at ?flt =
      Ok (filter (\<lambda>l. filter_matches lib ?flt (entry l)) (concat (map eb_logs ?slice)))"
    using logs_between_eq [OF assms(1) rtranclp.rtrancl_refl _ g, of at] assms(3) b
    by (simp add: later_states_def number_u64_def)
  then have "notify_logs_task lib bc at from_number to_number (k', flt) =
      Ok (map (\<lambda>l. (k', Log l)) (filter (\<lambda>l. filter_matches lib ?flt (entry l)) (concat (map eb_logs ?slice))))"
    by (simp add: notify_logs_task_def)
  then have logs: "Ok (map (\<lambda>l. (k', Log l)) (filter (\<lambda>l. filter_matches lib ?flt (entry l)) (concat (map eb_logs ?slice))))
      \<in> set (notify_logs lib ll bc at (logs_subscribers c) from_number to_number)"
    using assms(8) unfolding notify_logs_def by (metis image_eqI set_map)
  obtain heads where h: "notify_heads lib hl at (heads_subscribers c) later from_number to_number = Ok heads"
    "sent_to k heads = map (\<lambda>b. Header (rich_header_of lib b)) ?slice"
    using assms(6) fetch_headers_ok [OF assms(1,3,5), of from_number] sent_to_broadcast [OF assms(7), of "\<lambda>b. Header (rich_header_of lib b)"]
    by (simp add: notify_heads_def comp_def)
  show ?thesis using h logs by (simp add: notify_blocks_def)
qed

text \<open>A subscription table for the witness: the list of its entries.\<close>

definition list_subs :: "('x list, 'x) subs_lib" where
  "list_subs = \<lparr>subs_default = [], subs_push = (\<lambda>c rnd x. c @ [x]), subs_remove = (\<lambda>c i. (None, c)),
     subs_values = (\<lambda>c. c), subs_is_empty = (\<lambda>c. c = [])\<rparr>"

theorem block_notifications_complete_witness:
  "\<exists>heads tasks. notify_blocks sample_chain list_subs list_subs (fst (sample_node [])) (\<lambda>_. fst (sample_node []))
      \<lparr>heads_subscribers = [''a''], logs_subscribers = [(''b'', all_logs)], tx_subscribers = ()\<rparr> [''a''] 0 0 = Ok heads # tasks
    \<and> length (sent_to ''a'' heads) = 1"
proof -
  let ?bc = "fst (sample_node [])" and ?w = "snd (sample_node [])"
  let ?c = "\<lparr>heads_subscribers = [''a''], logs_subscribers = [(''b'', all_logs)], tx_subscribers = ()\<rparr>"
  have l: "later_states sample_chain ?bc ?w (\<lambda>_. ?bc)"
    unfolding later_states_def using sample_node_start(2) by blast
  have le: "(0 :: u64) \<le> 0" "0 \<le> cs_block_number (bc_chain_state ?bc)" by simp_all
  have h: "\<not> subs_is_empty list_subs (heads_subscribers ?c)" "filter (\<lambda>s. s = ''a'') (subs_values list_subs [''a'']) = [''a'']"
    "(''b'', all_logs) \<in> set (subs_values list_subs (logs_subscribers ?c))"
    by (simp_all add: list_subs_def)
  have "length (chain_slice (bc_chain_state ?bc) 0 0) = 1"
    by (simp add: chain_slice_eq [OF le(2)] block_range_single)
  with block_notifications_complete [OF sample_reachable sample_node_start(2) l le h] show ?thesis by fastforce
qed

end
