(* ===== verification/Eth_Filter.thy ===== *)
theory Eth_Filter
  imports Eth_Pubsub
begin

text \<open>
  \<open>src/impls/eth_filter.rs\<close>: installed filters that a client polls for changes.  The table of polls
  belongs to the RPC library and is used through the record \<open>poll_lib\<close>: \<open>poll_mut\<close> returns the entry
  and \<open>poll_write\<close> is an assignment through the reference it gave.  So do the conversion of a filter
  and the limitation of a list of logs.
\<close>

section \<open>The filter client\<close>

datatype 'f poll_filter = PfBlock u64 | PfPendingTransaction "h256 list" | PfLogs u64 'f

record ('p, 'f) poll_lib =
  polls_new :: 'p
  create_poll :: "'p \<Rightarrow> 'f poll_filter \<Rightarrow> nat \<times> 'p"
  poll_get :: "'p \<Rightarrow> nat \<Rightarrow> 'f poll_filter option \<times> 'p"
  poll_mut :: "'p \<Rightarrow> nat \<Rightarrow> 'f poll_filter option \<times> 'p"
  poll_write :: "'p \<Rightarrow> nat \<Rightarrow> 'f poll_filter \<Rightarrow> 'p"
  remove_poll :: "'p \<Rightarrow> nat \<Rightarrow> bool \<times> 'p"
  filter_into :: "'f \<Rightarrow> log_filter"
  limit_logs :: "localized_log_entry list \<Rightarrow> nat option \<Rightarrow> localized_log_entry list"

datatype filter_changes_result = HashesC "h256 list" | LogsC "localized_log_entry list"

datatype filter_error = FilterNotFound | Internal rpc_error

definition eth_filter_client_new :: "('p, 'f) poll_lib \<Rightarrow> 'p" where
  "eth_filter_client_new pl = polls_new pl"

definition new_filter :: "('p, 'f) poll_lib \<Rightarrow> blockchain \<Rightarrow> 'p \<Rightarrow> 'f \<Rightarrow> (nat \<times> 'p, filter_error) outcome" where
  "new_filter pl bc polls flt =
     map_ok (\<lambda>blk. create_poll pl polls (PfLogs (number_u64 blk) flt)) (get_latest_block bc)"

definition new_block_filter ::
  "'s chain_lib \<Rightarrow> ('p, 'f) poll_lib \<Rightarrow> blockchain \<Rightarrow> 'p \<Rightarrow> (nat \<times> 'p, filter_error) outcome" where
  "new_block_filter lib pl bc polls =
     and_then (get_latest_block bc) (\<lambda>blk.
     and_then (add_checked (chain_oc lib) (number_u64 blk) 1) (\<lambda>number.
       Ok (create_poll pl polls (PfBlock number))))"

definition new_pending_transaction_filter :: "('p, 'f) poll_lib \<Rightarrow> 'p \<Rightarrow> nat \<times> 'p" where
  "new_pending_transaction_filter pl polls = create_poll pl polls (PfPendingTransaction [])"

text \<open>
  The arms of \<open>filter_changes\<close>: given the stored number and the latest block \<open>blk\<close>, the answer and the
  number that is stored.  \<open>bc\<close> is the chain when the arm runs, which may be later than when \<open>blk\<close> was
  read, and \<open>at n\<close> the chain when block \<open>n\<close> is fetched.
\<close>

definition fetch_hash :: "blockchain \<Rightarrow> u64 \<Rightarrow> (h256, string) outcome" where
  "fetch_hash bc n = and_then (get_block_by_number bc n) (\<lambda>blk. map_ok block_hash (ok_or ''block not found'' blk))"

definition block_filter_changes ::
  "(u64 \<Rightarrow> blockchain) \<Rightarrow> u64 \<Rightarrow> ethereum_block \<Rightarrow> (filter_changes_result, filter_error) outcome \<times> u64" where
  "block_filter_changes at number blk =
     (map_ok HashesC (map_err (\<lambda>e. Internal (jsonrpc_error e))
        (try_map (\<lambda>n. fetch_hash (at n) n) (block_range number (number_u64 blk)))),
      number_u64 blk)"

definition logs_filter_changes ::
  "'s chain_lib \<Rightarrow> ('p, 'f) poll_lib \<Rightarrow> blockchain \<Rightarrow> (u64 \<Rightarrow> blockchain) \<Rightarrow> 'f \<Rightarrow> u64 \<Rightarrow> ethereum_block
   \<Rightarrow> (filter_changes_result, filter_error) outcome \<times> u64" where
  "logs_filter_changes lib pl bc at flt0 block_number blk =
     (let flt = (filter_into pl flt0)\<lparr>from_block := Number block_number, to_block := Latest\<rparr>
      in case add_checked (chain_oc lib) (number_u64 blk) 1 of
        Ok following \<Rightarrow>
          (map_ok (\<lambda>ls. LogsC (limit_logs pl ls (f_limit flt)))
             (map_err (\<lambda>e. Internal (jsonrpc_error e)) (logs_between lib bc bc at flt)),
           following)
      | Err (e :: string) \<Rightarrow> (Panic, block_number)
      | Panic \<Rightarrow> (Panic, block_number))"

definition filter_changes ::
  "'s chain_lib \<Rightarrow> ('p, 'f) poll_lib \<Rightarrow> blockchain \<Rightarrow> blockchain \<Rightarrow> (u64 \<Rightarrow> blockchain) \<Rightarrow> 'p \<Rightarrow> nat
   \<Rightarrow> (filter_changes_result, filter_error) outcome \<times> 'p" where
  "filter_changes lib pl bc bc2 at polls index =
     (case get_latest_block bc of
        Err e \<Rightarrow> (Err e, polls)
      | Panic \<Rightarrow> (Panic, polls)
      | Ok blk \<Rightarrow>
          (case poll_mut pl polls index of
             (None, polls1) \<Rightarrow> (Err FilterNotFound, polls1)
           | (Some (PfBlock number), polls1) \<Rightarrow>
               (let (r, number') = block_filter_changes at number blk
                in (r, poll_write pl polls1 index (PfBlock number')))
           | (Some (PfPendingTransaction _), polls1) \<Rightarrow> (Ok (HashesC []), polls1)
           | (Some (PfLogs block_number flt), polls1) \<Rightarrow>
               (let (r, number') = logs_filter_changes lib pl bc2 at flt block_number blk
                in (r, poll_write pl polls1 index (PfLogs number' flt)))))"

definition filter_logs ::
  "'s chain_lib \<Rightarrow> ('p, 'f) poll_lib \<Rightarrow> blockchain \<Rightarrow> (u64 \<Rightarrow> blockchain) \<Rightarrow> 'p \<Rightarrow> nat
   \<Rightarrow> (localized_log_entry list, filter_error) outcome \<times> 'p" where
  "filter_logs lib pl bc at polls index =
     (case poll_get pl polls index of
        (Some (PfLogs _ flt0), polls1) \<Rightarrow>
          (let flt = filter_into pl flt0
           in (map_ok (\<lambda>ls. limit_logs pl ls (f_limit flt))
                 (map_err (\<lambda>e. Internal (jsonrpc_error e)) (logs_between lib bc bc at flt)), polls1))
      | (Some _, polls1) \<Rightarrow> (Ok [], polls1)
      | (None, polls1) \<Rightarrow> (Err FilterNotFound, polls1))"

definition uninstall_filter :: "('p, 'f) poll_lib \<Rightarrow> 'p \<Rightarrow> nat \<Rightarrow> bool \<times> 'p" where
  "uninstall_filter pl polls index = remove_poll pl polls index"

section \<open>Polling a logs filter\<close>

text \<open>The blocks that a poll of a logs filter covers and the number it stores, by the latest number.\<close>

definition logs_poll :: "u64 \<Rightarrow> u64 \<Rightarrow> u64 list \<times> u64" where
  "logs_poll number n = (block_range number n, n + 1)"

interpretation lp: block_cursor logs_poll "\<lambda>number. number" "\<lambda>_. True"
  by unfold_locales (simp_all add: logs_poll_def)

definition chain_blocks_at :: "chain_state \<Rightarrow> u64 list \<Rightarrow> ethereum_block list" where
  "chain_blocks_at cs ns = map (\<lambda>n. the (cs_get_block_by_number cs n)) ns"

lemma chain_blocks_at_append: "chain_blocks_at cs (ms @ ns) = chain_blocks_at cs ms @ chain_blocks_at cs ns"
  by (simp add: chain_blocks_at_def)

text \<open>The logs of an answer: none if the poll failed.\<close>

fun answered_logs :: "(filter_changes_result, filter_error) outcome \<Rightarrow> localized_log_entry list" where
  "answered_logs (Ok (LogsC ls)) = ls"
| "answered_logs _ = []"

lemma number_free:
  "cs_block_number cs \<noteq> - 1 \<Longrightarrow> add_checked oc (cs_block_number cs) 1 = Ok (cs_block_number cs + 1)"
proof -
  assume n: "cs_block_number cs \<noteq> - 1"
  have "unat (cs_block_number cs + 1) < 2 ^ 64"
    using unsigned_less [of "cs_block_number cs + 1", where ?'a = nat] by simp
  then show ?thesis using unat_successor [OF n] by (intro add_checked_no_overflow) simp
qed

lemma number_added:
  "cs_block_number cs \<noteq> - 1 \<Longrightarrow> number_u64 blk = cs_block_number cs
   \<Longrightarrow> add_checked oc (number_u64 blk) 1 = Ok (cs_block_number cs + 1)"
  by (simp add: number_free)

lemma latest_block_facts:
  assumes "reachable (chain_start lib) (chain_step lib) (bc, w)" and "get_latest_block bc = (Ok blk :: (ethereum_block, string) outcome)"
  shows "cs_get_block_by_number (bc_chain_state bc) (cs_block_number (bc_chain_state bc)) = Some blk"
    "number_u64 blk = cs_block_number (bc_chain_state bc)"
proof -
  show b: "cs_get_block_by_number (bc_chain_state bc) (cs_block_number (bc_chain_state bc)) = Some blk"
    using assms(2) by (auto simp: get_latest_block_def read_state_def split: if_splits)
  then show "number_u64 blk = cs_block_number (bc_chain_state bc)"
    using chain.block_at_num [OF reachable_blocks_inv [OF assms(1)]] by (simp add: number_u64_def)
qed

text \<open>
  Documented behaviour of the library: a filter matches by address and topics, not by its range,
  and logs without a limit are not cut.
\<close>

definition plain_filter :: "'s chain_lib \<Rightarrow> ('p, 'f) poll_lib \<Rightarrow> 'f \<Rightarrow> bool" where
  "plain_filter lib pl f \<longleftrightarrow> f_limit (filter_into pl f) = None \<and> (\<forall>ls. limit_logs pl ls None = ls)
     \<and> (\<forall>n m l. filter_matches lib ((filter_into pl f)\<lparr>from_block := n, to_block := m\<rparr>) l
          = filter_matches lib (filter_into pl f) l)"

text \<open>
  One answer of a logs filter.  The log query runs on \<open>bc\<close>; the block that was the latest when the
  poll began only decides the number that is stored.
\<close>

definition ranged_filter :: "('p, 'f) poll_lib \<Rightarrow> 'f \<Rightarrow> u64 \<Rightarrow> log_filter" where
  "ranged_filter pl f number = (filter_into pl f)\<lparr>from_block := Number number, to_block := Latest\<rparr>"

lemma logs_filter_answer:
  assumes "reachable (chain_start lib) (chain_step lib) (bc, w)" and "\<not> bc_poisoned bc" and "later_states lib bc w at"
    and "add_checked (chain_oc lib) (number_u64 blk) 1 = (Ok m :: (u64, string) outcome)"
  shows "logs_filter_changes lib pl bc at f number blk =
    (if number \<le> cs_block_number (bc_chain_state bc)
     then Ok (LogsC (limit_logs pl (filter (\<lambda>l. filter_matches lib (ranged_filter pl f number) (entry l)) (concat (map eb_logs
       (chain_slice (bc_chain_state bc) number (cs_block_number (bc_chain_state bc)))))) (f_limit (filter_into pl f))))
     else Err (Internal (jsonrpc_error ''block not found'')), m)"
proof -
  let ?cs = "bc_chain_state bc" and ?n = "cs_block_number (bc_chain_state bc)" and ?flt = "ranged_filter pl f number"
  have inv: "blocks_inv lib ?cs" using assms(1) by (rule reachable_blocks_inv)
  obtain tb where tb: "get_latest_block bc = (Ok tb :: (ethereum_block, string) outcome)" "number_u64 tb = ?n"
    using latest_block_number [of lib "(bc, w)"] assms(1,2) by auto
  have to: "get_block bc (to_block ?flt) = (Ok (Some tb) :: (ethereum_block option, string) outcome)"
    using tb by (simp add: ranged_filter_def)
  have "logs_between lib bc bc at ?flt =
    (if number \<le> ?n then Ok (filter (\<lambda>l. filter_matches lib ?flt (entry l)) (concat (map eb_logs (chain_slice ?cs number ?n))))
     else Err ''block not found'')"
  proof (cases "number \<le> ?n")
    case True
    obtain fb where fb: "cs_get_block_by_number ?cs number = Some fb" "eb_number fb = number"
      using chain.block_found [OF inv True] by blast
    have "get_block bc (from_block ?flt) = (Ok (Some fb) :: (ethereum_block option, string) outcome)"
      using assms(2) fb by (simp add: ranged_filter_def get_block_by_number_def read_state_def)
    from logs_between_eq [OF assms(1) rtranclp.rtrancl_refl _ this to, of at] show ?thesis
      using True assms(3) fb tb(2) by (simp add: later_states_def number_u64_def)
  next
    case False
    then have "get_block bc (from_block ?flt) = (Ok None :: (ethereum_block option, string) outcome)"
      using assms(2) get_block_iff [OF inv, of number] by (simp add: ranged_filter_def get_block_by_number_def read_state_def)
    with False to show ?thesis by (simp add: logs_between_def)
  qed
  then show ?thesis using assms(4) by (simp add: logs_filter_changes_def ranged_filter_def Let_def)
qed

text \<open>The answer of a filter with no limit, and the number that is stored.\<close>

lemma plain_filter_answer:
  assumes "reachable (chain_start lib) (chain_step lib) (bc, w)" and "\<not> bc_poisoned bc" and "later_states lib bc w at"
    and "plain_filter lib pl f" and "add_checked (chain_oc lib) (number_u64 blk) 1 = (Ok m :: (u64, string) outcome)"
  shows "logs_filter_changes lib pl bc at f number blk =
    (if number \<le> cs_block_number (bc_chain_state bc)
     then Ok (LogsC (filter (\<lambda>l. filter_matches lib (filter_into pl f) (entry l)) (concat (map eb_logs
       (chain_slice (bc_chain_state bc) number (cs_block_number (bc_chain_state bc)))))))
     else Err (Internal (jsonrpc_error ''block not found'')), m)"
  using logs_filter_answer [OF assms(1-3,5), of pl f number] assms(4) by (simp add: plain_filter_def ranged_filter_def)

lemma plain_answered_logs:
  assumes "reachable (chain_start lib) (chain_step lib) (bc, w)" and "\<not> bc_poisoned bc" and "later_states lib bc w at"
    and "plain_filter lib pl f" and "add_checked (chain_oc lib) (number_u64 blk) 1 = (Ok m :: (u64, string) outcome)"
  shows "answered_logs (fst (logs_filter_changes lib pl bc at f number blk)) =
      filter (\<lambda>l. filter_matches lib (filter_into pl f) (entry l)) (concat (map eb_logs
        (chain_blocks_at (bc_chain_state bc) (block_range number (cs_block_number (bc_chain_state bc))))))"
    "snd (logs_filter_changes lib pl bc at f number blk) = m"
  unfolding plain_filter_answer [OF assms] by (simp_all add: chain_slice_eq chain_blocks_at_def block_range_empty)

text \<open>
  A sequence of polls of one logs filter.  Each poll reads the chain twice: its latest block in one
  state and its logs in a second one, where \<open>at\<close> gives the states of the single fetches.
\<close>

type_synonym logs_read = "(blockchain \<times> world) \<times> (blockchain \<times> world) \<times> (u64 \<Rightarrow> blockchain)"

fun run_logs_filter ::
  "'s chain_lib \<Rightarrow> ('p, 'f) poll_lib \<Rightarrow> 'f \<Rightarrow> u64 \<Rightarrow> logs_read list \<Rightarrow> (filter_changes_result, filter_error) outcome list" where
  "run_logs_filter lib pl f number [] = []"
| "run_logs_filter lib pl f number ((s, s2, at) # ps) =
     (case get_latest_block (fst s) :: (ethereum_block, string) outcome of
        Ok blk \<Rightarrow> (let (r, number') = logs_filter_changes lib pl (fst s2) at f number blk in r # run_logs_filter lib pl f number' ps)
      | _ \<Rightarrow> Panic # run_logs_filter lib pl f number ps)"

text \<open>The states that the polls read, in order, and what is required of the reads of one poll.\<close>

fun read_states :: "logs_read list \<Rightarrow> (blockchain \<times> world) list" where
  "read_states [] = []"
| "read_states ((s, s2, at) # ps) = s # s2 # read_states ps"

abbreviation read_best :: "blockchain \<times> world \<Rightarrow> u64" where
  "read_best s \<equiv> cs_block_number (bc_chain_state (fst s))"

definition healthy_read :: "'s chain_lib \<Rightarrow> logs_read \<Rightarrow> bool" where
  "healthy_read lib = (\<lambda>(s, s2, at). \<not> bc_poisoned (fst s) \<and> read_best s \<noteq> - 1 \<and> \<not> bc_poisoned (fst s2)
     \<and> later_states lib (fst s2) (snd s2) at)"

text \<open>No block is mined between the two reads of a poll.\<close>

definition race_free :: "logs_read \<Rightarrow> bool" where
  "race_free = (\<lambda>(s, s2, at). read_best s2 = read_best s)"

text \<open>The block numbers that the polls cover.\<close>

fun read_numbers :: "u64 \<Rightarrow> logs_read list \<Rightarrow> u64 list" where
  "read_numbers number [] = []"
| "read_numbers number ((s, s2, at) # ps) = block_range number (read_best s2) @ read_numbers (read_best s + 1) ps"

lemma run_logs_filter_numbers:
  assumes "plain_filter lib pl f" and "\<And>q. q \<in> set ps \<Longrightarrow> healthy_read lib q"
    and "\<And>s. s \<in> set (read_states ps) \<Longrightarrow> reachable (chain_start lib) (chain_step lib) s \<and> chain_grows s t"
  shows "concat (map answered_logs (run_logs_filter lib pl f number ps)) =
    filter (\<lambda>l. filter_matches lib (filter_into pl f) (entry l)) (concat (map eb_logs
      (chain_blocks_at (bc_chain_state (fst t)) (read_numbers number ps))))"
  using assms(2,3)
proof (induction ps arbitrary: number)
  case Nil
  then show ?case by (simp add: chain_blocks_at_def)
next
  case (Cons p ps)
  obtain bc w bc2 w2 at where p: "p = ((bc, w), (bc2, w2), at)" by (metis surj_pair)
  let ?n = "cs_block_number (bc_chain_state bc)" and ?cs2 = "bc_chain_state bc2"
  have ok: "\<not> bc_poisoned bc" "?n \<noteq> - 1" "\<not> bc_poisoned bc2" "later_states lib bc2 w2 at"
    using Cons.prems(1) [of p] p by (auto simp: healthy_read_def)
  have r: "reachable (chain_start lib) (chain_step lib) (bc, w)" "reachable (chain_start lib) (chain_step lib) (bc2, w2)"
    "chain_grows (bc2, w2) t" using Cons.prems(2) p by auto
  obtain blk where blk: "get_latest_block bc = (Ok blk :: (ethereum_block, string) outcome)" "number_u64 blk = ?n"
    using latest_block_number [of lib "(bc, w)"] r(1) ok(1) by auto
  note ans = plain_answered_logs [OF r(2) ok(3,4) assms(1) number_added [OF ok(2) blk(2)]]
  have "chain_blocks_at ?cs2 (block_range number (cs_block_number ?cs2)) =
      chain_blocks_at (bc_chain_state (fst t)) (block_range number (cs_block_number ?cs2))"
    unfolding chain_blocks_at_def
    by (rule map_cong) (use grown_lookup [OF r(3), of lib] reachable_blocks_inv [OF r(2)] in \<open>auto simp: set_block_range\<close>)
  with Cons.IH [of "?n + 1"] Cons.prems p blk(1) ans [of number] show ?case
    by (simp add: case_prod_beta chain_blocks_at_append)
qed

lemma read_states_last: "last (read_states (p # ps)) = fst (snd (last (p # ps)))" "read_states (p # ps) = fst p # fst (snd p) # read_states ps"
  by (induction ps arbitrary: p) (auto split: prod.split)

lemma sorted_reads:
  assumes "sorted (best_numbers (read_states (p # ps)))"
  shows "read_best (fst p) \<le> read_best (fst (snd p))" "read_best (fst (snd p)) \<le> read_best (fst (snd (last (p # ps))))"
    "q \<in> set ps \<Longrightarrow> read_best (fst (snd p)) \<le> read_best (fst q)" "sorted (best_numbers (read_states ps))"
    "sorted (map (\<lambda>q. read_best (fst q)) (p # ps))"
proof -
  have mem: "fst q \<in> set (read_states ps)" "fst (snd q) \<in> set (read_states ps)" if "q \<in> set ps" for q ps
    using that by (induction ps rule: read_states.induct) auto
  have best: "read_best s \<in> set (best_numbers (read_states ps))" if "s \<in> set (read_states ps)" for s ps
    using that by (simp add: best_numbers_def)
  have srt: "sorted (best_numbers (read_states (p # ps))) \<longleftrightarrow> read_best (fst p) \<le> read_best (fst (snd p))
      \<and> (\<forall>x \<in> set (best_numbers (read_states ps)). read_best (fst p) \<le> x \<and> read_best (fst (snd p)) \<le> x)
      \<and> sorted (best_numbers (read_states ps))" for p ps
    unfolding read_states_last(2) by (auto simp: best_numbers_def)
  show "read_best (fst p) \<le> read_best (fst (snd p))" "sorted (best_numbers (read_states ps))" using assms srt by auto
  show "read_best (fst (snd p)) \<le> read_best (fst q)" if "q \<in> set ps" using assms srt best mem(1) [OF that] by blast
  show "read_best (fst (snd p)) \<le> read_best (fst (snd (last (p # ps))))"
    using assms srt [of p ps] best mem(2) [of "last ps" ps] by (cases "ps = []") auto
  show "sorted (map (\<lambda>q. read_best (fst q)) (p # ps))"
    using assms
  proof (induction ps arbitrary: p)
    case (Cons q ps)
    from Cons.prems [unfolded srt [of p]] have "\<forall>x \<in> set (q # ps). read_best (fst p) \<le> read_best (fst x)"
      using best mem(1) by blast
    with Cons.prems Cons.IH [of q] srt [of p] show ?case by auto
  qed simp
qed

text \<open>Together the polls cover every number, races or not; without races, each one once.\<close>

lemma read_numbers_set:
  assumes "sorted (best_numbers (read_states (p # ps)))" and "\<And>q. q \<in> set (p # ps) \<Longrightarrow> read_best (fst q) \<noteq> - 1"
    and "number \<le> read_best (fst p) + 1"
  shows "set (read_numbers number (p # ps)) = set (block_range number (read_best (fst (snd (last (p # ps))))))"
  using assms
proof (induction ps arbitrary: p number)
  case Nil
  then show ?case by (cases p) simp
next
  case (Cons q ps)
  obtain s s2 at where p: "p = (s, s2, at)" by (metis surj_pair)
  obtain u u2 at' where q: "q = (u, u2, at')" by (metis surj_pair)
  let ?z = "read_best (fst (snd (last (q # ps))))"
  have le: "read_best s \<le> read_best s2" "read_best s2 \<le> read_best u" "read_best u \<le> ?z"
    using sorted_reads(1) [OF Cons.prems(1)] sorted_reads(3) [OF Cons.prems(1), of q]
      order_trans [OF sorted_reads(1,2) [OF sorted_reads(4) [OF Cons.prems(1)]]] p q by simp_all
  have n: "read_best s \<noteq> - 1" "read_best u \<noteq> - 1" using Cons.prems(2) [of p] Cons.prems(2) [of q] p q by simp_all
  have IH: "set (read_numbers (read_best s + 1) (q # ps)) = set (block_range (read_best s + 1) ?z)"
    using Cons.prems p q successor_mono [of "read_best s" "read_best u"] le n sorted_reads(4) [OF Cons.prems(1)]
    by (intro Cons.IH) auto
  have below: "x < read_best s + 1 \<longleftrightarrow> x \<le> read_best s" for x using successor_number(1,2) [OF n(1)] by force
  have "set (block_range number (read_best s2)) \<union> set (block_range (read_best s + 1) ?z) = set (block_range number ?z)"
    using le Cons.prems(3) p below by (auto simp: set_block_range not_le intro: order_trans)
  with IH p show ?case by simp
qed

lemma read_numbers_exact:
  assumes "sorted (best_numbers (read_states (p # ps)))" and "\<And>q. q \<in> set (p # ps) \<Longrightarrow> read_best (fst q) \<noteq> - 1"
    and "number \<le> read_best (fst p) + 1" and "\<And>q. q \<in> set (p # ps) \<Longrightarrow> race_free q"
  shows "read_numbers number (p # ps) = block_range number (read_best (fst (snd (last (p # ps)))))"
proof -
  let ?ns = "map (\<lambda>q. read_best (fst q))"
  have polls: "read_numbers number qs = fst (poll_all logs_poll number (?ns qs))" if "\<And>q. q \<in> set qs \<Longrightarrow> race_free q" for qs number
    using that
  proof (induction number qs rule: read_numbers.induct)
    case (2 number s s2 at qs)
    then have "read_best s2 = read_best s" using 2(2) [of "(s, s2, at)"] by (simp add: race_free_def)
    with 2 show ?case by (simp add: logs_poll_def case_prod_beta)
  qed simp
  have "- 1 \<notin> set (?ns (p # ps))" 
    unfolding set_map by (rule notI, erule imageE, drule sym) (use assms(2) in blast)
  then have "fst (poll_all logs_poll number (?ns (p # ps))) = block_range number (last (?ns (p # ps)))"
    using lp.exactly_once [of "read_best (fst p)" "?ns ps" number] sorted_reads(5) [OF assms(1)] assms(3) by simp
  moreover have "read_numbers number (p # ps) = fst (poll_all logs_poll number (?ns (p # ps)))"
    by (rule polls) (rule assms(4))
  moreover have "race_free (last (p # ps))" using assms(4) last_in_set by blast
  then have "last (?ns (p # ps)) = read_best (fst (snd (last (p # ps))))"
    by (subst last_map) (auto simp: race_free_def split: prod.splits)
  ultimately show ?thesis by (simp only:)
qed

lemma successive_grow:
  assumes "successively (\<lambda>s t. (chain_step lib)\<^sup>*\<^sup>* s t) (s # ss)" and "reachable (chain_start lib) (chain_step lib) s"
  shows "\<forall>t \<in> set (s # ss). chain_grows t (last (s # ss))"
  using assms
proof (induction ss arbitrary: s)
  case (Cons u ss)
  then have u: "reachable (chain_start lib) (chain_step lib) u" "chain_grows s u"
    using reachable_steps [of "chain_step lib" s u] cg.reachable_steps_grow [of lib s u] by auto
  have IH: "\<forall>t \<in> set (u # ss). chain_grows t (last (u # ss))" using Cons.IH [OF _ u(1)] Cons.prems(1) by simp
  then have "chain_grows s (last (u # ss))" using cg.grows_trans [OF u(2)] by simp
  with IH show ?case by simp
qed (simp add: cg.grows_refl)

section \<open>Properties\<close>

text \<open>
  C17. A logs filter without a limit loses nothing: the logs in the answers to any sequence of
  polls over a growing chain, where every poll reads the latest block in one state and its logs in a
  second, possibly later one, are the matching logs of the blocks from the one that was current when
  the filter was created to the one that was the latest at the last query, and no others.  As long as
  no block is mined between the two reads of any one poll, each log is delivered exactly once and in
  order.  A poll that fails because there is no new block delivers nothing.
\<close>

theorem logs_filter_exactly_once:
  assumes "plain_filter lib pl f" and "reachable (chain_start lib) (chain_step lib) (fst p)"
    and "successively (\<lambda>s t. (chain_step lib)\<^sup>*\<^sup>* s t) (read_states (p # ps))"
    and "\<And>q. q \<in> set (p # ps) \<Longrightarrow> healthy_read lib q"
    and "number \<le> read_best (fst p) + 1"
  shows "let t = fst (snd (last (p # ps)));
        delivered = concat (map answered_logs (run_logs_filter lib pl f number (p # ps)));
        expected = filter (\<lambda>l. filter_matches lib (filter_into pl f) (entry l)) (concat (map eb_logs
          (chain_slice (bc_chain_state (fst t)) number (read_best t))))
    in set delivered = set expected \<and> ((\<forall>q \<in> set (p # ps). race_free q) \<longrightarrow> delivered = expected)"
proof -
  let ?t = "fst (snd (last (p # ps)))" and ?nums = "read_numbers number (p # ps)"
  let ?sel = "\<lambda>ns. filter (\<lambda>l. filter_matches lib (filter_into pl f) (entry l)) (concat (map eb_logs (chain_blocks_at (bc_chain_state (fst ?t)) ns)))"
  note succ = assms(3) [unfolded read_states_last(2)]
  have srt: "sorted (best_numbers (read_states (p # ps)))"
    using successive_states [OF succ assms(2)] unfolding read_states_last(2) by blast
  have all: "reachable (chain_start lib) (chain_step lib) s \<and> chain_grows s ?t" if "s \<in> set (read_states (p # ps))" for s
    using that successive_states [OF succ assms(2)] successive_grow [OF succ assms(2)]
    unfolding read_states_last(1) [symmetric] read_states_last(2) by blast
  have d: "concat (map answered_logs (run_logs_filter lib pl f number (p # ps))) = ?sel ?nums"
    by (rule run_logs_filter_numbers [OF assms(1,4) all])
  have n: "read_best (fst q) \<noteq> - 1" if "q \<in> set (p # ps)" for q
    using assms(4) [OF that] by (auto simp: healthy_read_def split: prod.splits)
  have e: "?sel (block_range number (read_best ?t)) = filter (\<lambda>l. filter_matches lib (filter_into pl f) (entry l))
      (concat (map eb_logs (chain_slice (bc_chain_state (fst ?t)) number (read_best ?t))))"
    by (simp add: chain_slice_eq chain_blocks_at_def)
  have "set (?sel ?nums) = set (?sel (block_range number (read_best ?t)))"
    using read_numbers_set [OF srt n assms(5)] by (simp add: chain_blocks_at_def)
  moreover have "?sel ?nums = ?sel (block_range number (read_best ?t))" if "\<forall>q \<in> set (p # ps). race_free q"
    using read_numbers_exact [OF srt n assms(5)] that by simp
  ultimately show ?thesis unfolding Let_def d e by blast
qed

text \<open>A table of polls for the witness: a counter and a map.\<close>

definition map_polls :: "(nat \<times> (nat \<rightharpoonup> log_filter poll_filter), log_filter) poll_lib" where
  "map_polls =
     \<lparr>polls_new = (0, Map.empty), create_poll = (\<lambda>(k, m) f. (k, (Suc k, m(k \<mapsto> f)))),
      poll_get = (\<lambda>(k, m) i. (m i, (k, m))), poll_mut = (\<lambda>(k, m) i. (m i, (k, m))),
      poll_write = (\<lambda>(k, m) i f. (k, m(i \<mapsto> f))), remove_poll = (\<lambda>(k, m) i. (m i \<noteq> None, (k, m(i := None)))),
      filter_into = (\<lambda>f. f), limit_logs = (\<lambda>ls lim. ls)\<rparr>"

lemma sample_plain_filter: "plain_filter sample_chain map_polls all_logs"
  by (simp add: plain_filter_def map_polls_def all_logs_def)

text \<open>Two polls with one mined block, which has one log entry, between them.\<close>

theorem logs_filter_exactly_once_witness:
  "\<exists>bc' b log. cs_get_block_by_number (bc_chain_state bc') 1 = Some b \<and> eb_logs b = [log]
   \<and> concat (map answered_logs (run_logs_filter sample_chain map_polls all_logs 1
       [(sample_node [], sample_node [], \<lambda>_. fst (sample_node [])), ((bc', snd (sample_node [])), (bc', snd (sample_node [])), \<lambda>_. bc')])) = [log]"
proof -
  let ?s = "sample_node []"
  obtain bc' b where s: "successively (\<lambda>s t. (chain_step sample_chain)\<^sup>*\<^sup>* s t) [?s, (bc', snd ?s)]"
    and n: "\<not> bc_poisoned bc'" "cs_block_number (bc_chain_state bc') = 1"
    and b: "cs_get_block_by_number (bc_chain_state bc') 1 = Some b" "length (eb_logs b) = 1"
    using sample_successor by blast
  obtain log where log: "eb_logs b = [log]" using b(2) by (metis length_0_conv length_Suc_conv One_nat_def)
  let ?t = "(bc', snd ?s)" and ?p = "(?s, ?s, \<lambda>_ :: u64. fst ?s)" and ?q = "((bc', snd ?s), (bc', snd ?s), \<lambda>_ :: u64. bc')"
  have l: "later_states sample_chain (fst ?s) (snd ?s) (\<lambda>_. fst ?s)" "later_states sample_chain bc' (snd ?s) (\<lambda>_. bc')"
    unfolding later_states_def using sample_node_start(2) n(1) rtranclp.rtrancl_refl by (metis prod.collapse, blast)
  have su: "successively (\<lambda>s t. (chain_step sample_chain)\<^sup>*\<^sup>* s t) (read_states [?p, ?q])" using s by simp
  have h: "\<And>q. q \<in> set [?p, ?q] \<Longrightarrow> healthy_read sample_chain q"
    using n sample_node_start(2,5) l by (auto simp: healthy_read_def)
  have r: "reachable (chain_start sample_chain) (chain_step sample_chain) (fst ?p)" using sample_node_reachable [of "[]"] by simp
  have num: "(1 :: u64) \<le> read_best (fst ?p) + 1" using sample_node_start(5) by simp
  have "chain_slice (bc_chain_state bc') 1 1 = [b]"
    using n(2) b(1) chain_slice_eq [of 1 "bc_chain_state bc'" 1] by (simp add: block_range_single)
  moreover have "\<forall>q \<in> set [?p, ?q]. race_free q" by (simp add: race_free_def)
  ultimately have "concat (map answered_logs (run_logs_filter sample_chain map_polls all_logs 1 [?p, ?q])) = [log]"
    using logs_filter_exactly_once [OF sample_plain_filter r su h num] n(2) log
    by (simp add: Let_def del: run_logs_filter.simps)
  with b(1) log show ?thesis by blast
qed

lemma fetch_hashes_ok:
  assumes "reachable (chain_start lib) (chain_step lib) (bc, w)" and "later_states lib bc w at"
    and "hi \<le> cs_block_number (bc_chain_state bc)"
  shows "try_map (\<lambda>n. fetch_hash (at n) n) (block_range lo hi) = Ok (map block_hash (chain_slice (bc_chain_state bc) lo hi))"
proof -
  have "fetch_hash (at n) n = Ok (block_hash (the (cs_get_block_by_number (bc_chain_state bc) n)))"
    if "n \<in> set (block_range lo hi)" for n
  proof -
    have "n \<le> cs_block_number (bc_chain_state bc)" using that assms(3) by (auto simp: set_block_range)
    then obtain b where "cs_get_block_by_number (bc_chain_state bc) n = Some b"
      "get_block_by_number (at n) n = (Ok (Some b) :: (ethereum_block option, string) outcome)"
      using later_lookup [OF assms(1,2)] by blast
    then show ?thesis by (simp add: fetch_hash_def)
  qed
  then show ?thesis
    unfolding chain_slice_eq [OF assms(3)] by (subst try_map_all_Ok) (auto simp: comp_def)
qed

text \<open>
  C34. A block filter repeats itself: a poll stores the number of the latest block, not the next
  one, so that the following poll starts again with that block; if the first poll comes before any
  new block, the second one reports a block that existed before the filter was created.
\<close>

theorem block_filter_repeats_latest:
  assumes "reachable (chain_start lib) (chain_step lib) (bc1, w1)" and "(chain_step lib)\<^sup>*\<^sup>* (bc1, w1) (bc2, w2)"
    and "later_states lib bc1 w1 at1" and "later_states lib bc2 w2 at2"
    and "get_latest_block bc1 = (Ok blk1 :: (ethereum_block, string) outcome)"
    and "get_latest_block bc2 = (Ok blk2 :: (ethereum_block, string) outcome)"
  shows "\<exists>m m2 hs. block_filter_changes at1 number blk1 =
        (Ok (HashesC (map block_hash (chain_slice (bc_chain_state bc1) number (number_u64 blk1)))), m)
    \<and> block_filter_changes at2 m blk2 = (Ok (HashesC (block_hash blk1 # hs)), m2)"
proof -
  have r2: "reachable (chain_start lib) (chain_step lib) (bc2, w2)"
    by (rule reachable_steps [OF assms(2,1)])
  note f1 = latest_block_facts [OF assms(1,5)] and f2 = latest_block_facts [OF r2 assms(6)]
  have g: "chain_grows (bc1, w1) (bc2, w2)" using cg.reachable_steps_grow [OF assms(1,2)] .
  then have le: "number_u64 blk1 \<le> cs_block_number (bc_chain_state bc2)" using f1(2) by (simp add: chain_grows_def)
  have "cs_get_block_by_number (bc_chain_state bc2) (number_u64 blk1) = Some blk1"
    using grown_lookup [OF g, of lib "number_u64 blk1"] reachable_blocks_inv [OF assms(1)] f1 by simp
  moreover obtain ns where "block_range (number_u64 blk1) (number_u64 blk2) = number_u64 blk1 # ns"
    using le f2(2) by (simp add: block_range_def word_le_nat_alt upt_conv_Cons del: upt_Suc)
  ultimately have "\<exists>hs. map block_hash (chain_slice (bc_chain_state bc2) (number_u64 blk1) (number_u64 blk2)) = block_hash blk1 # hs"
    using f2(2) by (simp add: chain_slice_eq)
  then show ?thesis
    using fetch_hashes_ok [OF assms(1,3), of "number_u64 blk1" number] fetch_hashes_ok [OF r2 assms(4), of "number_u64 blk2" "number_u64 blk1"]
      f1(2) f2(2) by (auto simp: block_filter_changes_def)
qed

theorem block_filter_repeats_latest_witness:
  "\<exists>blk m m2 hs. get_latest_block (fst (sample_node [])) = (Ok blk :: (ethereum_block, string) outcome)
    \<and> block_filter_changes (\<lambda>_. fst (sample_node [])) 1 blk = (Ok (HashesC []), m)
    \<and> block_filter_changes (\<lambda>_. fst (sample_node [])) m blk = (Ok (HashesC (block_hash blk # hs)), m2)"
proof -
  let ?bc = "fst (sample_node [])" and ?w = "snd (sample_node [])"
  have l: "later_states sample_chain ?bc ?w (\<lambda>_. ?bc)"
    unfolding later_states_def using sample_node_start(2) by blast
  obtain blk where b: "get_latest_block ?bc = (Ok blk :: (ethereum_block, string) outcome)"
    "number_u64 blk = cs_block_number (bc_chain_state ?bc)"
    using latest_block_number [OF sample_node_reachable, of "[]"] sample_node_start(2) by blast
  have "chain_slice (bc_chain_state ?bc) 1 (number_u64 blk) = []"
    using b(2) sample_node_start(5) by (simp add: chain_slice_def)
  with block_filter_repeats_latest [OF sample_reachable rtranclp.rtrancl_refl l l b(1) b(1), of 1] b(1)
  show ?thesis by fastforce
qed

text \<open>
  C37. A logs filter that is polled again before a new block is mined answers with an error: the
  stored number is one beyond the chain, and the query for the block with that number fails.
\<close>

theorem idle_logs_poll_fails:
  assumes "reachable (chain_start lib) (chain_step lib) (bc, w)" and "\<not> bc_poisoned bc"
    and "later_states lib bc w at" and "cs_block_number (bc_chain_state bc) \<noteq> - 1"
    and "get_latest_block bc = (Ok blk :: (ethereum_block, string) outcome)"
    and "number \<le> cs_block_number (bc_chain_state bc)" and "plain_filter lib pl f"
  shows "\<exists>r m m2. logs_filter_changes lib pl bc at f number blk = (r, m) \<and> is_ok r
    \<and> logs_filter_changes lib pl bc at f m blk = (Err (Internal (jsonrpc_error ''block not found'')), m2)"
proof -
  let ?n = "cs_block_number (bc_chain_state bc)"
  have blk: "number_u64 blk = ?n" by (rule latest_block_facts(2) [OF assms(1,5)])
  note answer = plain_filter_answer [OF assms(1-3,7) number_added [OF assms(4) blk]]
  have "logs_filter_changes lib pl bc at f (?n + 1) blk = (Err (Internal (jsonrpc_error ''block not found'')), ?n + 1)"
    using answer [of "?n + 1"] successor_number(1) [OF assms(4)] by (simp add: not_le [symmetric])
  moreover have "\<exists>r. logs_filter_changes lib pl bc at f number blk = (r, ?n + 1) \<and> is_ok r"
    using answer [of number] assms(6) by simp
  ultimately show ?thesis by blast
qed

theorem idle_logs_poll_fails_witness:
  "\<exists>blk r m m2. get_latest_block (fst (sample_node [])) = (Ok blk :: (ethereum_block, string) outcome)
    \<and> logs_filter_changes sample_chain map_polls (fst (sample_node [])) (\<lambda>_. fst (sample_node [])) all_logs 0 blk = (r, m) \<and> is_ok r
    \<and> logs_filter_changes sample_chain map_polls (fst (sample_node [])) (\<lambda>_. fst (sample_node [])) all_logs m blk
        = (Err (Internal (jsonrpc_error ''block not found'')), m2)"
proof -
  let ?bc = "fst (sample_node [])" and ?w = "snd (sample_node [])"
  have l: "later_states sample_chain ?bc ?w (\<lambda>_. ?bc)"
    unfolding later_states_def using sample_node_start(2) by blast
  obtain blk where b: "get_latest_block ?bc = (Ok blk :: (ethereum_block, string) outcome)"
    using latest_block_number [OF sample_node_reachable, of "[]"] sample_node_start(2) by blast
  have n: "cs_block_number (bc_chain_state ?bc) \<noteq> - 1" "(0 :: u64) \<le> cs_block_number (bc_chain_state ?bc)"
    by (simp_all add: sample_node_start)
  from idle_logs_poll_fails [OF sample_reachable sample_node_start(2) l n(1) b n(2) sample_plain_filter] b
  show ?thesis by blast
qed

section \<open>A poll that races with mining\<close>

lemma chain_slice_split:
  assumes "lo \<le> mid + 1" and "mid < hi" and "hi \<le> cs_block_number cs"
  shows "chain_slice cs lo hi = chain_slice cs lo mid @ chain_slice cs (mid + 1) hi"
proof -
  have "mid \<le> cs_block_number cs" using assms(2,3) by simp
  then show ?thesis
    using block_range_append [OF assms(1,2)] by (simp add: chain_slice_eq assms(3) flip: map_append)
qed

lemma grown_slice:
  assumes "chain_grows s t" and "blocks_inv lib (bc_chain_state (fst s))" and "hi \<le> cs_block_number (bc_chain_state (fst s))"
  shows "chain_slice (bc_chain_state (fst t)) lo hi = chain_slice (bc_chain_state (fst s)) lo hi"
proof -
  have "cs_block_number (bc_chain_state (fst s)) \<le> cs_block_number (bc_chain_state (fst t))"
    using assms(1) by (simp add: chain_grows_def)
  with assms(3) have hi: "hi \<le> cs_block_number (bc_chain_state (fst t))" by (rule order_trans)
  show ?thesis
    unfolding chain_slice_eq [OF assms(3)] chain_slice_eq [OF hi]
    by (intro map_cong) (use assms grown_lookup [OF assms(1,2)] in \<open>auto simp: set_block_range\<close>)
qed

lemma grown_suffix:
  assumes "chain_grows s t" and "blocks_inv lib (bc_chain_state (fst s))" and "lo \<le> cs_block_number (bc_chain_state (fst s))"
  shows "\<exists>bs. chain_slice (bc_chain_state (fst t)) lo (cs_block_number (bc_chain_state (fst t)))
    = chain_slice (bc_chain_state (fst s)) lo (cs_block_number (bc_chain_state (fst s))) @ bs"
proof -
  let ?n = "cs_block_number (bc_chain_state (fst s))" and ?m = "cs_block_number (bc_chain_state (fst t))"
  have same: "chain_slice (bc_chain_state (fst t)) lo ?n = chain_slice (bc_chain_state (fst s)) lo ?n"
    by (rule grown_slice [OF assms(1,2) order_refl])
  show ?thesis
  proof (cases "?n = ?m")
    case False
    then have n: "?n < ?m" using assms(1) by (simp add: chain_grows_def order_less_le)
    then have "?n \<noteq> - 1" by auto
    then have "lo \<le> ?n + 1" using assms(3) successor_number(1) by (meson less_imp_le order_trans)
    from chain_slice_split [OF this n order_refl] same show ?thesis by simp
  qed (use same in simp)
qed

text \<open>
  C36. A poll of a logs filter that races with mining delivers logs twice: the poll stores the
  successor of the block that was the latest when it began, but its query reads up to the block that
  is the latest when it runs.  The logs of the blocks mined in between end this answer and begin the
  answer to the next poll again.
\<close>

theorem racing_poll_repeats_logs:
  assumes "plain_filter lib pl f" and "reachable (chain_start lib) (chain_step lib) (bc1, w1)"
    and "get_latest_block bc1 = (Ok blk1 :: (ethereum_block, string) outcome)"
    and "(chain_step lib)\<^sup>*\<^sup>* (bc1, w1) (bc2, w2)" and "\<not> bc_poisoned bc2" and "later_states lib bc2 w2 at2"
    and "number_u64 blk1 < cs_block_number (bc_chain_state bc2)" and "number \<le> number_u64 blk1 + 1"
    and "(chain_step lib)\<^sup>*\<^sup>* (bc2, w2) (bc3, w3)" and "\<not> bc_poisoned bc3" and "later_states lib bc3 w3 at3"
    and "get_latest_block bc3 = (Ok blk3 :: (ethereum_block, string) outcome)" and "number_u64 blk3 \<noteq> - 1"
  shows "\<exists>pre post m m2. let twice = filter (\<lambda>l. filter_matches lib (filter_into pl f) (entry l)) (concat (map eb_logs
        (chain_slice (bc_chain_state bc2) (number_u64 blk1 + 1) (cs_block_number (bc_chain_state bc2)))))
    in logs_filter_changes lib pl bc2 at2 f number blk1 = (Ok (LogsC (pre @ twice)), m)
     \<and> logs_filter_changes lib pl bc3 at3 f m blk3 = (Ok (LogsC (twice @ post)), m2)"
proof -
  let ?n1 = "number_u64 blk1" and ?n2 = "cs_block_number (bc_chain_state bc2)" and ?n3 = "cs_block_number (bc_chain_state bc3)"
  let ?sel = "\<lambda>bs. filter (\<lambda>l. filter_matches lib (filter_into pl f) (entry l)) (concat (map eb_logs bs))"
  have r2: "reachable (chain_start lib) (chain_step lib) (bc2, w2)"
    by (rule reachable_steps [OF assms(4,2)])
  have r3: "reachable (chain_start lib) (chain_step lib) (bc3, w3)"
    by (rule reachable_steps [OF assms(9) r2])
  have g: "chain_grows (bc2, w2) (bc3, w3)" by (rule cg.reachable_steps_grow [OF r2 assms(9)])
  then have le: "?n2 \<le> ?n3" by (simp add: chain_grows_def)
  have n3: "number_u64 blk3 = ?n3" by (rule latest_block_facts(2) [OF r3 assms(12)])
  have n1: "?n1 \<noteq> - 1" using assms(7) by auto
  have suc: "?n1 + 1 \<le> ?n2" using assms(7) n1 by (simp add: inc_le)
  have a1: "add_checked (chain_oc lib) ?n1 1 = (Ok (?n1 + 1) :: (u64, string) outcome)"
    and a3: "add_checked (chain_oc lib) (number_u64 blk3) 1 = (Ok (?n3 + 1) :: (u64, string) outcome)"
    using number_added [of "bc_chain_state bc1"] number_added [of "bc_chain_state bc3"] latest_block_facts(2) [OF assms(2,3)] n1 n3 assms(13)
    by auto
  have first: "logs_filter_changes lib pl bc2 at2 f number blk1 = (Ok (LogsC (?sel (chain_slice (bc_chain_state bc2) number ?n2))), ?n1 + 1)"
    using plain_filter_answer [OF r2 assms(5,6,1) a1, of number] order_trans [OF assms(8) suc] by simp
  have second: "logs_filter_changes lib pl bc3 at3 f (?n1 + 1) blk3 =
      (Ok (LogsC (?sel (chain_slice (bc_chain_state bc3) (?n1 + 1) ?n3))), ?n3 + 1)"
    using plain_filter_answer [OF r3 assms(10,11,1) a3, of "?n1 + 1"] order_trans [OF suc le] by simp
  obtain bs where bs: "chain_slice (bc_chain_state bc3) (?n1 + 1) ?n3 = chain_slice (bc_chain_state bc2) (?n1 + 1) ?n2 @ bs"
    using grown_suffix [OF g] reachable_blocks_inv [OF r2] suc by fastforce
  have "chain_slice (bc_chain_state bc2) number ?n2 = chain_slice (bc_chain_state bc2) number ?n1 @ chain_slice (bc_chain_state bc2) (?n1 + 1) ?n2"
    by (rule chain_slice_split [OF assms(8,7) order_refl])
  with first second bs show ?thesis
    by (intro exI [of _ "?sel (chain_slice (bc_chain_state bc2) number ?n1)"] exI [of _ "?sel bs"] exI) (simp add: Let_def)
qed

theorem racing_poll_repeats_logs_witness:
  "\<exists>blk1 blk3 bc' pre post log m m2. get_latest_block (fst (sample_node [])) = (Ok blk1 :: (ethereum_block, string) outcome)
    \<and> logs_filter_changes sample_chain map_polls bc' (\<lambda>_. bc') all_logs 0 blk1 = (Ok (LogsC (pre @ [log])), m)
    \<and> logs_filter_changes sample_chain map_polls bc' (\<lambda>_. bc') all_logs m blk3 = (Ok (LogsC (log # post)), m2)"
proof -
  let ?bc = "fst (sample_node [])" and ?w = "snd (sample_node [])"
  obtain bc' b where s: "(chain_step sample_chain)\<^sup>*\<^sup>* (sample_node []) (bc', ?w)"
    and n: "\<not> bc_poisoned bc'" "cs_block_number (bc_chain_state bc') = 1"
    and b: "cs_get_block_by_number (bc_chain_state bc') 1 = Some b" "length (eb_logs b) = 1"
    using sample_successor by auto
  have s': "(chain_step sample_chain)\<^sup>*\<^sup>* (?bc, ?w) (bc', ?w)" using s by simp
  have l: "later_states sample_chain bc' ?w (\<lambda>_. bc')" unfolding later_states_def using n(1) by blast
  have r: "reachable (chain_start sample_chain) (chain_step sample_chain) (bc', ?w)"
    by (rule reachable_steps [OF s sample_node_reachable [of "[]"]])
  obtain blk1 where b1: "get_latest_block ?bc = (Ok blk1 :: (ethereum_block, string) outcome)" "number_u64 blk1 = 0"
    using latest_block_number [OF sample_node_reachable, of "[]"] sample_node_start(2,5) by auto
  obtain blk3 where b3: "get_latest_block bc' = (Ok blk3 :: (ethereum_block, string) outcome)" "number_u64 blk3 = 1"
    using latest_block_number [OF r] n by auto
  obtain log where log: "eb_logs b = [log]" using b(2) by (metis length_0_conv length_Suc_conv One_nat_def)
  have "chain_slice (bc_chain_state bc') 1 1 = [b]"
    using n(2) b(1) chain_slice_eq [of 1 "bc_chain_state bc'" 1] by (simp add: block_range_single)
  with racing_poll_repeats_logs [OF sample_plain_filter sample_reachable b1(1) s' n(1) l _ _ rtranclp.rtrancl_refl n(1) l b3(1), of 0] b1 b3(2) n(2) log
  show ?thesis by (simp add: Let_def) blast
qed

end
