(* ===== verification/Heads_Feed.thy ===== *)
theory Heads_Feed
  imports Gateway Eth_Filter
begin

text \<open>
  The composition of the broker with the publish/subscribe API: what one subscriber to new heads is
  sent over a sequence of ticks.  Each tick comes with the state of the chain at that moment and with
  the states in which the tasks it spawns read their blocks.
\<close>

section \<open>Ticks and the tasks they spawn\<close>

fun run_heads ::
  "'s chain_lib \<Rightarrow> ('h, 'k) subs_lib \<Rightarrow> ('l \<Rightarrow> bool) \<Rightarrow> 'l \<Rightarrow> 'h \<Rightarrow> ((blockchain \<times> world) \<times> (u64 \<Rightarrow> blockchain)) list \<Rightarrow> 'l broker
   \<Rightarrow> (('k \<times> pubsub_result) list, string) outcome list" where
  "run_heads lib hl alive l subs [] br = []"
| "run_heads lib hl alive l subs ((s, at) # ps) br =
     (case broker_tick alive (fst s) br :: (_, string) outcome of
        Ok (evs, br') \<Rightarrow>
          map (\<lambda>(_, frm, to). notify_heads lib hl at subs subs frm to) (filter (\<lambda>(l', _, _). l' = l) evs)
          @ run_heads lib hl alive l subs ps br'
      | _ \<Rightarrow> [Panic])"

text \<open>What the tasks send: a task that fails only writes to the log.\<close>

fun task_sends :: "(('k \<times> pubsub_result) list, string) outcome \<Rightarrow> ('k \<times> pubsub_result) list" where
  "task_sends (Ok sends) = sends"
| "task_sends _ = []"

definition feed :: "'k \<Rightarrow> (('k \<times> pubsub_result) list, string) outcome list \<Rightarrow> pubsub_result list" where
  "feed k tasks = sent_to k (concat (map task_sends tasks))"

lemma feed_append: "feed k (xs @ ys) = feed k xs @ feed k ys"
  by (simp add: feed_def sent_to_def)

text \<open>The states in which ticks run, all before a state \<open>t\<close>.\<close>

definition poll_state :: "'s chain_lib \<Rightarrow> blockchain \<times> world \<Rightarrow> (blockchain \<times> world) \<times> (u64 \<Rightarrow> blockchain) \<Rightarrow> bool" where
  "poll_state lib t p \<longleftrightarrow> reachable (chain_start lib) (chain_step lib) (fst p) \<and> \<not> bc_poisoned (fst (fst p))
     \<and> later_states lib (fst (fst p)) (snd (fst p)) (snd p) \<and> cs_block_number (bc_chain_state (fst (fst p))) \<noteq> - 1
     \<and> chain_grows (fst p) t"

text \<open>One tick: it spawns at most one task for the client, which succeeds.\<close>

lemma tick_feed:
  assumes "poll_state lib t (s, at)" and "alive l \<and> registered l br"
    and "\<not> subs_is_empty hl subs" and "filter (\<lambda>x. x = k) (subs_values hl subs) = [k]"
  shows "\<exists>tasks br'. broker_poll alive l br (cs_block_number (bc_chain_state (fst s))) =
        (fst (broker_poll alive l br (cs_block_number (bc_chain_state (fst s)))), br')
    \<and> (\<forall>ps. run_heads lib hl alive l subs ((s, at) # ps) br = tasks @ run_heads lib hl alive l subs ps br')
    \<and> list_all is_ok tasks
    \<and> feed k tasks = map (\<lambda>b. Header (rich_header_of lib b))
        (chain_blocks_at (bc_chain_state (fst t)) (fst (broker_poll alive l br (cs_block_number (bc_chain_state (fst s))))))"
proof -
  obtain bc w where s: "s = (bc, w)" by (cases s)
  let ?n = "cs_block_number (bc_chain_state bc)" and ?lo = "last_notified_block br + 1"
  have ok: "reachable (chain_start lib) (chain_step lib) (bc, w)" "\<not> bc_poisoned bc" "later_states lib bc w at"
    "chain_grows (bc, w) t" using assms(1) s by (auto simp: poll_state_def)
  obtain blk where blk: "get_latest_block bc = (Ok blk :: (ethereum_block, string) outcome)" "number_u64 blk = ?n"
    using latest_block_number [of lib "(bc, w)"] ok by auto
  show ?thesis
  proof (cases "?n \<le> last_notified_block br")
    case True
    then show ?thesis using blk s
      by (intro exI [of _ "[]"] exI [of _ br])
        (simp add: broker_tick_def notify_difference_def broker_poll_def numbers_for_def feed_def sent_to_def chain_blocks_at_def)
  next
    case False
    let ?br = "br\<lparr>last_notified_block := ?n\<rparr>" and ?evs = "map (\<lambda>l. (l, ?lo, ?n)) (filter alive (listeners br))"
    have diff: "notify_difference alive br ?n = (?evs, ?br)" using False by (simp add: notify_difference_def Let_def)
    have "filter (\<lambda>l'. l' = l) (filter alive (listeners br)) = [l]"
      using assms(2) by (simp add: registered_def filter_filter conj_commute) (metis (mono_tags, lifting) filter_cong)
    then have mine: "filter (\<lambda>(l', _, _). l' = l) ?evs = [(l, ?lo, ?n)]" by (simp add: filter_map comp_def)
    have poll: "broker_poll alive l br ?n = (block_range ?lo ?n, ?br)"
      using mine by (simp add: broker_poll_def diff numbers_for_def)
    obtain heads where h: "notify_heads lib hl at subs subs ?lo ?n = Ok heads"
      "sent_to k heads = map (\<lambda>b. Header (rich_header_of lib b)) (chain_slice (bc_chain_state bc) ?lo ?n)"
      using assms(3) fetch_headers_ok [OF ok(1,3) order_refl, of ?lo] sent_to_broadcast [OF assms(4), of "\<lambda>b. Header (rich_header_of lib b)"]
      by (simp add: notify_heads_def comp_def)
    have "chain_slice (bc_chain_state bc) ?lo ?n = chain_blocks_at (bc_chain_state (fst t)) (block_range ?lo ?n)"
      unfolding chain_blocks_at_def chain_slice_eq [OF order_refl]
      by (rule map_cong) (use grown_lookup [OF ok(4), of lib] reachable_blocks_inv [OF ok(1)] in \<open>auto simp: set_block_range\<close>)
    with h blk mine poll diff s show ?thesis
      by (intro exI [of _ "[Ok heads]"] exI [of _ ?br]) (simp add: broker_tick_def feed_def)
  qed
qed

lemma run_heads_polls:
  assumes "\<And>p. p \<in> set ps \<Longrightarrow> poll_state lib t p"
    and "alive l \<and> registered l br" and "\<not> subs_is_empty hl subs" and "filter (\<lambda>x. x = k) (subs_values hl subs) = [k]"
  shows "list_all is_ok (run_heads lib hl alive l subs ps br)
    \<and> feed k (run_heads lib hl alive l subs ps br) = map (\<lambda>b. Header (rich_header_of lib b))
        (chain_blocks_at (bc_chain_state (fst t)) (fst (poll_all (broker_poll alive l) br (best_numbers (map fst ps)))))"
  using assms(1,2)
proof (induction ps arbitrary: br)
  case Nil
  then show ?case by (simp add: feed_def sent_to_def best_numbers_def chain_blocks_at_def)
next
  case (Cons p ps)
  obtain s at where p: "p = (s, at)" by (cases p)
  let ?n = "cs_block_number (bc_chain_state (fst s))"
  have ps: "poll_state lib t (s, at)" using Cons.prems(1) [of p] p by simp
  from tick_feed [of lib t s at alive l br, OF ps Cons.prems(2) assms(3,4)] obtain tasks br' where
    t: "broker_poll alive l br ?n = (fst (broker_poll alive l br ?n), br')"
      "\<forall>ps. run_heads lib hl alive l subs ((s, at) # ps) br = tasks @ run_heads lib hl alive l subs ps br'"
      "list_all is_ok tasks"
      "feed k tasks = map (\<lambda>b. Header (rich_header_of lib b))
         (chain_blocks_at (bc_chain_state (fst t)) (fst (broker_poll alive l br ?n)))" by blast
  have "?n \<noteq> - 1" using ps by (simp add: poll_state_def)
  then have "alive l \<and> registered l br'"
    using Cons.prems(2) arg_cong [OF t(1), of snd]
    by (auto simp: broker_poll_def notify_difference_def registered_def Let_def split: if_splits)
  with Cons.IH [of br'] Cons.prems(1) have IH: "list_all is_ok (run_heads lib hl alive l subs ps br')"
    "feed k (run_heads lib hl alive l subs ps br') = map (\<lambda>b. Header (rich_header_of lib b))
       (chain_blocks_at (bc_chain_state (fst t)) (fst (poll_all (broker_poll alive l) br' (best_numbers (map fst ps)))))"
    by simp_all
  have polls: "fst (poll_all (broker_poll alive l) br (best_numbers (map fst (p # ps))))
      = fst (broker_poll alive l br ?n) @ fst (poll_all (broker_poll alive l) br' (best_numbers (map fst ps)))"
    using p arg_cong [OF t(1), of snd] by (simp add: best_numbers_def case_prod_beta)
  show ?case
    unfolding polls using p t(2-4) IH by (simp add: feed_append chain_blocks_at_append)
qed

text \<open>Over a growing chain the feed is the chain itself.\<close>

lemma feed_is_chain:
  assumes "successively (\<lambda>s t. (chain_step lib)\<^sup>*\<^sup>* s t) (map fst (p # ps))"
    and "\<And>q. q \<in> set (p # ps) \<Longrightarrow> poll_state lib (fst (last (p # ps))) q"
    and "alive l \<and> registered l br" and "last_notified_block br = 0"
    and "\<not> subs_is_empty hl subs" and "filter (\<lambda>x. x = k) (subs_values hl subs) = [k]"
  shows "list_all is_ok (run_heads lib hl alive l subs (p # ps) br)
    \<and> feed k (run_heads lib hl alive l subs (p # ps) br) = map (\<lambda>b. Header (rich_header_of lib b))
        (chain_slice (bc_chain_state (fst (fst (last (p # ps))))) 1 (cs_block_number (bc_chain_state (fst (fst (last (p # ps)))))))"
proof -
  let ?t = "fst (last (p # ps))" and ?ns = "best_numbers (map fst (p # ps))"
  have "reachable (chain_start lib) (chain_step lib) (fst p)" using assms(2) [of p] by (simp add: poll_state_def)
  with successive_states [of lib "fst p" "map fst ps"] assms(1) have srt: "sorted ?ns" by simp
  obtain n ns where ns: "?ns = n # ns" by (simp add: best_numbers_def)
  have nm: "- 1 \<notin> set ?ns"
    unfolding best_numbers_def set_map using assms(2) unfolding poll_state_def by (metis (no_types, lifting) imageE)
  then have "last_notified_block br + 1 \<le> n + 1" using assms(4) successor_mono [of 0 n] ns by auto
  then have "fst (poll_all (broker_poll alive l) br ?ns) = block_range 1 (last ?ns)"
    using bp.exactly_once [of alive l br n ns] assms(3,4) srt nm ns by simp
  moreover have "last ?ns = cs_block_number (bc_chain_state (fst ?t))"
    unfolding best_numbers_def by (subst last_map, simp)+ simp
  ultimately show ?thesis
    using run_heads_polls [of "p # ps" lib ?t alive l br hl subs k] assms(2,3,5,6)
    by (simp add: chain_slice_eq chain_blocks_at_def del: run_heads.simps)
qed

section \<open>Properties\<close>

text \<open>
  C4. A subscriber to new heads follows the chain from its first block: once the gateway has started,
  a subscriber of either server's publish/subscribe client that is registered before the first tick
  and whose client stays alive, with a table of subscriptions that does not change, is sent the headers of all blocks from number 1 to the latest block
  at the last tick, in the order of the chain and each once, whatever is mined while the tasks read
  their blocks; no task fails or panics.
\<close>

theorem heads_subscriber_follows_chain:
  assumes "start lib env runtime new_interval c1 c2 args w = Ok (g, br, w')"
    and "lists_apis env" and "c1 \<noteq> c2" and "c \<in> {c1, c2}" and "alive c"
    and "successively (\<lambda>s t. (chain_step lib)\<^sup>*\<^sup>* s t) ((rg_blockchain g, w') # map fst (p # ps))"
    and "\<And>q. q \<in> set (p # ps) \<Longrightarrow> poll_state lib (fst (last (p # ps))) q"
    and "\<not> subs_is_empty hl subs" and "filter (\<lambda>x. x = k) (subs_values hl subs) = [k]"
  shows "list_all is_ok (run_heads lib hl alive c subs (p # ps) br)
    \<and> feed k (run_heads lib hl alive c subs (p # ps) br) = map (\<lambda>b. Header (rich_header_of lib b))
        (chain_slice (bc_chain_state (fst (fst (last (p # ps))))) 1 (cs_block_number (bc_chain_state (fst (fst (last (p # ps)))))))"
proof -
  have br: "br = \<lparr>last_notified_block = 0, listeners = [c1, c2]\<rparr>"
    by (rule execute_listeners [OF assms(2) assms(1) [unfolded start_def]])
  have sc: "successively (\<lambda>s t. (chain_step lib)\<^sup>*\<^sup>* s t) (map fst (p # ps))" using assms(6) by simp
  have al: "alive c \<and> registered c br" "last_notified_block br = 0"
    using assms(3-5) br by (auto simp: registered_def)
  show ?thesis by (rule feed_is_chain [of lib p ps alive c br hl subs k, OF sc assms(7) al assms(8,9)])
qed

theorem heads_subscriber_follows_chain_witness:
  "\<exists>bc' b. feed ''a'' (run_heads sample_chain list_subs (\<lambda>_. True) 1 [''a'']
        [((bc', snd (sample_node [])), \<lambda>_. bc')] \<lparr>last_notified_block = 0, listeners = [0, 1 :: nat]\<rparr>)
      = [Header (rich_header_of sample_chain b)]"
proof -
  let ?w = "snd (sample_node [])"
  obtain bc' where s: "successively (\<lambda>s t. (chain_step sample_chain)\<^sup>*\<^sup>* s t) [sample_node [], (bc', ?w)]"
    and n: "\<not> bc_poisoned bc'" "cs_block_number (bc_chain_state bc') = 1"
    using sample_successor by blast
  let ?p = "((bc', ?w), \<lambda>_ :: u64. bc')"
  have start: "start sample_chain sample_rpc_env (Ok ()) (\<lambda>_. Ok ()) 0 1 sample_args sample_world =
      Ok (sample_gateway, \<lparr>last_notified_block = 0, listeners = [0, 1]\<rparr>, ?w)"
    unfolding start_def by (rule sample_execute)
  have r: "reachable (chain_start sample_chain) (chain_step sample_chain) (bc', ?w)"
    using successive_states [OF s sample_node_reachable] by simp
  have "later_states sample_chain bc' ?w (\<lambda>_. bc')" unfolding later_states_def using n(1) by blast
  with r n have q: "\<And>q. q \<in> set [?p] \<Longrightarrow> poll_state sample_chain (fst (last [?p])) q"
    by (simp add: poll_state_def cg.grows_refl)
  have s': "successively (\<lambda>s t. (chain_step sample_chain)\<^sup>*\<^sup>* s t) ((rg_blockchain sample_gateway, ?w) # map fst [?p])"
    using s by (simp add: sample_gateway_def)
  have subs: "\<not> subs_is_empty list_subs [''a'']" "filter (\<lambda>x. x = ''a'') (subs_values list_subs [''a'']) = [''a'']"
    by (simp_all add: list_subs_def)
  have "chain_slice (bc_chain_state bc') 1 1 = [the (cs_get_block_by_number (bc_chain_state bc') 1)]"
    using n(2) chain_slice_eq [of 1 "bc_chain_state bc'" 1] by (simp add: block_range_single)
  with heads_subscriber_follows_chain [OF start sample_lists_apis _ _ _ s' q subs, of 1 "\<lambda>_. True"] n(2)
  show ?thesis by (intro exI [of _ bc'] exI) (simp del: run_heads.simps)
qed

end
