(* ===== verification/Eth_Rpc.thy ===== *)
theory Eth_Rpc
  imports Chain_Logs
begin

text \<open>
  \<open>src/impls/eth.rs\<close>: the handlers of the \<open>eth_\<close> methods.  Each takes the chain it finds; the one that
  submits transactions returns the new chain.  The conversions to the types of the wire, the queries
  of the state database, the signing of call requests and the RPC library's errors are third-party
  code and form the record \<open>rpc_lib\<close>.
\<close>

section \<open>The library\<close>

datatype block_number_or_id = BnNumber block_number | BnId block_id

definition block_number_or_id_from_id :: "block_id \<Rightarrow> block_number_or_id" where
  "block_number_or_id_from_id v = BnId v"

definition block_number_or_id_from_number :: "block_number \<Rightarrow> block_number_or_id" where
  "block_number_or_id_from_number v = BnNumber v"

record ('s, 't, 'r, 'l, 'q) rpc_lib =
  bn_default :: block_number
  from_localized :: "localized_transaction \<Rightarrow> 't"
  receipt_into :: "localized_receipt \<Rightarrow> 'r"
  log_into :: "localized_log_entry \<Rightarrow> 'l"
  st_balance :: "'s \<Rightarrow> world \<Rightarrow> bytes \<Rightarrow> (u256, string) outcome"
  st_storage_at :: "'s \<Rightarrow> world \<Rightarrow> bytes \<Rightarrow> h256 \<Rightarrow> (h256, string) outcome"
  st_nonce :: "'s \<Rightarrow> world \<Rightarrow> bytes \<Rightarrow> (u256, string) outcome"
  st_code :: "'s \<Rightarrow> world \<Rightarrow> bytes \<Rightarrow> (bytes option, string) outcome"
  st_storage_expiry :: "'s \<Rightarrow> world \<Rightarrow> bytes \<Rightarrow> (u64, string) outcome"
  u256_into_h256 :: "u256 \<Rightarrow> h256"
  sign_call :: "'q \<Rightarrow> bool \<Rightarrow> (signed_transaction, rpc_error) outcome"
  errors_call :: "string \<Rightarrow> rpc_error"
  errors_vm :: "vm_exception \<Rightarrow> bytes \<Rightarrow> rpc_error"
  errors_deprecated :: "string \<Rightarrow> rpc_error"
  errors_unimplemented :: "string option \<Rightarrow> rpc_error"
  errors_unsupported :: "string \<Rightarrow> rpc_error"

text \<open>A trailing parameter that may be missing.\<close>

definition unwrap_or_default :: "('s, 't, 'r, 'l, 'q) rpc_lib \<Rightarrow> block_number option \<Rightarrow> block_number" where
  "unwrap_or_default rl num = (case num of Some n \<Rightarrow> n | None \<Rightarrow> bn_default rl)"

section \<open>Constant answers\<close>

definition eth_protocol_version :: string where
  "eth_protocol_version = dec_string 63"

definition eth_syncing :: bool where
  "eth_syncing = False"

definition eth_author :: bytes where
  "eth_author = replicate 20 0"

definition eth_is_mining :: bool where
  "eth_is_mining = True"

definition eth_hashrate :: u256 where
  "eth_hashrate = 0"

definition eth_gas_price :: "blockchain \<Rightarrow> u256" where
  "eth_gas_price bc = gas_price bc"

definition eth_accounts :: "bytes list" where
  "eth_accounts = []"

definition eth_block_number :: "blockchain \<Rightarrow> (u256, rpc_error) outcome" where
  "eth_block_number bc = map_ok ucast (best_block_number bc)"

section \<open>State queries\<close>

text \<open>The common part: open the state at a block, or fail with an internal error.\<close>

definition with_state ::
  "'s chain_lib \<Rightarrow> ('s, 't, 'r, 'l, 'q) rpc_lib \<Rightarrow> world \<Rightarrow> blockchain \<Rightarrow> block_number option
   \<Rightarrow> ('s \<Rightarrow> ('a, string) outcome) \<Rightarrow> ('a, rpc_error) outcome" where
  "with_state lib rl w bc num query =
     (case state_at lib w bc (block_number_to_id (unwrap_or_default rl num)) of
        Ok state \<Rightarrow> map_err jsonrpc_error (query state)
      | Err err \<Rightarrow> Err (jsonrpc_error err)
      | Panic \<Rightarrow> Panic)"

definition eth_balance ::
  "'s chain_lib \<Rightarrow> ('s, 't, 'r, 'l, 'q) rpc_lib \<Rightarrow> world \<Rightarrow> blockchain \<Rightarrow> bytes \<Rightarrow> block_number option \<Rightarrow> (u256, rpc_error) outcome" where
  "eth_balance lib rl w bc addr num = with_state lib rl w bc num (\<lambda>state. st_balance rl state w addr)"

definition eth_storage_at ::
  "'s chain_lib \<Rightarrow> ('s, 't, 'r, 'l, 'q) rpc_lib \<Rightarrow> world \<Rightarrow> blockchain \<Rightarrow> bytes \<Rightarrow> u256 \<Rightarrow> block_number option
   \<Rightarrow> (h256, rpc_error) outcome" where
  "eth_storage_at lib rl w bc addr pos num =
     with_state lib rl w bc num (\<lambda>state. st_storage_at rl state w addr (u256_into_h256 rl pos))"

definition eth_transaction_count ::
  "'s chain_lib \<Rightarrow> ('s, 't, 'r, 'l, 'q) rpc_lib \<Rightarrow> world \<Rightarrow> blockchain \<Rightarrow> bytes \<Rightarrow> block_number option \<Rightarrow> (u256, rpc_error) outcome" where
  "eth_transaction_count lib rl w bc addr num = with_state lib rl w bc num (\<lambda>state. st_nonce rl state w addr)"

definition eth_code_at ::
  "'s chain_lib \<Rightarrow> ('s, 't, 'r, 'l, 'q) rpc_lib \<Rightarrow> world \<Rightarrow> blockchain \<Rightarrow> bytes \<Rightarrow> block_number option \<Rightarrow> (bytes, rpc_error) outcome" where
  "eth_code_at lib rl w bc addr num =
     map_ok (\<lambda>code. case code of None \<Rightarrow> [] | Some b \<Rightarrow> b)
       (with_state lib rl w bc num (\<lambda>state. st_code rl state w addr))"

section \<open>Blocks and transactions\<close>

definition eth_block_transaction_count_by_hash :: "blockchain \<Rightarrow> h256 \<Rightarrow> (u256 option, rpc_error) outcome" where
  "eth_block_transaction_count_by_hash bc hash =
     map_ok (map_option (\<lambda>blk. of_nat (length (block_transactions blk)))) (get_block_by_hash bc hash)"

definition eth_block_transaction_count_by_number :: "blockchain \<Rightarrow> block_number \<Rightarrow> (u256 option, rpc_error) outcome" where
  "eth_block_transaction_count_by_number bc num =
     (if num = BnPending then Ok (Some 0)
      else map_ok (map_option (\<lambda>blk. of_nat (length (block_transactions blk)))) (get_block bc (block_number_to_id num)))"

definition eth_block_uncles_count_by_hash :: "h256 \<Rightarrow> (u256 option, rpc_error) outcome" where
  "eth_block_uncles_count_by_hash _ = Ok None"

definition eth_block_uncles_count_by_number :: "block_number \<Rightarrow> (u256 option, rpc_error) outcome" where
  "eth_block_uncles_count_by_number _ = Ok None"

definition eth_block_by_hash ::
  "'s chain_lib \<Rightarrow> ('s, 't, 'r, 'l, 'q) rpc_lib \<Rightarrow> blockchain \<Rightarrow> h256 \<Rightarrow> bool \<Rightarrow> ('t rich_block option, rpc_error) outcome" where
  "eth_block_by_hash lib rl bc hash include_txs =
     map_ok (map_option (\<lambda>blk. rich_block_of lib (from_localized rl) blk include_txs)) (get_block_by_hash bc hash)"

definition eth_block_by_number ::
  "'s chain_lib \<Rightarrow> ('s, 't, 'r, 'l, 'q) rpc_lib \<Rightarrow> blockchain \<Rightarrow> block_number \<Rightarrow> bool \<Rightarrow> ('t rich_block option, rpc_error) outcome" where
  "eth_block_by_number lib rl bc num include_txs =
     map_ok (map_option (\<lambda>blk. rich_block_of lib (from_localized rl) blk include_txs))
       (get_block bc (block_number_to_id num))"

definition eth_transaction_by_hash ::
  "('s, 't, 'r, 'l, 'q) rpc_lib \<Rightarrow> blockchain \<Rightarrow> h256 \<Rightarrow> ('t option, rpc_error) outcome" where
  "eth_transaction_by_hash rl bc hash = map_ok (map_option (from_localized rl)) (get_txn_by_hash bc hash)"

text \<open>The index arrives as a \<open>usize\<close> and is cast to 32 bits.\<close>

definition eth_transaction_by_block_hash_and_index ::
  "('s, 't, 'r, 'l, 'q) rpc_lib \<Rightarrow> blockchain \<Rightarrow> h256 \<Rightarrow> nat \<Rightarrow> ('t option, rpc_error) outcome" where
  "eth_transaction_by_block_hash_and_index rl bc hash index =
     map_ok (map_option (from_localized rl)) (get_txn_by_block_hash_and_index bc hash (of_nat index))"

definition eth_transaction_by_block_number_and_index ::
  "('s, 't, 'r, 'l, 'q) rpc_lib \<Rightarrow> blockchain \<Rightarrow> block_number \<Rightarrow> nat \<Rightarrow> ('t option, rpc_error) outcome" where
  "eth_transaction_by_block_number_and_index rl bc num index =
     (if num = BnPending then Ok None
      else map_ok (map_option (from_localized rl)) (get_txn bc (block_number_to_id num) (of_nat index)))"

definition eth_transaction_receipt ::
  "('s, 't, 'r, 'l, 'q) rpc_lib \<Rightarrow> blockchain \<Rightarrow> h256 \<Rightarrow> ('r option, rpc_error) outcome" where
  "eth_transaction_receipt rl bc hash = map_ok (map_option (receipt_into rl)) (get_txn_receipt_by_hash bc hash)"

definition eth_uncle_by_block_hash_and_index :: "h256 \<Rightarrow> nat \<Rightarrow> ('t rich_block option, rpc_error) outcome" where
  "eth_uncle_by_block_hash_and_index _ _ = Ok None"

definition eth_uncle_by_block_number_and_index :: "block_number \<Rightarrow> nat \<Rightarrow> ('t rich_block option, rpc_error) outcome" where
  "eth_uncle_by_block_number_and_index _ _ = Ok None"

definition eth_logs ::
  "'s chain_lib \<Rightarrow> ('s, 't, 'r, 'l, 'q) rpc_lib \<Rightarrow> blockchain \<Rightarrow> log_filter \<Rightarrow> ('l list, rpc_error) outcome" where
  "eth_logs lib rl bc flt = map_ok (map (log_into rl)) (map_err jsonrpc_error (logs lib bc flt))"

section \<open>Submission and execution\<close>

definition eth_send_raw_transaction ::
  "'s chain_lib \<Rightarrow> io_input \<Rightarrow> blockchain \<Rightarrow> world \<Rightarrow> bytes \<Rightarrow> (h256, rpc_error) outcome \<times> blockchain \<times> world" where
  "eth_send_raw_transaction lib io bc w raw =
     (let (r, bc', w') = send_raw_transaction lib io bc w raw
      in (map_err execution_error (map_ok fst r), bc', w'))"

definition eth_submit_transaction ::
  "'s chain_lib \<Rightarrow> io_input \<Rightarrow> blockchain \<Rightarrow> world \<Rightarrow> bytes \<Rightarrow> (h256, rpc_error) outcome \<times> blockchain \<times> world" where
  "eth_submit_transaction lib io bc w raw = eth_send_raw_transaction lib io bc w raw"

definition eth_call ::
  "'s chain_lib \<Rightarrow> ('s, 't, 'r, 'l, 'q) rpc_lib \<Rightarrow> io_input \<Rightarrow> blockchain \<Rightarrow> world \<Rightarrow> bool \<Rightarrow> 'q \<Rightarrow> block_number option
   \<Rightarrow> (bytes, rpc_error) outcome" where
  "eth_call lib rl io bc w is_dapp request num =
     and_then (sign_call rl request is_dapp) (\<lambda>signed.
     and_then (map_err (errors_call rl)
                (simulate_transaction lib io bc w signed (block_number_to_id (unwrap_or_default rl num)))) (\<lambda>executed.
       case ex_exception executed of
         Some exception \<Rightarrow> Err (errors_vm rl exception (ex_output executed))
       | None \<Rightarrow> Ok (ex_output executed)))"

definition eth_estimate_gas ::
  "'s chain_lib \<Rightarrow> ('s, 't, 'r, 'l, 'q) rpc_lib \<Rightarrow> io_input \<Rightarrow> blockchain \<Rightarrow> world \<Rightarrow> bool \<Rightarrow> 'q \<Rightarrow> block_number option
   \<Rightarrow> (u256, rpc_error) outcome" where
  "eth_estimate_gas lib rl io bc w is_dapp request num =
     and_then (sign_call rl request is_dapp) (\<lambda>signed.
       map_err execution_error (estimate_gas lib io bc w signed (block_number_to_id (unwrap_or_default rl num))))"

section \<open>Methods that are not supported\<close>

definition eth_compilers :: "('s, 't, 'r, 'l, 'q) rpc_lib \<Rightarrow> (string list, rpc_error) outcome" where
  "eth_compilers rl = Err (errors_deprecated rl ''Compilation functionality is deprecated.'')"

definition eth_work :: "('s, 't, 'r, 'l, 'q) rpc_lib \<Rightarrow> u64 option \<Rightarrow> (unit, rpc_error) outcome" where
  "eth_work rl _ = Err (errors_unimplemented rl None)"

definition eth_submit_work :: "('s, 't, 'r, 'l, 'q) rpc_lib \<Rightarrow> bytes \<Rightarrow> h256 \<Rightarrow> h256 \<Rightarrow> (bool, rpc_error) outcome" where
  "eth_submit_work rl _ _ _ = Err (errors_unimplemented rl None)"

definition eth_submit_hashrate :: "('s, 't, 'r, 'l, 'q) rpc_lib \<Rightarrow> u256 \<Rightarrow> h256 \<Rightarrow> (bool, rpc_error) outcome" where
  "eth_submit_hashrate rl _ _ = Err (errors_unimplemented rl None)"

definition eth_compile_lll :: "('s, 't, 'r, 'l, 'q) rpc_lib \<Rightarrow> string \<Rightarrow> (bytes, rpc_error) outcome" where
  "eth_compile_lll rl _ = Err (errors_deprecated rl ''Compilation of LLL via RPC is deprecated'')"

definition eth_compile_serpent :: "('s, 't, 'r, 'l, 'q) rpc_lib \<Rightarrow> string \<Rightarrow> (bytes, rpc_error) outcome" where
  "eth_compile_serpent rl _ = Err (errors_deprecated rl ''Compilation of Serpent via RPC is deprecated'')"

definition eth_compile_solidity :: "('s, 't, 'r, 'l, 'q) rpc_lib \<Rightarrow> string \<Rightarrow> (bytes, rpc_error) outcome" where
  "eth_compile_solidity rl _ = Err (errors_deprecated rl ''Compilation of Solidity via RPC is deprecated'')"

section \<open>Properties\<close>

text \<open>
  C15. What a client submits it can look up: after a successful \<open>eth_sendRawTransaction\<close> the returned
  hash gives the transaction and its receipt; the block named by the receipt is found by its hash and
  as the latest one, and has exactly this transaction, at index 0, also by the lookups with an index
  and the counts; and the block number has increased by one.
\<close>

theorem submitted_transaction_is_found:
  assumes "reachable (chain_start lib) (chain_step lib) (bc, w)" and "room lib (bc_chain_state bc)"
    and "eth_send_raw_transaction lib io bc w raw = (Ok hash, bc', w')"
  shows "\<exists>t r b. eth_transaction_by_hash rl bc' hash = Ok (Some (from_localized rl t))
    \<and> eth_transaction_receipt rl bc' hash = Ok (Some (receipt_into rl r)) \<and> receipt_of r t b
    \<and> eth_transaction_by_block_number_and_index rl bc' BnLatest 0 = Ok (Some (from_localized rl t))
    \<and> eth_transaction_by_block_hash_and_index rl bc' (lr_block_hash r) 0 = Ok (Some (from_localized rl t))
    \<and> eth_block_transaction_count_by_number bc' BnLatest = Ok (Some 1)
    \<and> eth_block_transaction_count_by_hash bc' (lr_block_hash r) = Ok (Some 1)
    \<and> eth_block_by_number lib rl bc' BnPending False = Ok (Some (rich_block_of lib (from_localized rl) b False))
    \<and> eth_block_by_hash lib rl bc' (lr_block_hash r) False = Ok (Some (rich_block_of lib (from_localized rl) b False))
    \<and> rb_transactions (rich_block_of lib (from_localized rl) b False) = Hashes [hash]
    \<and> eth_block_number bc' = Ok (ucast (cs_block_number (bc_chain_state bc) + 1))"
proof -
  obtain res where s: "send_raw_transaction lib io bc w raw = (Ok (hash, res), bc', w')"
  proof -
    obtain r b v where r: "send_raw_transaction lib io bc w raw = (r, b, v)" by (meson prod_cases3)
    then show ?thesis using assms(3) that by (cases r) (auto simp: eth_send_raw_transaction_def)
  qed
  obtain b t r where m: "eb_transactions b = [t]" "ut_hash (lt_signed t) = hash" "lt_block_hash t = eb_hash b"
    "cs_block_number (bc_chain_state bc') = cs_block_number (bc_chain_state bc) + 1"
    "cs_get_block_by_number (bc_chain_state bc') (cs_block_number (bc_chain_state bc) + 1) = Some b"
    "cs_blocks (bc_chain_state bc') (eb_hash b) = Some b"
    "cs_transactions (bc_chain_state bc') hash = Some t"
    "cs_receipts (bc_chain_state bc') hash = Some r" "receipt_of r t b" "\<not> bc_poisoned bc'"
    by (rule mined_chain_state [OF assms(1,2) s])
  moreover from m have "lr_block_hash r = eb_hash b" by (simp add: receipt_of_def)
  ultimately show ?thesis
    by (intro exI [of _ t] exI [of _ r] exI [of _ b])
       (simp add: eth_transaction_by_hash_def eth_transaction_receipt_def eth_block_number_def
         eth_transaction_by_block_number_and_index_def eth_transaction_by_block_hash_and_index_def
         eth_block_transaction_count_by_number_def eth_block_by_number_def rich_block_of_def Let_def
         eth_block_transaction_count_by_hash_def eth_block_by_hash_def get_block_by_hash_def
         get_txn_by_hash_def get_txn_receipt_by_hash_def get_txn_by_number_eq get_txn_by_block_hash_and_index_def
         get_latest_block_def best_block_number_def block_transactions_def vec_get_def read_state_def)
qed

text \<open>A library for the witnesses.\<close>

definition sample_error :: "string \<Rightarrow> rpc_error" where
  "sample_error m = \<lparr>err_code = InvalidParams, err_message = m, err_data = None\<rparr>"

definition sample_rpc :: "(unit, localized_transaction, localized_receipt, localized_log_entry, bytes) rpc_lib" where
  "sample_rpc =
     \<lparr>bn_default = BnLatest, from_localized = (\<lambda>t. t), receipt_into = (\<lambda>r. r), log_into = (\<lambda>l. l),
      st_balance = (\<lambda>s w a. Ok 0), st_storage_at = (\<lambda>s w a p. Ok p), st_nonce = (\<lambda>s w a. Ok 0),
      st_code = (\<lambda>s w a. Ok None), st_storage_expiry = (\<lambda>s w a. Ok 0), u256_into_h256 = (\<lambda>p. ZERO_HASH),
      sign_call = (\<lambda>q d. Ok \<lparr>st_transaction = sample_tx q, st_sender = [1]\<rparr>), errors_call = sample_error,
      errors_vm = (\<lambda>e d. sample_error ''vm''), errors_deprecated = sample_error,
      errors_unimplemented = (\<lambda>d. sample_error ''unimplemented''), errors_unsupported = sample_error\<rparr>"

theorem submitted_transaction_is_found_witness:
  "\<exists>bc' w' t. eth_send_raw_transaction sample_chain sample_io (fst (sample_node [])) (snd (sample_node [])) [1] = (Ok [1], bc', w')
    \<and> eth_transaction_by_hash sample_rpc bc' [1] = Ok (Some t)"
proof -
  let ?bc = "fst (sample_node [])" and ?w = "snd (sample_node [])"
  obtain res bc' where s: "send_raw_transaction sample_chain sample_io ?bc ?w [1] = (Ok ([1], res), bc', ?w)"
    using sample_mine [of "[1]"] by auto
  then have e: "eth_send_raw_transaction sample_chain sample_io ?bc ?w [1] = (Ok [1], bc', ?w)"
    by (simp add: eth_send_raw_transaction_def)
  have "room sample_chain (bc_chain_state ?bc)" by (simp add: room_def)
  from submitted_transaction_is_found [OF sample_reachable this e, of sample_rpc] e show ?thesis by blast
qed

text \<open>
  A transaction index of more than 32 bits is cut: the handlers answer for the index modulo
  \<open>2^32\<close>, so that a large index names an existing transaction instead of none.
\<close>

theorem transaction_index_is_cut:
  "eth_transaction_by_block_hash_and_index rl bc hash (i + 2 ^ 32) = eth_transaction_by_block_hash_and_index rl bc hash i
   \<and> eth_transaction_by_block_number_and_index rl bc num (i + 2 ^ 32) = eth_transaction_by_block_number_and_index rl bc num i"
proof -
  have "(of_nat (i + 2 ^ 32) :: u32) = of_nat i" by simp
  then show ?thesis
    by (simp only: eth_transaction_by_block_hash_and_index_def eth_transaction_by_block_number_and_index_def)
qed

end
