(* ===== verification/Confidential_Sessions.thy ===== *)
theory Confidential_Sessions
  imports Confidential_Ctx
begin

text \<open>
  Runs of several operations of the confidential context: a request and its response, a
  sequence of storage writes, a cross-contract call and its return, and the end of a session.
\<close>

section \<open>Storage writes\<close>

text \<open>The results of a sequence of storage writes with no other operation in between.\<close>

fun write_all ::
  "conf_env \<Rightarrow> confidential_ctx \<Rightarrow> (bytes \<times> bytes) list \<Rightarrow> (bytes, vm_error) outcome list" where
  "write_all env ctx [] = []"
| "write_all env ctx ((sk, data) # ws) =
     (let (r, ctx') = encrypt_storage_value env ctx sk data in r # write_all env ctx' ws)"

fun ok_values :: "('a, 'e) outcome list \<Rightarrow> 'a list" where
  "ok_values [] = []"
| "ok_values (Ok x # rs) = x # ok_values rs"
| "ok_values (_ # rs) = ok_values rs"

text \<open>The nonce a stored value was sealed with is its last 15 bytes.\<close>

definition value_nonce :: "bytes \<Rightarrow> bytes" where
  "value_nonce c = drop (length c - NONCE_SIZE) c"

definition counter_distance :: "bytes \<Rightarrow> bytes \<Rightarrow> nat" where
  "counter_distance start v = unat (counter_of v - counter_of start)"

lemma value_nonce_append: "length v = NONCE_SIZE \<Longrightarrow> value_nonce (c @ v) = v"
  by (simp add: value_nonce_def)

lemma increment_Ok_used:
  assumes "nonce_wf n" and "increment n = (Ok (), m)"
  shows "nonce_used m = Suc (nonce_used n)"
proof (cases "Suc (nonce_used n) < 2 ^ 32")
  case True
  with nc.step_ok [OF assms(1)] assms(2) show ?thesis by auto
next
  case False
  with nc.used_less [OF assms(1)] have "Suc (nonce_used n) = 2 ^ 32" by linarith
  with nc.step_err [OF assms(1)] assms show ?thesis by auto
qed

lemma write_all_increasing:
  assumes "next_storage_nonce ctx = Some n" and "nonce_wf n" and "d2 ctx = Some k" and "start_value n = start"
  shows "sorted_wrt (<) (map (\<lambda>c. counter_distance start (value_nonce c)) (ok_values (write_all env ctx ws)))
    \<and> (\<forall>c \<in> set (ok_values (write_all env ctx ws)). nonce_used n \<le> counter_distance start (value_nonce c))"
  using assms
proof (induction ws arbitrary: ctx n)
  case (Cons w ws)
  obtain sk data where w: "w = (sk, data)" by (cases w)
  obtain r m where inc: "increment n = (r, m)" by (meson surj_pair)
  note wf = increment_cases [OF Cons.prems(2) inc]
  note enc = encrypt_storage_value_eq [OF Cons.prems(1-3), of env sk data]
  let ?ctx = "ctx\<lparr>next_storage_nonce := Some m\<rparr>"
  have IH: "sorted_wrt (<) (map (\<lambda>c. counter_distance start (value_nonce c)) (ok_values (write_all env ?ctx ws)))
    \<and> (\<forall>c \<in> set (ok_values (write_all env ?ctx ws)). nonce_used m \<le> counter_distance start (value_nonce c))"
    by (rule Cons.IH) (use wf Cons.prems in simp_all)
  from wf(3) show ?case
  proof
    assume r: "r = Ok ()"
    let ?c = "d2_seal (env_lib env) k (current_value n) data sk @ current_value n"
    have "counter_distance start (value_nonce ?c) = nonce_used n"
      using Cons.prems(2,4) by (simp add: value_nonce_append nonce_wf_def counter_distance_def nonce_used_def)
    moreover have "nonce_used m = Suc (nonce_used n)" using increment_Ok_used Cons.prems(2) inc r by blast
    ultimately show ?thesis using IH r inc enc w by (auto simp: Suc_le_eq)
  next
    assume "r = Err nonce_exhausted \<and> m = n"
    then show ?thesis using IH inc enc w by auto
  qed
qed simp

lemma sorted_wrt_less_distinct: "sorted_wrt (<) (map f xs) \<Longrightarrow> distinct (map f xs)" for f :: "'a \<Rightarrow> nat"
  by (simp add: strict_sorted_iff)

lemma encrypting_state:
  assumes "reachable (ctx_start env) (ctx_step env) (ctx, km)" and "is_encrypting ctx"
  obtains a k n where "contract ctx = Some (a, k)" "keys km (contract_id_of env a) = Some k"
    "key_wf (env_lib env) k" "d2 ctx = Some (inner (state_key k))" "next_storage_nonce ctx = Some n"
    "nonce_wf n" "start_value n = storage_start env (prev_block_hash ctx) a" "env_ok env"
    "km_wf (env_lib env) km" "ctx_activated ctx"
  using cm.reachable_inv [OF assms(1)] assms(2)
  by (auto simp: ctx_inv_def contract_inv_def is_encrypting_def split: option.splits)

text \<open>
  C11. No storage nonce is used twice in a run of writes: however many values are written, one after
  the other, to the storage of the selected contract, from any reachable state in which the context
  encrypts, the ciphertexts that it returns end in pairwise distinct nonces.
\<close>

theorem storage_nonces_distinct:
  assumes "reachable (ctx_start env) (ctx_step env) (ctx, km)" and "is_encrypting ctx"
  shows "distinct (map value_nonce (ok_values (write_all env ctx ws)))"
proof -
  obtain k n where c: "d2 ctx = Some k" "next_storage_nonce ctx = Some n" "nonce_wf n"
    using encrypting_state [OF assms] by metis
  let ?d = "counter_distance (start_value n)"
  have "distinct (map (\<lambda>c. ?d (value_nonce c)) (ok_values (write_all env ctx ws)))"
    using write_all_increasing [OF c(2,3,1) refl] sorted_wrt_less_distinct by blast
  then have "distinct (map ?d (map value_nonce (ok_values (write_all env ctx ws))))"
    by (simp add: comp_def)
  then show ?thesis by (metis distinct_map)
qed

theorem storage_nonces_distinct_witness:
  "is_encrypting (fst sample_active)
   \<and> distinct (map value_nonce (ok_values (write_all sample_env (fst sample_active) [([1], [2]), ([1], [2])])))"
proof -
  have h: "reachable (ctx_start sample_env) (ctx_step sample_env) (fst sample_active, snd sample_active)"
    using sample_active_reachable by simp
  have e: "is_encrypting (fst sample_active)"
    by (simp add: is_encrypting_def activated_def) (simp add: sample_active_eq)
  show ?thesis using e storage_nonces_distinct [OF h e] by blast
qed

section \<open>Cross-contract calls\<close>

text \<open>
  C20. A cross-contract call and its return, that is activating another contract (or none) and
  next, with nothing run in between, the address the first activation handed back, restores the contract, its keys and its
  cipher, and keeps the peer session; the storage nonce, however, starts again at the first value
  of this block and contract.
\<close>

theorem call_and_return:
  assumes "reachable (ctx_start env) (ctx_step env) (ctx, km)" and "is_encrypting ctx"
    and "random_wf (env_lib env) r1" and "activate env r1 ctx km callee = (Ok caller, ctx1, km1)"
    and "random_wf (env_lib env) r2" and "activate env r2 ctx1 km1 caller = (res, ctx2, km2)"
  shows "res = Ok callee
    \<and> (\<exists>a. caller = Some a
        \<and> ctx2 = ctx\<lparr>next_storage_nonce := Some (nonce_new (storage_start env (prev_block_hash ctx) a))\<rparr>)
    \<and> km2 = km1"
proof -
  obtain a k n where s: "contract ctx = Some (a, k)" "keys km (contract_id_of env a) = Some k"
    "key_wf (env_lib env) k" "d2 ctx = Some (inner (state_key k))" "env_ok env" "km_wf (env_lib env) km"
    "ctx_activated ctx"
    using encrypting_state [OF assms(1,2)] by metis
  obtain k1 where mid: "caller = Some a" "contract ctx1 = k1" "map_option fst k1 = callee"
    "ctx1 = ctx\<lparr>contract := k1, d2 := d2 ctx1, next_storage_nonce := next_storage_nonce ctx1\<rparr>"
    "keys km \<subseteq>\<^sub>m keys km1" "km_wf (env_lib env) km1"
  proof (cases callee)
    case None
    with assms(4) s show ?thesis by (intro that) (auto simp: activate_None)
  next
    case (Some b)
    obtain kb kmb where g: "get_or_create_keys (env_lib env) r1 km (contract_id_of env b) = (kb, kmb)"
      by (meson surj_pair)
    from get_or_create_keys_wf [OF s(6) assms(3) g] activate_Some [OF s(5,6) assms(3) g, of ctx] assms(4) s Some
    show ?thesis by (intro that) auto
  qed
  have "keys km1 (contract_id_of env a) = Some k" using mid(5) s(2) by (rule map_le_SomeD)
  then have g: "get_or_create_keys (env_lib env) r2 km1 (contract_id_of env a) = (k, km1)" by (rule mc.get_known)
  have "prev_block_hash ctx1 = prev_block_hash ctx" by (subst mid(4)) simp
  moreover have "ctx1\<lparr>ctx_activated := True, contract := Some (a, k), d2 := Some (inner (state_key k)),
      next_storage_nonce := v\<rparr> = ctx\<lparr>next_storage_nonce := v\<rparr>" for v
    by (subst mid(4)) (use s in \<open>simp add: confidential_ctx.equality\<close>)
  ultimately show ?thesis
    using activate_Some [OF s(5) mid(6) assms(5) g, of ctx1] assms(6) mid(1-3) by simp
qed

theorem call_and_return_witness:
  "\<exists>ctx1 km1 ctx2.
     activate sample_env (sample_random 5) (fst sample_active) (snd sample_active) (Some [4]) = (Ok (Some [3]), ctx1, km1)
   \<and> activate sample_env (sample_random 9) ctx1 km1 (Some [3]) = (Ok (Some [4]), ctx2, km1)
   \<and> next_storage_nonce ctx2 = Some (nonce_new (storage_start sample_env [7] [3]))"
proof -
  let ?ctx = "fst sample_active" and ?km = "snd sample_active"
  have r: "reachable (ctx_start sample_env) (ctx_step sample_env) (?ctx, ?km)"
    using sample_active_reachable by simp
  have e: "is_encrypting ?ctx" by (simp add: is_encrypting_def activated_def) (simp add: sample_active_eq)
  obtain k km1 where g: "get_or_create_keys (env_lib sample_env) (sample_random 5) ?km (contract_id_of sample_env [4]) = (k, km1)"
    by (meson surj_pair)
  have km: "km_wf (env_lib sample_env) ?km" using cm.reachable_inv [OF r] by (simp add: ctx_inv_def)
  obtain ctx1 where a1: "activate sample_env (sample_random 5) ?ctx ?km (Some [4]) = (Ok (Some [3]), ctx1, km1)"
    using activate_Some [OF sample_env_ok km sample_random_wf g, of ?ctx] by (simp add: sample_active_eq)
  obtain res ctx2 km2 where a2: "activate sample_env (sample_random 9) ctx1 km1 (Some [3]) = (res, ctx2, km2)"
    by (meson prod_cases3)
  have p: "prev_block_hash ?ctx = [7]" by (simp add: sample_active_eq confidential_ctx_new_def)
  show ?thesis
    using a1 a2 call_and_return [OF r e sample_random_wf a1 sample_random_wf a2] p by auto
qed

lemma first_write_nonce:
  assumes "next_storage_nonce ctx = Some (nonce_new v)" and "length v = NONCE_SIZE"
    and "encrypt_storage_value env ctx sk data = (Ok c, ctx')"
  shows "value_nonce c = v"
proof -
  have "d2 ctx \<noteq> None" using assms(3) by (auto simp: encrypt_storage_value_def split: option.splits outcome.splits)
  then obtain k where k: "d2 ctx = Some k" by auto
  have "nonce_wf (nonce_new v)" using assms(2) by (rule nonce_new_wf)
  from encrypt_storage_value_eq [OF assms(1) this k, of env sk data] assms(2,3)
  show ?thesis
    by (auto simp: value_nonce_append nonce_new_def split: prod.splits outcome.splits)
qed

text \<open>
  C29. The storage nonce of a contract repeats within a block: the first value written after any
  activation of the contract in that block is sealed with the same nonce, whatever was written
  before (by another transaction's context over the same parent block, or by the same one before
  a cross-contract call).
\<close>

theorem activation_repeats_storage_nonce:
  assumes "env_ok env" and "km_wf (env_lib env) km" and "km_wf (env_lib env) km'"
    and "random_wf (env_lib env) r1" and "activate env r1 ctx km (Some a) = (res, ctx1, km1)"
    and "random_wf (env_lib env) r2" and "activate env r2 ctx' km' (Some a) = (res', ctx1', km1')"
    and "prev_block_hash ctx' = prev_block_hash ctx"
    and "encrypt_storage_value env ctx1 sk data = (Ok c, ctx2)"
    and "encrypt_storage_value env ctx1' sk' data' = (Ok c', ctx2')"
  shows "value_nonce c' = value_nonce c"
proof -
  have n: "next_storage_nonce t = Some (nonce_new (storage_start env (prev_block_hash u) a))"
    if "km_wf (env_lib env) m" "random_wf (env_lib env) r" "activate env r u m (Some a) = (x, t, m1)" for u m r x t m1
  proof -
    obtain k m' where g: "get_or_create_keys (env_lib env) r m (contract_id_of env a) = (k, m')" by (meson surj_pair)
    from activate_Some [OF assms(1) that(1,2) g, of u] that(3) show ?thesis by auto
  qed
  show ?thesis
    using first_write_nonce [OF n [OF assms(2,4,5)] _ assms(9)]
      first_write_nonce [OF n [OF assms(3,6,7)] _ assms(10)] assms(1,8) by simp
qed

theorem activation_repeats_storage_nonce_witness:
  "\<exists>c c'. fst (encrypt_storage_value sample_env (fst sample_active) [1] [2, 3]) = Ok c
    \<and> fst (encrypt_storage_value sample_env (fst sample_active) [1] [4]) = Ok c'
    \<and> value_nonce c' = value_nonce c"
proof -
  let ?ctx = "fst sample_active" and ?v = "storage_start sample_env [7] [3]"
  have wf: "nonce_wf (nonce_new ?v)" by (intro wf_intros storage_start_length sample_env_ok)
  obtain m where "increment (nonce_new ?v) = (Ok (), m)"
    using increment_fresh [of ?v] sample_env_ok by auto
  moreover have "next_storage_nonce ?ctx = Some (nonce_new ?v)" "d2 ?ctx = Some (inner (state_key sample_key))"
    by (simp_all add: sample_active_eq)
  ultimately obtain c x c' x' where
    w: "encrypt_storage_value sample_env ?ctx [1] [2, 3] = (Ok c, x)"
       "encrypt_storage_value sample_env ?ctx [1] [4] = (Ok c', x')"
    using encrypt_storage_value_eq [OF _ wf] by simp
  obtain res where a: "activate sample_env (sample_random 1) (confidential_ctx_new [7]) mock_client_new (Some [3])
      = (res, ?ctx, snd sample_active)"
    by (metis prod.collapse sample_active_def)
  show ?thesis
    using w activation_repeats_storage_nonce [OF sample_env_ok mock_client_new_wf mock_client_new_wf
        sample_random_wf a sample_random_wf a refl w] by simp
qed

section \<open>A session with a client\<close>

lemma decrypt_session_of_client:
  assumes "dh_law (env_lib env)" and "aead_law (env_lib env)" and "key_wf (env_lib env) k"
    and "contract ctx = Some (a, k)" and "wf_array 32 pk" and "inner pk = x25519_public (env_lib env) (inner sk)"
    and "length v = NONCE_SIZE" and "79 + length req + length ad < 2 ^ 64"
    and "encrypt (env_lib env) req (nonce_new v) (get_pk (input_keypair k)) pk sk ad = Ok payload"
  shows "\<exists>m. nonce_wf m \<and> nonce_used m = 1 \<and> current_value m = nonce_at v (counter_of v + 1)
    \<and> decrypt_session env ctx payload =
        (Ok \<lparr>decrypted_data = req, additional_data = ad\<rparr>, ctx\<lparr>peer_public_key := Some pk, next_nonce := Some m\<rparr>)"
proof -
  have keys: "inner (get_pk (input_keypair k)) = x25519_public (env_lib env) (inner (get_sk (input_keypair k)))"
    using assms(3) by (simp add: key_wf_def)
  have dec: "decrypt (env_lib env) (env_oc env) (Some payload) (get_sk (input_keypair k)) =
      Ok \<lparr>dec_plaintext = req, dec_nonce = nonce_new v, dec_peer_public_key = pk, dec_aad = ad\<rparr>"
    using decrypt_encrypt [OF assms(1,2,6) keys assms(5), of "nonce_new v" req ad] assms(7-9)
    by (auto simp: nonce_new_def deref_def)
  obtain m where m: "increment (nonce_new v) = (Ok (), m)" "nonce_wf m" "current_value m = nonce_at v (counter_of v + 1)"
    using increment_fresh [OF assms(7)] by auto
  have "nonce_used m = 1" using increment_Ok_used [OF nonce_new_wf [OF assms(7)] m(1)] by simp
  with m dec assms(4) show ?thesis by (intro exI [of _ m]) (simp add: decrypt_session_def)
qed

lemma encrypt_session_ready:
  assumes "dh_law (env_lib env)" and "contract ctx = Some (a, k)" and "next_nonce ctx = Some n"
    and "peer_public_key ctx = Some pk" and "increment n = (Ok (), m)"
  shows "encrypt_session env ctx data =
    (map_err Confidential (encrypt (env_lib env) data n pk (get_pk (input_keypair k)) (get_sk (input_keypair k)) []),
     ctx\<lparr>next_nonce := Some m\<rparr>)"
  using assms by (simp add: encrypt_session_def session_problems_def encrypt_eq)

text \<open>
  C3. Request and response: a client that knows the contract's public key encrypts a request;
  the context, with that contract selected, recovers the request and its additional data, learns
  the client's public key, and encrypts a response that the client decrypts, authenticated by the
  contract's public key and sealed with the client's nonce plus one.
\<close>

theorem request_response:
  assumes "dh_law (env_lib env)" and "aead_law (env_lib env)"
    and "reachable (ctx_start env) (ctx_step env) (ctx, km)" and "contract ctx = Some (a, k)"
    and "wf_array 32 pk" and "inner pk = x25519_public (env_lib env) (inner sk)"
    and "length v = NONCE_SIZE" and "79 + length req + length ad < 2 ^ 64" and "79 + length resp < 2 ^ 64"
    and "encrypt (env_lib env) req (nonce_new v) (get_pk (input_keypair k)) pk sk ad = Ok payload"
  shows "\<exists>ctx1 ctx2 reply.
      decrypt_session env ctx payload = (Ok \<lparr>decrypted_data = req, additional_data = ad\<rparr>, ctx1)
    \<and> peer ctx1 = Some (inner pk)
    \<and> encrypt_session env ctx1 resp = (Ok reply, ctx2)
    \<and> decrypt (env_lib env) oc (Some reply) sk =
        Ok \<lparr>dec_plaintext = resp, dec_nonce = nonce_new (nonce_at v (counter_of v + 1)),
            dec_peer_public_key = get_pk (input_keypair k), dec_aad = []\<rparr>"
proof -
  have kw: "key_wf (env_lib env) k"
    using cm.reachable_inv [OF assms(3)] assms(4) by (simp add: ctx_inv_def contract_inv_def)
  from decrypt_session_of_client [OF assms(1,2) kw assms(4-8,10)] obtain m where
    m: "nonce_wf m" "nonce_used m = 1" "current_value m = nonce_at v (counter_of v + 1)"
    and dec: "decrypt_session env ctx payload =
        (Ok \<lparr>decrypted_data = req, additional_data = ad\<rparr>, ctx\<lparr>peer_public_key := Some pk, next_nonce := Some m\<rparr>)"
    by blast
  let ?ctx1 = "ctx\<lparr>peer_public_key := Some pk, next_nonce := Some m\<rparr>"
  obtain m' where inc: "increment m = (Ok (), m')" using nc.step_ok [OF m(1)] m(2) by auto
  have kk: "inner (get_pk (input_keypair k)) = x25519_public (env_lib env) (inner (get_sk (input_keypair k)))"
    "wf_array 32 (get_pk (input_keypair k))" using kw by (simp_all add: key_wf_def)
  obtain reply where rep: "encrypt (env_lib env) resp m pk (get_pk (input_keypair k)) (get_sk (input_keypair k)) [] = Ok reply"
    "decrypt (env_lib env) oc (Some reply) sk = Ok \<lparr>dec_plaintext = resp, dec_nonce = nonce_new (deref m),
       dec_peer_public_key = get_pk (input_keypair k), dec_aad = []\<rparr>"
    using decrypt_encrypt [OF assms(1,2) kk(1) assms(6) kk(2), of m resp "[]"] m(1) assms(9)
    by (auto simp: nonce_wf_def)
  have "encrypt_session env ?ctx1 resp = (Ok reply, ?ctx1\<lparr>next_nonce := Some m'\<rparr>)"
    using encrypt_session_ready [OF assms(1), of ?ctx1 a k m pk m' resp] assms(4) inc rep(1) by simp
  moreover have "peer ?ctx1 = Some (inner pk)" by (simp add: peer_def as_ref_def)
  ultimately show ?thesis using dec rep(2) m(3) by (auto simp: deref_def)
qed

theorem request_response_witness:
  "\<exists>payload ctx1 ctx2 reply plain.
     encrypt sample_lib [1, 2] (nonce_new (replicate 15 0)) (get_pk (input_keypair sample_key))
       (ByteArray (replicate 32 5)) (ByteArray (replicate 32 5)) [6] = Ok payload
   \<and> decrypt_session sample_env (fst sample_active) payload = (Ok \<lparr>decrypted_data = [1, 2], additional_data = [6]\<rparr>, ctx1)
   \<and> encrypt_session sample_env ctx1 [8] = (Ok reply, ctx2)
   \<and> decrypt sample_lib True (Some reply) (ByteArray (replicate 32 5)) = Ok plain \<and> dec_plaintext plain = [8]"
proof -
  let ?pk = "ByteArray (replicate 32 5)"
  have lib: "env_lib sample_env = sample_lib" by (simp add: sample_env_def)
  have laws: "dh_law (env_lib sample_env)" "aead_law (env_lib sample_env)" using sample_lib_laws lib by simp_all
  have r: "reachable (ctx_start sample_env) (ctx_step sample_env) (fst sample_active, snd sample_active)"
    using sample_active_reachable by simp
  have c: "contract (fst sample_active) = Some ([3], sample_key)" by (simp add: sample_active_eq)
  have h: "wf_array 32 ?pk" "inner ?pk = x25519_public (env_lib sample_env) (inner ?pk)"
    "length (replicate 15 (0::u8)) = NONCE_SIZE" "79 + length [1, 2 :: u8] + length [6 :: u8] < 2 ^ 64"
    "79 + length [8 :: u8] < 2 ^ 64"
    by (simp_all add: wf_array_def NONCE_SIZE_def sample_env_def sample_lib_def)
  obtain payload where p: "encrypt (env_lib sample_env) [1, 2] (nonce_new (replicate 15 0))
      (get_pk (input_keypair sample_key)) ?pk ?pk [6] = Ok payload"
    using encrypt_eq [OF laws(1)] by blast
  from request_response [OF laws r c h p, of True] p show ?thesis unfolding lib by fastforce
qed

section \<open>Failures\<close>



text \<open>
  Ending the confidential execution forgets everything but the parent block: the context is
  as new, holds no peer, and every attempt to continue the session without selecting a contract
  fails with the list of what is missing.
\<close>

theorem deactivate_forgets_session:
  "deactivate ctx = confidential_ctx_new (prev_block_hash ctx)
   \<and> peer (deactivate ctx) = None \<and> \<not> is_encrypting (deactivate ctx)
   \<and> encrypt_session env (deactivate ctx) data =
      (Err (Confidential (''Cannot encrypt session ; no peer public key specified; no contract specified from which to extract contract public key; no next nonce specified.'')), deactivate ctx)
   \<and> decrypt_session env (deactivate ctx) payload = (Panic, deactivate ctx)
   \<and> encrypt_storage_key env (deactivate ctx) sk = Panic"
  by (simp add: deactivate_def confidential_ctx_new_def peer_def is_encrypting_def encrypt_session_def
      session_problems_def decrypt_session_def encrypt_storage_key_def)

end
