(* ===== verification/Oasis_Rpc.thy ===== *)
theory Oasis_Rpc
  imports Eth_Rpc Confidential_Sessions
begin

text \<open>
  The smaller APIs: \<open>src/impls/oasis.rs\<close> (contract keys, storage expiry and transactions with
  output), \<open>net.rs\<close>, \<open>web3.rs\<close> and \<open>eth_signing.rs\<close>.
\<close>

section \<open>The Oasis API\<close>

record rpc_public_key_payload =
  pkp_public_key :: bytes
  pkp_checksum :: bytes
  pkp_signature :: bytes

record rpc_execution_payload =
  xp_transaction_hash :: h256
  xp_status_code :: u64
  xp_output :: bytes

text \<open>The address has 20 bytes; its Keccak-256 digest identifies the contract's keys.\<close>

definition oasis_public_key ::
  "conf_env \<Rightarrow> key_random \<Rightarrow> mock_client \<Rightarrow> bytes \<Rightarrow> (rpc_public_key_payload option, rpc_error) outcome \<times> mock_client" where
  "oasis_public_key env rnd km c =
     (case from_slice 32 (env_keccak env c) of
        Err e \<Rightarrow> (Err e, km)
      | Panic \<Rightarrow> (Panic, km)
      | Ok contract_id \<Rightarrow>
          (let (pk, km') = get_public_key (env_lib env) rnd km contract_id
           in (Ok (map_option (\<lambda>payload.
                 \<lparr>pkp_public_key = as_ref (spk_key payload), pkp_checksum = spk_checksum payload,
                  pkp_signature = as_ref (spk_signature payload)\<rparr>) pk), km')))"

definition oasis_get_expiry ::
  "'s chain_lib \<Rightarrow> ('s, 't, 'r, 'l, 'q) rpc_lib \<Rightarrow> world \<Rightarrow> blockchain \<Rightarrow> bytes \<Rightarrow> block_number option \<Rightarrow> (u64, rpc_error) outcome" where
  "oasis_get_expiry lib rl w bc addr num = with_state lib rl w bc num (\<lambda>state. st_storage_expiry rl state w addr)"

definition oasis_invoke ::
  "'s chain_lib \<Rightarrow> io_input \<Rightarrow> blockchain \<Rightarrow> world \<Rightarrow> bytes \<Rightarrow> (rpc_execution_payload, rpc_error) outcome \<times> blockchain \<times> world" where
  "oasis_invoke lib io bc w raw =
     (let (r, bc', w') = send_raw_transaction lib io bc w raw
      in (map_ok (\<lambda>(hash, result).
            \<lparr>xp_transaction_hash = hash, xp_status_code = ucast (er_status_code result), xp_output = er_output result\<rparr>)
            (map_err execution_error r), bc', w'))"

section \<open>Net, Web3 and signing\<close>

definition net_version :: string where
  "net_version = dec_string 0xa515"

definition net_peer_count :: string where
  "net_peer_count = ''0x'' @ hex_string 0"

definition net_is_listening :: bool where
  "net_is_listening = True"

text \<open>Name, version and git revision are set by the build.\<close>

definition web3_client_version :: "string \<Rightarrow> string \<Rightarrow> string \<Rightarrow> string" where
  "web3_client_version pkg_name pkg_version git_rev = ''oasis/'' @ pkg_name @ ''/'' @ pkg_version @ ''/'' @ git_rev"

definition web3_sha3 :: "'s chain_lib \<Rightarrow> bytes \<Rightarrow> h256" where
  "web3_sha3 lib data = keccak lib data"

definition cannot_sign :: "string \<Rightarrow> string" where
  "cannot_sign method_name = method_name @ '' is not implemented because the gateway cannot sign transactions. Make sure that the wallet is setup correctly in the client in case transaction signing is expected to happen transparently''"

definition eth_sign :: "('s, 't, 'r, 'l, 'q) rpc_lib \<Rightarrow> bytes \<Rightarrow> bytes \<Rightarrow> (bytes, rpc_error) outcome" where
  "eth_sign rl _ _ = Err (errors_unsupported rl (cannot_sign ''eth_sign''))"

definition eth_send_transaction :: "('s, 't, 'r, 'l, 'q) rpc_lib \<Rightarrow> 'x \<Rightarrow> (h256, rpc_error) outcome" where
  "eth_send_transaction rl _ = Err (errors_unsupported rl (cannot_sign ''eth_sendTransaction''))"

definition eth_sign_transaction :: "('s, 't, 'r, 'l, 'q) rpc_lib \<Rightarrow> 'x \<Rightarrow> ('y, rpc_error) outcome" where
  "eth_sign_transaction rl _ = Err (errors_unsupported rl (cannot_sign ''eth_signTransaction''))"

section \<open>Properties\<close>

lemma oasis_public_key_eq:
  assumes "env_ok env" and "get_or_create_keys (env_lib env) rnd km (contract_id_of env c) = (k, km')"
  shows "oasis_public_key env rnd km c =
    (Ok (Some \<lparr>pkp_public_key = inner (get_pk (input_keypair k)), pkp_checksum = [], pkp_signature = replicate 64 0\<rparr>), km')"
proof -
  have "from_slice 32 (env_keccak env c) = (Ok (contract_id_of env c) :: (byte_array, rpc_error) outcome)"
    using assms(1) by (simp add: from_slice_def copy_from_slice_def contract_id_of_def env_ok_def)
  with assms(2) show ?thesis
    by (simp add: oasis_public_key_def get_public_key_def as_ref_def array_default_def)
qed

text \<open>
  C8. The key that \<open>oasis_getPublicKey\<close> publishes is the key the contract runs with: whatever key
  requests come in between, when the contract is activated the context holds the key pair whose
  public half was published, so that a request encrypted for the published key is recovered and
  answered.
\<close>

theorem published_key_opens_requests:
  assumes "dh_law (env_lib env)" and "aead_law (env_lib env)" and "env_ok env"
    and "km_wf (env_lib env) km" and "random_wf (env_lib env) r1"
    and "oasis_public_key env r1 km c = (Ok (Some payload), km1)"
    and "\<forall>op \<in> set ops. random_wf (env_lib env) (fst op)"
    and "random_wf (env_lib env) r2"
    and "activate env r2 ctx (run_gets (get_or_create_keys (env_lib env)) ops km1) (Some c) = (res, ctx1, km2)"
    and "wf_array 32 pk" and "inner pk = x25519_public (env_lib env) (inner sk)"
    and "length v = NONCE_SIZE" and "79 + length req + length ad < 2 ^ 64"
    and "encrypt (env_lib env) req (nonce_new v) (ByteArray (pkp_public_key payload)) pk sk ad = Ok msg"
  shows "is_ok res \<and> (\<exists>ctx2. decrypt_session env ctx1 msg = (Ok \<lparr>decrypted_data = req, additional_data = ad\<rparr>, ctx2)
    \<and> peer ctx2 = Some (inner pk))"
proof -
  obtain k km' where g: "get_or_create_keys (env_lib env) r1 km (contract_id_of env c) = (k, km')" by (meson surj_pair)
  have p: "payload = \<lparr>pkp_public_key = inner (get_pk (input_keypair k)), pkp_checksum = [], pkp_signature = replicate 64 0\<rparr>"
    "km1 = km'" using oasis_public_key_eq [OF assms(3) g] assms(6) by simp_all
  note kw = get_or_create_keys_wf [OF assms(4,5) g]
  let ?km = "run_gets (get_or_create_keys (env_lib env)) ops km1"
  have "keys ?km (contract_id_of env c) = Some k"
    using mc.known_kept [of km1 "contract_id_of env c" k "env_lib env" ops] kw(3) p(2) by simp
  then have g2: "get_or_create_keys (env_lib env) r2 ?km (contract_id_of env c) = (k, ?km)" by (rule mc.get_known)
  have "km_wf (env_lib env) ?km" using kw(1) p(2) assms(7) by (intro run_gets_wf) auto
  from activate_Some [OF assms(3) this assms(8) g2, of ctx] assms(9)
  have act: "contract ctx1 = Some (c, k)" "is_ok res" by auto
  have "ByteArray (pkp_public_key payload) = get_pk (input_keypair k)" using p(1) by (simp add: byte_array.expand)
  with assms(14) have "encrypt (env_lib env) req (nonce_new v) (get_pk (input_keypair k)) pk sk ad = Ok msg" by simp
  from decrypt_session_of_client [OF assms(1,2) kw(2) act(1) assms(10-13) this] act(2) show ?thesis
    by (auto simp: peer_def as_ref_def)
qed

theorem published_key_opens_requests_witness:
  "\<exists>payload km1 msg ctx1 km2 ctx2.
     oasis_public_key sample_env (sample_random 1) mock_client_new [3] = (Ok (Some payload), km1)
   \<and> encrypt sample_lib [1, 2] (nonce_new (replicate 15 0)) (ByteArray (pkp_public_key payload))
       (ByteArray (replicate 32 5)) (ByteArray (replicate 32 5)) [6] = Ok msg
   \<and> activate sample_env (sample_random 9) (confidential_ctx_new [7]) km1 (Some [3]) = (Ok None, ctx1, km2)
   \<and> decrypt_session sample_env ctx1 msg = (Ok \<lparr>decrypted_data = [1, 2], additional_data = [6]\<rparr>, ctx2)"
proof -
  let ?pk = "ByteArray (replicate 32 5)" and ?km1 = "\<lparr>keys = [contract_id_of sample_env [3] \<mapsto> sample_key]\<rparr>"
  have lib: "env_lib sample_env = sample_lib" by (simp add: sample_env_def)
  have laws: "dh_law (env_lib sample_env)" "aead_law (env_lib sample_env)" using sample_lib_laws lib by simp_all
  obtain payload where p: "oasis_public_key sample_env (sample_random 1) mock_client_new [3] = (Ok (Some payload), ?km1)"
    using oasis_public_key_eq [OF sample_env_ok sample_get] by blast
  have g2: "get_or_create_keys (env_lib sample_env) (sample_random 9) ?km1 (contract_id_of sample_env [3]) = (sample_key, ?km1)"
    by (rule mc.get_known) simp
  have kw: "km_wf (env_lib sample_env) ?km1"
    by (rule get_or_create_keys_wf(1) [OF mock_client_new_wf sample_random_wf sample_get])
  obtain ctx1 where a: "activate sample_env (sample_random 9) (confidential_ctx_new [7]) ?km1 (Some [3]) = (Ok None, ctx1, ?km1)"
    using activate_Some [OF sample_env_ok kw sample_random_wf g2, of "confidential_ctx_new [7]"]
    by (simp add: confidential_ctx_new_def)
  then have a': "activate sample_env (sample_random 9) (confidential_ctx_new [7])
      (run_gets (get_or_create_keys (env_lib sample_env)) [] ?km1) (Some [3]) = (Ok None, ctx1, ?km1)" by simp
  have ops: "\<forall>op \<in> set []. random_wf (env_lib sample_env) (fst op)" by simp
  have h: "wf_array 32 ?pk" "inner ?pk = x25519_public (env_lib sample_env) (inner ?pk)"
    "length (replicate 15 (0::u8)) = NONCE_SIZE" "79 + length [1, 2 :: u8] + length [6 :: u8] < 2 ^ 64"
    by (simp_all add: wf_array_def NONCE_SIZE_def sample_env_def sample_lib_def)
  obtain msg where m: "encrypt (env_lib sample_env) [1, 2] (nonce_new (replicate 15 0)) (ByteArray (pkp_public_key payload)) ?pk ?pk [6] = Ok msg"
    using encrypt_eq [OF laws(1)] by blast
  obtain ctx2 where d: "decrypt_session sample_env ctx1 msg = (Ok \<lparr>decrypted_data = [1, 2], additional_data = [6]\<rparr>, ctx2)"
    using published_key_opens_requests [OF laws sample_env_ok mock_client_new_wf sample_random_wf p ops sample_random_wf a' h m]
    by blast
  show ?thesis
    by (rule exI [of _ payload], rule exI [of _ ?km1], rule exI [of _ msg], rule exI [of _ ctx1],
        rule exI [of _ ?km1], rule exI [of _ ctx2]) (simp add: p a d m [unfolded lib])
qed

end
