(* ===== verification/Panics.thy ===== *)
theory Panics
  imports Oasis_Rpc Eth_Filter
begin

text \<open>
  Where a request can panic.  As long as the lock of the chain is not poisoned, the handlers of
  \<open>src/impls/eth.rs\<close> and \<open>src/impls/oasis.rs\<close> that only look at the chain never panic; those that call
  the Ethereum library panic exactly when that call does or its result cannot be used.  The
  definitions name these failures in terms of the library alone.
\<close>

section \<open>Failures of the library\<close>

text \<open>The environment that the chain passes to an execution on top of its best block.\<close>

definition best_of :: "blockchain \<Rightarrow> ethereum_block" where
  "best_of bc = the (cs_get_block_by_number (bc_chain_state bc) (cs_block_number (bc_chain_state bc)))"

definition next_env :: "blockchain \<Rightarrow> io_input \<Rightarrow> u256 \<Rightarrow> env_info" where
  "next_env bc io limit =
     \<lparr>ei_number = cs_block_number (bc_chain_state bc) + 1, ei_author = replicate 20 0,
      ei_timestamp = of_int (io_now io div 1000000000), ei_difficulty = 0, ei_gas_limit = limit,
      ei_last_hashes = [eb_hash (best_of bc)], ei_gas_used = 0\<rparr>"

fun has_status :: "transaction_outcome \<Rightarrow> bool" where
  "has_status (StatusCode c) = True"
| "has_status _ = False"

text \<open>
  The execution of a transaction fails: the state database cannot be opened, the execution panics
  (it calls back into the confidential context, which panics on a payload with forged lengths and on
  a stored value that does not authenticate), its result cannot be committed, or the receipt has no
  status code.  An execution that ends with an error is not a failure.
\<close>

definition execution_fails :: "'s chain_lib \<Rightarrow> io_input \<Rightarrow> blockchain \<Rightarrow> world \<Rightarrow> signed_transaction \<Rightarrow> bool" where
  "execution_fails lib io bc w txn =
     (case from_existing lib (boxed_clone (cs_mkvs (bc_chain_state bc))) (Some (confidential_ctx_new (eb_hash (best_of bc)))) w of
        Ok st \<Rightarrow>
          (case state_apply lib st (next_env bc io (bc_block_gas_limit bc)) txn w (io_random io) of
             (Ok ao, st1, w1) \<Rightarrow> \<not> is_ok (fst (state_commit lib st1 w1)) \<or> \<not> has_status (rc_outcome (ao_receipt ao))
           | (Err _, _, _) \<Rightarrow> False
           | (Panic, _, _) \<Rightarrow> True)
      | _ \<Rightarrow> True)"

definition simulation_fails :: "'s chain_lib \<Rightarrow> io_input \<Rightarrow> blockchain \<Rightarrow> world \<Rightarrow> signed_transaction \<Rightarrow> bool" where
  "simulation_fails lib io bc w txn =
     (case from_existing lib (boxed_clone (cs_mkvs (bc_chain_state bc))) None w of
        Ok st \<Rightarrow> transact_virtual lib st (next_env bc io (- 1)) txn w = Panic
      | _ \<Rightarrow> True)"

definition query_fails :: "'s chain_lib \<Rightarrow> blockchain \<Rightarrow> world \<Rightarrow> ('s \<Rightarrow> ('a, string) outcome) \<Rightarrow> bool" where
  "query_fails lib bc w query =
     (case from_existing lib (boxed_clone (cs_mkvs (bc_chain_state bc))) None w of
        Ok st \<Rightarrow> query st = Panic
      | Err _ \<Rightarrow> False
      | Panic \<Rightarrow> True)"

text \<open>The transactions that pass the checks of a submission.\<close>

definition admitted :: "'s chain_lib \<Rightarrow> blockchain \<Rightarrow> bytes \<Rightarrow> signed_transaction \<Rightarrow> bool" where
  "admitted lib bc raw txn \<longleftrightarrow> (\<exists>decoded. rlp_decode lib raw = Some decoded
     \<and> tx_gas (as_unsigned decoded) \<le> bc_block_gas_limit bc \<and> signed_new lib decoded = Some txn
     \<and> bc_gas_price bc \<le> tx_gas_price (as_unsigned (st_transaction txn)))"

section \<open>Mining\<close>

lemma best_found:
  assumes "reachable (chain_start lib) (chain_step lib) (bc, w)"
  shows "cs_get_block_by_number (bc_chain_state bc) (cs_block_number (bc_chain_state bc)) = Some (best_of bc)"
  using chain.block_found [OF reachable_blocks_inv [OF assms] order_refl] by (auto simp: best_of_def)

lemma mine_block_panics_iff:
  assumes "reachable (chain_start lib) (chain_step lib) (bc, w)" and "\<not> bc_poisoned bc"
    and "cs_block_number (bc_chain_state bc) \<noteq> - 1" and "0 \<le> io_now io"
  shows "fst (mine_block lib io bc w txn) = Panic \<longleftrightarrow> execution_fails lib io bc w txn"
    "bc_poisoned (fst (snd (mine_block lib io bc w txn))) \<longleftrightarrow> fst (mine_block lib io bc w txn) = Panic"
proof -
  let ?cs = "bc_chain_state bc"
  have n: "next_number lib ?cs = Ok (cs_block_number ?cs + 1)" using number_free [OF assms(3)] by (simp add: next_number_def)
  have ts: "get_timestamp (io_now io) = (Ok (of_int (io_now io div 1000000000)) :: (u64, string) outcome)"
    using assms(4) by (simp add: get_timestamp_def)
  have "(fst (mine_block lib io bc w txn) = Panic \<longleftrightarrow> execution_fails lib io bc w txn)
      \<and> (bc_poisoned (fst (snd (mine_block lib io bc w txn))) \<longleftrightarrow> fst (mine_block lib io bc w txn) = Panic)"
  proof (cases "from_existing lib (boxed_clone (cs_mkvs ?cs)) (Some (confidential_ctx_new (eb_hash (best_of bc)))) w")
    case (Ok st)
    note run = mine_block_executed [OF assms(2) best_found [OF assms(1)] Ok n ts, of txn]
    show ?thesis
      unfolding run execution_fails_def Ok using assms(2)
      by (auto simp: next_env_def mined_outcome_def stored_def Let_def split: outcome.split prod.split transaction_outcome.split)
  qed (use assms(2) best_found [OF assms(1)] in \<open>simp_all add: mine_block_def execution_fails_def Let_def\<close>)
  then show "fst (mine_block lib io bc w txn) = Panic \<longleftrightarrow> execution_fails lib io bc w txn"
    "bc_poisoned (fst (snd (mine_block lib io bc w txn))) \<longleftrightarrow> fst (mine_block lib io bc w txn) = Panic" by simp_all
qed

lemma send_panics_iff:
  assumes "reachable (chain_start lib) (chain_step lib) (bc, w)" and "\<not> bc_poisoned bc"
    and "cs_block_number (bc_chain_state bc) \<noteq> - 1" and "0 \<le> io_now io"
  shows "fst (send_raw_transaction lib io bc w raw) = Panic \<longleftrightarrow> (\<exists>txn. admitted lib bc raw txn \<and> execution_fails lib io bc w txn)"
    "bc_poisoned (fst (snd (send_raw_transaction lib io bc w raw))) \<longleftrightarrow> fst (send_raw_transaction lib io bc w raw) = Panic"
  using mine_block_panics_iff [OF assms] assms(2)
  by (auto simp: send_raw_transaction_def admitted_def split: option.splits)

section \<open>Handlers that only look at the chain\<close>

lemma get_block_total:
  assumes "reachable (chain_start lib) (chain_step lib) (bc, w)" and "\<not> bc_poisoned bc"
  shows "\<exists>b. get_block bc i = Ok b"
  using assms chain.block_found [OF reachable_blocks_inv [OF assms(1)] order_refl]
  by (cases i) (auto simp: get_block_by_hash_def get_block_by_number_def get_latest_block_def read_state_def)

lemma logs_between_total:
  assumes "reachable (chain_start lib) (chain_step lib) (bc, w)" and "\<not> bc_poisoned bc" and "later_states lib bc w at"
  shows "logs_between lib bc bc at flt \<noteq> Panic"
proof -
  obtain fb tb where g: "get_block bc (from_block flt) = (Ok fb :: (ethereum_block option, string) outcome)"
    "get_block bc (to_block flt) = (Ok tb :: (ethereum_block option, string) outcome)"
    using get_block_total [OF assms(1,2)] by metis
  show ?thesis
  proof (cases "fb = None \<or> tb = None")
    case True
    then show ?thesis using g by (cases fb) (auto simp: logs_between_def)
  next
    case False
    then obtain f t where "fb = Some f" "tb = Some t" by auto
    then show ?thesis
      using logs_between_eq [OF assms(1) rtranclp.rtrancl_refl, of at flt f t] assms(3) g by (simp add: later_states_def)
  qed
qed

lemma eth_reads_total:
  assumes "reachable (chain_start lib) (chain_step lib) (bc, w)" and "\<not> bc_poisoned bc"
  shows "eth_block_number bc \<noteq> Panic" "eth_block_by_number lib rl bc num inc \<noteq> Panic" "eth_block_by_hash lib rl bc h inc \<noteq> Panic"
    "eth_block_transaction_count_by_number bc num \<noteq> Panic" "eth_block_transaction_count_by_hash bc h \<noteq> Panic"
    "eth_transaction_by_hash rl bc h \<noteq> Panic" "eth_transaction_by_block_number_and_index rl bc num k \<noteq> Panic"
    "eth_transaction_by_block_hash_and_index rl bc h k \<noteq> Panic"
    "eth_transaction_receipt rl bc h \<noteq> Panic" "eth_logs lib rl bc flt \<noteq> Panic"
proof -
  have "get_txn bc i j \<noteq> (Panic :: (_, rpc_error) outcome)" for i j using assms(2)
    by (cases i) (simp_all add: get_txn_by_block_hash_and_index_def get_txn_by_number_and_index_def best_block_number_def read_state_def)
  moreover have "get_block bc i \<noteq> (Panic :: (_, rpc_error) outcome)" for i using get_block_total [OF assms, of i] by (metis outcome.distinct(3))
  moreover have "later_states lib bc w (\<lambda>_. bc)" using assms(2) by (auto simp: later_states_def)
  then have "logs lib bc flt \<noteq> Panic" using logs_between_total [OF assms] by (simp add: logs_def)
  ultimately show "eth_block_number bc \<noteq> Panic" "eth_block_by_number lib rl bc num inc \<noteq> Panic" "eth_block_by_hash lib rl bc h inc \<noteq> Panic"
    "eth_block_transaction_count_by_number bc num \<noteq> Panic" "eth_block_transaction_count_by_hash bc h \<noteq> Panic"
    "eth_transaction_by_hash rl bc h \<noteq> Panic" "eth_transaction_by_block_number_and_index rl bc num k \<noteq> Panic"
    "eth_transaction_by_block_hash_and_index rl bc h k \<noteq> Panic"
    "eth_transaction_receipt rl bc h \<noteq> Panic" "eth_logs lib rl bc flt \<noteq> Panic"
    using assms(2)
    by (simp_all add: eth_block_number_def eth_block_by_number_def eth_block_by_hash_def eth_transaction_by_hash_def
        eth_block_transaction_count_by_number_def eth_block_transaction_count_by_hash_def
        eth_transaction_by_block_number_and_index_def eth_transaction_by_block_hash_and_index_def
        eth_transaction_receipt_def eth_logs_def best_block_number_def get_txn_by_block_hash_and_index_def
        get_block_by_hash_def get_txn_by_hash_def get_txn_receipt_by_hash_def read_state_def)
qed

lemma public_key_total: "env_ok env \<Longrightarrow> fst (oasis_public_key env rnd km c) \<noteq> Panic"
  using oasis_public_key_eq by (metis fst_conv outcome.distinct(3) surj_pair)

section \<open>Handlers that call the library\<close>

lemma with_state_panics_iff:
  "\<not> bc_poisoned bc \<Longrightarrow> with_state lib rl w bc num query = Panic \<longleftrightarrow> query_fails lib bc w query"
  by (auto simp: with_state_def state_at_def read_state_def query_fails_def split: outcome.split)

lemma state_queries_panic_iff:
  assumes "\<not> bc_poisoned bc"
  shows "eth_balance lib rl w bc addr num = Panic \<longleftrightarrow> query_fails lib bc w (\<lambda>st. st_balance rl st w addr)"
    "eth_storage_at lib rl w bc addr pos num = Panic \<longleftrightarrow> query_fails lib bc w (\<lambda>st. st_storage_at rl st w addr (u256_into_h256 rl pos))"
    "eth_transaction_count lib rl w bc addr num = Panic \<longleftrightarrow> query_fails lib bc w (\<lambda>st. st_nonce rl st w addr)"
    "eth_code_at lib rl w bc addr num = Panic \<longleftrightarrow> query_fails lib bc w (\<lambda>st. st_code rl st w addr)"
    "oasis_get_expiry lib rl w bc addr num = Panic \<longleftrightarrow> query_fails lib bc w (\<lambda>st. st_storage_expiry rl st w addr)"
  by (simp_all add: eth_balance_def eth_storage_at_def eth_transaction_count_def eth_code_at_def oasis_get_expiry_def
      with_state_panics_iff [OF assms] map_ok_eq_Panic_iff)

lemma simulate_panics_iff:
  assumes "reachable (chain_start lib) (chain_step lib) (bc, w)" and "\<not> bc_poisoned bc"
    and "cs_block_number (bc_chain_state bc) \<noteq> - 1" and "0 \<le> io_now io"
  shows "simulate_transaction lib io bc w txn i = Panic \<longleftrightarrow> simulation_fails lib io bc w txn"
  using assms(2,4) best_found [OF assms(1)]
  by (auto simp: simulate_transaction_def simulation_fails_def next_env_def read_state_def get_timestamp_def Let_def
      number_free [OF assms(3)] split: outcome.split)

lemma calls_panic_iff:
  assumes "reachable (chain_start lib) (chain_step lib) (bc, w)" and "\<not> bc_poisoned bc"
    and "cs_block_number (bc_chain_state bc) \<noteq> - 1" and "0 \<le> io_now io"
  shows "eth_call lib rl io bc w dapp q num = Panic \<longleftrightarrow>
      (case sign_call rl q dapp of Ok txn \<Rightarrow> simulation_fails lib io bc w txn | Err _ \<Rightarrow> False | Panic \<Rightarrow> True)"
    "eth_estimate_gas lib rl io bc w dapp q num = Panic \<longleftrightarrow>
      (case sign_call rl q dapp of
         Ok txn \<Rightarrow> simulation_fails lib io bc w txn
           \<or> (\<exists>ex. simulate_transaction lib io bc w txn (block_number_to_id (unwrap_or_default rl num)) = Ok ex
                \<and> 2 ^ 256 \<le> unat (ex_gas_used ex) + unat (ex_refunded ex))
       | Err _ \<Rightarrow> False
       | Panic \<Rightarrow> True)"
proof -
  show "eth_call lib rl io bc w dapp q num = Panic \<longleftrightarrow>
      (case sign_call rl q dapp of Ok txn \<Rightarrow> simulation_fails lib io bc w txn | Err _ \<Rightarrow> False | Panic \<Rightarrow> True)"
  proof (cases "sign_call rl q dapp")
    case (Ok txn)
    note sim = simulate_panics_iff [OF assms, of txn "block_number_to_id (unwrap_or_default rl num)"]
    with Ok show ?thesis
      by (cases "simulate_transaction lib io bc w txn (block_number_to_id (unwrap_or_default rl num))")
        (auto simp: eth_call_def split: option.split)
  qed (simp_all add: eth_call_def)
  show "eth_estimate_gas lib rl io bc w dapp q num = Panic \<longleftrightarrow>
      (case sign_call rl q dapp of
         Ok txn \<Rightarrow> simulation_fails lib io bc w txn
           \<or> (\<exists>ex. simulate_transaction lib io bc w txn (block_number_to_id (unwrap_or_default rl num)) = Ok ex
                \<and> 2 ^ 256 \<le> unat (ex_gas_used ex) + unat (ex_refunded ex))
       | Err _ \<Rightarrow> False
       | Panic \<Rightarrow> True)"
  proof (cases "sign_call rl q dapp")
    case (Ok txn)
    note sim = simulate_panics_iff [OF assms, of txn "block_number_to_id (unwrap_or_default rl num)"]
    with Ok show ?thesis
      by (cases "simulate_transaction lib io bc w txn (block_number_to_id (unwrap_or_default rl num))")
        (auto simp: eth_estimate_gas_def estimate_gas_def add_checked_def)
  qed (simp_all add: eth_estimate_gas_def)
qed

end
