(* ===== verification/Service.thy ===== *)
theory Service
  imports Heads_Feed Panics
begin

text \<open>
  The running gateway as one state machine: the chain, the key manager, the broker and, for each of
  the two servers, the filter client and the publish/subscribe client that \<open>extend_api\<close> creates.  A
  step is one request of some client or one tick of the timer, in any order.  Requests that only read
  do not change the state and are not steps.
\<close>

section \<open>State and steps\<close>

datatype server = WsServer | HttpServer

record ('p, 'h, 'l, 't) service =
  sv_chain :: blockchain
  sv_world :: world
  sv_broker :: "server broker"
  sv_polls :: "server \<Rightarrow> 'p"
  sv_pubsub :: "server \<Rightarrow> ('h, 'l, 't) eth_pubsub_client"

abbreviation sv_best :: "('p, 'h, 'l, 't) service \<Rightarrow> u64" where
  "sv_best s \<equiv> cs_block_number (bc_chain_state (sv_chain s))"

definition service_start ::
  "'s chain_lib \<Rightarrow> ('d, 'v, 'a, 'srv, 'e, server, 'u) rpc_env \<Rightarrow> ('p, 'f) poll_lib \<Rightarrow> ('h, 'k) subs_lib
   \<Rightarrow> ('l, 'k \<times> log_filter) subs_lib \<Rightarrow> ('t, 'k \<times> 'x) subs_lib \<Rightarrow> ('p, 'h, 'l, 't) service \<Rightarrow> bool" where
  "service_start lib env pl hl ll xl s \<longleftrightarrow> collision_free lib \<and> lists_apis env
     \<and> (\<exists>runtime new_interval args w g.
          start lib env runtime new_interval WsServer HttpServer args w = Ok (g, sv_broker s, sv_world s)
        \<and> sv_chain s = rg_blockchain g)
     \<and> sv_polls s = (\<lambda>_. eth_filter_client_new pl) \<and> sv_pubsub s = (\<lambda>_. eth_pubsub_client_new hl ll xl)"

text \<open>
  Block numbers end at \<open>2^64 - 1\<close>: transactions are sent while at least two numbers are left.  A request
  that panics is a step too: it leaves behind what it changed before, also a poisoned lock.
\<close>

inductive service_step ::
  "'s chain_lib \<Rightarrow> conf_env \<Rightarrow> ('p, 'f) poll_lib \<Rightarrow> ('h, 'k) subs_lib \<Rightarrow> ('l, 'k \<times> log_filter) subs_lib
   \<Rightarrow> ('t, 'k \<times> 'x) subs_lib \<Rightarrow> ('p, 'h, 'l, 't) service \<Rightarrow> ('p, 'h, 'l, 't) service \<Rightarrow> bool"
  for lib :: "'s chain_lib" and cenv :: conf_env and pl :: "('p, 'f) poll_lib" and hl :: "('h, 'k) subs_lib"
    and ll :: "('l, 'k \<times> log_filter) subs_lib" and xl :: "('t, 'k \<times> 'x) subs_lib" where
  serve_send: "sv_best s < - 2 \<Longrightarrow>
     eth_send_raw_transaction lib io (sv_chain s) (sv_world s) raw = (r, bc', w') \<Longrightarrow>
     service_step lib cenv pl hl ll xl s (s\<lparr>sv_chain := bc', sv_world := w'\<rparr>)"
| serve_invoke: "sv_best s < - 2 \<Longrightarrow>
     oasis_invoke lib io (sv_chain s) (sv_world s) raw = (r', bc', w') \<Longrightarrow>
     service_step lib cenv pl hl ll xl s (s\<lparr>sv_chain := bc', sv_world := w'\<rparr>)"
| serve_public_key: "oasis_public_key cenv rnd (w_km (sv_world s)) c = (pk, km') \<Longrightarrow>
     service_step lib cenv pl hl ll xl s (s\<lparr>sv_world := (sv_world s)\<lparr>w_km := km'\<rparr>\<rparr>)"
| serve_new_filter: "new_filter pl (sv_chain s) (sv_polls s srv) f = Ok (i, p') \<Longrightarrow>
     service_step lib cenv pl hl ll xl s (s\<lparr>sv_polls := (sv_polls s)(srv := p')\<rparr>)"
| serve_new_block_filter: "new_block_filter lib pl (sv_chain s) (sv_polls s srv) = Ok (i, p') \<Longrightarrow>
     service_step lib cenv pl hl ll xl s (s\<lparr>sv_polls := (sv_polls s)(srv := p')\<rparr>)"
| serve_new_pending_filter: "new_pending_transaction_filter pl (sv_polls s srv) = (i, p') \<Longrightarrow>
     service_step lib cenv pl hl ll xl s (s\<lparr>sv_polls := (sv_polls s)(srv := p')\<rparr>)"
| serve_filter_changes: "filter_changes lib pl (sv_chain s) bc2 at (sv_polls s srv) i = (changes, p') \<Longrightarrow>
     service_step lib cenv pl hl ll xl s (s\<lparr>sv_polls := (sv_polls s)(srv := p')\<rparr>)"
| serve_filter_logs: "filter_logs lib pl (sv_chain s) at (sv_polls s srv) i = (ls, p') \<Longrightarrow>
     service_step lib cenv pl hl ll xl s (s\<lparr>sv_polls := (sv_polls s)(srv := p')\<rparr>)"
| serve_uninstall: "uninstall_filter pl (sv_polls s srv) i = (b, p') \<Longrightarrow>
     service_step lib cenv pl hl ll xl s (s\<lparr>sv_polls := (sv_polls s)(srv := p')\<rparr>)"
| serve_subscribe: "subscribe hl ll xl rid (sv_pubsub s srv) k kd ps = (rej, c') \<Longrightarrow>
     service_step lib cenv pl hl ll xl s (s\<lparr>sv_pubsub := (sv_pubsub s)(srv := c')\<rparr>)"
| serve_unsubscribe: "unsubscribe hl ll xl (sv_pubsub s srv) sid = (b, c') \<Longrightarrow>
     service_step lib cenv pl hl ll xl s (s\<lparr>sv_pubsub := (sv_pubsub s)(srv := c')\<rparr>)"
| serve_tick: "broker_tick alive (sv_chain s) (sv_broker s) = (Ok (evs, br') :: (_, string) outcome) \<Longrightarrow>
     service_step lib cenv pl hl ll xl s (s\<lparr>sv_broker := br'\<rparr>)"

section \<open>What the table of polls promises\<close>

text \<open>
  The table of polls holds at most what was put into it: an entry is returned as it was last written,
  and any access may drop entries that have timed out.  \<open>entries\<close> is the content of a table.
\<close>

definition poll_law :: "('p, 'f) poll_lib \<Rightarrow> ('p \<Rightarrow> nat \<rightharpoonup> 'f poll_filter) \<Rightarrow> bool" where
  "poll_law pl entries \<longleftrightarrow> entries (polls_new pl) = Map.empty
     \<and> (\<forall>p f i p'. create_poll pl p f = (i, p') \<longrightarrow> entries p' \<subseteq>\<^sub>m (entries p)(i \<mapsto> f))
     \<and> (\<forall>p i r p'. poll_get pl p i = (r, p') \<longrightarrow> entries p' \<subseteq>\<^sub>m entries p \<and> (\<forall>x. r = Some x \<longrightarrow> entries p i = Some x))
     \<and> (\<forall>p i r p'. poll_mut pl p i = (r, p') \<longrightarrow> entries p' \<subseteq>\<^sub>m entries p \<and> (\<forall>x. r = Some x \<longrightarrow> entries p i = Some x))
     \<and> (\<forall>p i x. entries (poll_write pl p i x) \<subseteq>\<^sub>m (entries p)(i \<mapsto> x))
     \<and> (\<forall>p i b p'. remove_poll pl p i = (b, p') \<longrightarrow> entries p' \<subseteq>\<^sub>m entries p)"

lemma poll_lawD:
  assumes "poll_law pl entries"
  shows "entries (polls_new pl) = Map.empty" "create_poll pl p f = (i, p') \<Longrightarrow> entries p' \<subseteq>\<^sub>m (entries p)(i \<mapsto> f)"
    "poll_get pl p i = (r, p') \<Longrightarrow> entries p' \<subseteq>\<^sub>m entries p"
    "poll_mut pl p i = (r, p') \<Longrightarrow> entries p' \<subseteq>\<^sub>m entries p" "poll_mut pl p i = (Some x, p') \<Longrightarrow> entries p i = Some x"
    "entries (poll_write pl p i x) \<subseteq>\<^sub>m (entries p)(i \<mapsto> x)" "remove_poll pl p i = (b, p') \<Longrightarrow> entries p' \<subseteq>\<^sub>m entries p"
  using assms unfolding poll_law_def by simp_all

lemma map_polls_law: "poll_law map_polls snd"
  by (auto simp: poll_law_def map_polls_def map_le_def)

section \<open>Cursors\<close>

fun cursor :: "'f poll_filter \<Rightarrow> u64" where
  "cursor (PfBlock n) = n"
| "cursor (PfPendingTransaction _) = 0"
| "cursor (PfLogs n _) = n"

definition cursors_ok :: "u64 \<Rightarrow> (nat \<rightharpoonup> 'f poll_filter) \<Rightarrow> bool" where
  "cursors_ok n m \<longleftrightarrow> (\<forall>x \<in> ran m. cursor x \<le> n + 1)"

lemma cursors_ok_mono: "cursors_ok n m \<Longrightarrow> m' \<subseteq>\<^sub>m m \<Longrightarrow> cursors_ok n m'"
  by (auto simp: cursors_ok_def ran_def dest: map_le_SomeD)

lemma cursors_ok_upd: "cursors_ok n m \<Longrightarrow> cursor x \<le> n + 1 \<Longrightarrow> m' \<subseteq>\<^sub>m m(i \<mapsto> x) \<Longrightarrow> cursors_ok n m'"
  by (rule cursors_ok_mono [of n "m(i \<mapsto> x)"]) (auto simp: cursors_ok_def ran_def)

lemma cursors_ok_grow: "cursors_ok n m \<Longrightarrow> n \<le> n' \<Longrightarrow> n' \<noteq> - 1 \<Longrightarrow> cursors_ok n' m"
  using successor_mono [of n n'] by (fastforce simp: cursors_ok_def)

lemma below_successor: "n \<noteq> - 1 \<Longrightarrow> n \<le> n + 1" for n :: u64
  using successor_number(1) by (rule less_imp_le)


section \<open>The invariant\<close>

definition service_inv ::
  "'s chain_lib \<Rightarrow> ('p \<Rightarrow> nat \<rightharpoonup> 'f poll_filter) \<Rightarrow> ('p, 'h, 'l, 't) service \<Rightarrow> bool" where
  "service_inv lib entries s \<longleftrightarrow> reachable (chain_start lib) (chain_step lib) (sv_chain s, sv_world s)
     \<and> sv_best s \<noteq> - 1 \<and> last_notified_block (sv_broker s) \<le> sv_best s
     \<and> (\<forall>srv. cursors_ok (sv_best s) (entries (sv_polls s srv)))"

text \<open>A submission, whatever becomes of it, is a step of the chain and leaves a block number free.\<close>

lemma submission_step:
  assumes "cs_block_number (bc_chain_state bc) < - 2" and "send_raw_transaction lib io bc w raw = (r, bc', w')"
  shows "chain_step lib (bc, w) (bc', w')" "cs_block_number (bc_chain_state bc') \<noteq> - 1"
proof -
  let ?n = "cs_block_number (bc_chain_state bc)"
  have n: "?n \<noteq> - 1" "?n + 1 \<noteq> - 1" using assms(1) by (auto simp: eq_diff_eq [symmetric])
  have room: "room lib (bc_chain_state bc)" using n by (simp add: room_def)
  show "chain_step lib (bc, w) (bc', w')" by (rule chain_step.step_send [OF room assms(2)])
  from assms(2) show "cs_block_number (bc_chain_state bc') \<noteq> - 1"
  proof (cases rule: send_raw_transaction_cases)
    case (admitted decoded txn)
    from admitted(5) show ?thesis
    proof (cases rule: mine_block_cases)
      case (mined b number ts ao)
      have "number = ?n + 1" using next_number_Ok(1) [OF room mined(3)] .
      with n mined_outcome_state [OF mined(4)] show ?thesis by auto
    qed (use n in auto)
  qed (use n in auto)
qed

text \<open>The parts of a step: the chain moves on, or one table of polls changes.\<close>

lemma service_inv_chain:
  assumes "service_inv lib entries s" and "chain_step lib (sv_chain s, sv_world s) (bc', w')"
    and "cs_block_number (bc_chain_state bc') \<noteq> - 1"
  shows "service_inv lib entries (s\<lparr>sv_chain := bc', sv_world := w'\<rparr>)"
proof -
  have r: "reachable (chain_start lib) (chain_step lib) (sv_chain s, sv_world s)" using assms(1) by (simp add: service_inv_def)
  have "sv_best s \<le> cs_block_number (bc_chain_state bc')"
    using cg.reachable_steps_grow [OF r r_into_rtranclp [of "chain_step lib", OF assms(2)]] by (simp add: chain_grows_def)
  then show ?thesis
    using assms reachable.reachable_step [OF r assms(2)] cursors_ok_grow
    by (auto simp: service_inv_def intro: order_trans)
qed

lemma service_inv_polls:
  "service_inv lib entries s \<Longrightarrow> cursors_ok (sv_best s) (entries p') \<Longrightarrow>
     service_inv lib entries (s\<lparr>sv_polls := (sv_polls s)(srv := p')\<rparr>)"
  by (simp add: service_inv_def)

lemma latest_number:
  assumes "service_inv lib entries s" and "get_latest_block (sv_chain s) = Ok blk"
  shows "number_u64 blk = sv_best s"
proof -
  have "reachable (chain_start lib) (chain_step lib) (sv_chain s, sv_world s)" using assms(1) by (simp add: service_inv_def)
  moreover have "get_latest_block (sv_chain s) = (Ok blk :: (ethereum_block, string) outcome)"
    using assms(2) by (cases "bc_poisoned (sv_chain s)"; cases "cs_get_block_by_number (bc_chain_state (sv_chain s)) (sv_best s)")
      (auto simp: get_latest_block_def read_state_def)
  ultimately show ?thesis by (rule latest_block_facts(2))
qed

lemma filter_changes_cursors:
  assumes "poll_law pl entries" and "service_inv lib entries s"
    and "filter_changes lib pl (sv_chain s) bc2 at (sv_polls s srv) i = (r, p')"
  shows "cursors_ok (sv_best s) (entries p')"
proof -
  have c: "cursors_ok (sv_best s) (entries (sv_polls s srv))" "sv_best s \<noteq> - 1" using assms(2) by (auto simp: service_inv_def)
  obtain q p1 where q: "poll_mut pl (sv_polls s srv) i = (q, p1)" by (metis surj_pair)
  note sub = poll_lawD(4) [OF assms(1) q]
  have ent: "entries (sv_polls s srv) i = Some x" if "q = Some x" for x
    using poll_lawD(5) [OF assms(1)] q that by blast
  have wr: "cursors_ok (sv_best s) (entries (poll_write pl p1 i x))" if "cursor x \<le> sv_best s + 1" for x
    by (rule cursors_ok_upd [OF cursors_ok_mono [OF c(1) sub] that poll_lawD(6) [OF assms(1)]])
  show ?thesis
  proof (cases "get_latest_block (sv_chain s) :: (ethereum_block, filter_error) outcome")
    case (Ok blk)
    have n: "number_u64 blk = sv_best s" using latest_number [OF assms(2) Ok] .
    have k: "number \<le> sv_best s + 1" if "q = Some (PfLogs number f)" for number f
      using c(1) ent [OF that] by (auto simp: cursors_ok_def ran_def)
    show ?thesis
      using assms(3) Ok q n k wr below_successor [OF c(2)] cursors_ok_mono [OF c(1) sub]
      by (auto simp: filter_changes_def block_filter_changes_def logs_filter_changes_def Let_def add_checked_def
          split: option.splits poll_filter.splits if_splits outcome.splits)
  qed (use assms(3) c in \<open>auto simp: filter_changes_def\<close>)
qed


lemma new_filter_cursors:
  assumes "poll_law pl entries" and "service_inv lib entries s"
  shows "new_filter pl (sv_chain s) (sv_polls s srv) f = Ok (i, p') \<Longrightarrow> cursors_ok (sv_best s) (entries p')"
    "new_block_filter lib pl (sv_chain s) (sv_polls s srv) = Ok (i, p') \<Longrightarrow> cursors_ok (sv_best s) (entries p')"
    "new_pending_transaction_filter pl (sv_polls s srv) = (i, p') \<Longrightarrow> cursors_ok (sv_best s) (entries p')"
proof -
  have c: "cursors_ok (sv_best s) (entries (sv_polls s srv))" "sv_best s \<noteq> - 1" using assms(2) by (auto simp: service_inv_def)
  have new: "cursors_ok (sv_best s) (entries p')" if "create_poll pl (sv_polls s srv) x = (i, p')" "cursor x \<le> sv_best s + 1" for x
    by (rule cursors_ok_upd [OF c(1) that(2) poll_lawD(2) [OF assms(1) that(1)]])
  have n: "number_u64 blk = sv_best s" if "get_latest_block (sv_chain s) = (Ok blk :: (ethereum_block, filter_error) outcome)" for blk
    using latest_number [OF assms(2) that] .
  show "new_filter pl (sv_chain s) (sv_polls s srv) f = Ok (i, p') \<Longrightarrow> cursors_ok (sv_best s) (entries p')"
    using new [of "PfLogs (sv_best s) f"] below_successor [OF c(2)] n
    by (cases "get_latest_block (sv_chain s) :: (ethereum_block, filter_error) outcome") (auto simp: new_filter_def)
  show "new_block_filter lib pl (sv_chain s) (sv_polls s srv) = Ok (i, p') \<Longrightarrow> cursors_ok (sv_best s) (entries p')"
    using new [of "PfBlock (sv_best s + 1)"] n
    by (cases "get_latest_block (sv_chain s) :: (ethereum_block, filter_error) outcome")
      (auto simp: new_block_filter_def add_checked_def split: if_splits)
  show "new_pending_transaction_filter pl (sv_polls s srv) = (i, p') \<Longrightarrow> cursors_ok (sv_best s) (entries p')"
    using new [of "PfPendingTransaction []"] by (simp add: new_pending_transaction_filter_def)
qed

lemma key_request_step:
  assumes "oasis_public_key cenv rnd (w_km w) c = (pk, km')"
  shows "chain_step lib (bc, w) (bc, w\<lparr>w_km := km'\<rparr>) \<or> km' = w_km w"
proof (cases "from_slice 32 (env_keccak cenv c) :: (byte_array, rpc_error) outcome")
  case (Ok cid)
  obtain q km1 where g: "get_public_key (env_lib cenv) rnd (w_km w) cid = (q, km1)" by (metis surj_pair)
  with assms Ok have "km' = km1" by (simp add: oasis_public_key_def)
  with chain_step.step_key_request [OF g, of lib bc] show ?thesis by simp
qed (use assms in \<open>simp_all add: oasis_public_key_def\<close>)

lemma sent_step:
  assumes "service_inv lib entries s" and "sv_best s < - 2"
    and "send_raw_transaction lib io (sv_chain s) (sv_world s) raw = (r, bc', w')"
  shows "service_inv lib entries (s\<lparr>sv_chain := bc', sv_world := w'\<rparr>)"
  by (rule service_inv_chain [OF assms(1) submission_step [OF assms(2,3)]])

lemma filter_read_cursors:
  assumes "poll_law pl entries" and "service_inv lib entries s"
  shows "filter_logs lib pl (sv_chain s) at (sv_polls s srv) i = (ls, p') \<Longrightarrow> cursors_ok (sv_best s) (entries p')"
    "uninstall_filter pl (sv_polls s srv) i = (b, p') \<Longrightarrow> cursors_ok (sv_best s) (entries p')"
proof -
  have "cursors_ok (sv_best s) (entries (sv_polls s srv))" using assms(2) by (simp add: service_inv_def)
  note held = cursors_ok_mono [OF this]
  show "filter_logs lib pl (sv_chain s) at (sv_polls s srv) i = (ls, p') \<Longrightarrow> cursors_ok (sv_best s) (entries p')"
    using held poll_lawD(3) [OF assms(1)] by (auto simp: filter_logs_def Let_def split: prod.splits option.splits poll_filter.splits)
  show "uninstall_filter pl (sv_polls s srv) i = (b, p') \<Longrightarrow> cursors_ok (sv_best s) (entries p')"
    using held poll_lawD(7) [OF assms(1)] by (auto simp: uninstall_filter_def)
qed

lemma service_inv_tick:
  assumes "service_inv lib entries s" and "broker_tick alive (sv_chain s) (sv_broker s) = (Ok (evs, br') :: (_, string) outcome)"
  shows "service_inv lib entries (s\<lparr>sv_broker := br'\<rparr>)"
proof -
  obtain blk where b: "get_latest_block (sv_chain s) = (Ok blk :: (ethereum_block, string) outcome)"
    "notify_difference alive (sv_broker s) (number_u64 blk) = (evs, br')"
    using assms(2) by (cases "get_latest_block (sv_chain s) :: (ethereum_block, string) outcome") (auto simp: broker_tick_def)
  with assms(1) latest_number [OF assms(1) b(1)] show ?thesis
    by (auto simp: service_inv_def notify_difference_def Let_def split: if_splits)
qed

lemma service_inv_step:
  assumes "poll_law pl entries" and "service_inv lib entries s" and "service_step lib cenv pl hl ll xl s t"
  shows "service_inv lib entries t"
proof -
  note polls = service_inv_polls [OF assms(2)]
  from assms(3) show ?thesis
  proof cases
    case (serve_send io raw r bc' w')
    then show ?thesis using sent_step [OF assms(2) serve_send(2)]
      by (auto simp: eth_send_raw_transaction_def split: prod.splits)
  next
    case (serve_invoke io raw r' bc' w')
    then show ?thesis using sent_step [OF assms(2) serve_invoke(2)]
      by (auto simp: oasis_invoke_def split: prod.splits)
  next
    case (serve_public_key rnd c pk km')
    from key_request_step [OF serve_public_key(2), of lib "sv_chain s"] show ?thesis
      unfolding serve_public_key(1)
      using service_inv_chain [OF assms(2), of "sv_chain s" "(sv_world s)\<lparr>w_km := km'\<rparr>"] assms(2)
      by (auto simp: service_inv_def)
  next
    case (serve_filter_logs at srv i ls p')
    then show ?thesis using polls [OF filter_read_cursors(1) [OF assms(1,2)]] by simp
  next
    case (serve_uninstall srv i b p')
    then show ?thesis using polls [OF filter_read_cursors(2) [OF assms(1,2)]] by simp
  next
    case (serve_new_filter srv f i p')
    then show ?thesis using polls [OF new_filter_cursors(1) [OF assms(1,2)]] by simp
  next
    case (serve_new_block_filter srv i p')
    then show ?thesis using polls [OF new_filter_cursors(2) [OF assms(1,2)]] by simp
  next
    case (serve_new_pending_filter srv i p')
    then show ?thesis using polls [OF new_filter_cursors(3) [OF assms(1,2)]] by simp
  next
    case (serve_filter_changes bc2 at srv i changes p')
    then show ?thesis using polls [OF filter_changes_cursors [OF assms(1,2)]] by simp
  next
    case (serve_tick alive evs br')
    then show ?thesis using service_inv_tick [OF assms(2)] by simp
  qed (use assms(2) in \<open>simp_all add: service_inv_def\<close>)
qed

lemma service_inv_start:
  assumes "poll_law pl entries" and "service_start lib env pl hl ll xl s"
  shows "service_inv lib entries s"
proof -
  obtain runtime new_interval args w g where
    g: "start lib env runtime new_interval WsServer HttpServer args w = Ok (g, sv_broker s, sv_world s)" "sv_chain s = rg_blockchain g"
    and l: "collision_free lib" "lists_apis env" and p: "sv_polls s = (\<lambda>_. eth_filter_client_new pl)"
    using assms(2) unfolding service_start_def by blast
  note ex = g(1) [unfolded start_def]
  have c: "chain_start lib (sv_chain s, sv_world s)" using execute_chain_start [OF l(1) ex] g(2) by simp
  have "sv_broker s = \<lparr>last_notified_block = 0, listeners = [WsServer, HttpServer]\<rparr>" by (rule execute_listeners [OF l(2) ex])
  moreover have "sv_best s = 0"
    using c by (auto simp: chain_start_def blockchain_new_def chain_state_new_def Let_def split: prod.splits outcome.splits)
  ultimately show ?thesis
    using reachable.reachable_start [of "chain_start lib", OF c] p poll_lawD(1) [OF assms(1)]
    by (simp add: service_inv_def eth_filter_client_new_def cursors_ok_def)
qed


interpretation sm: invariant_machine "service_start lib env pl hl ll xl" "service_step lib cenv pl hl ll xl"
    "\<lambda>s. poll_law pl entries \<longrightarrow> service_inv lib entries s" for lib env cenv pl hl ll xl entries
  by unfold_locales (blast intro: service_inv_start service_inv_step)+

section \<open>Reads\<close>

lemma later_states_trans:
  "(chain_step lib)\<^sup>*\<^sup>* (bc, w) (bc2, w2) \<Longrightarrow> later_states lib bc2 w2 at \<Longrightarrow> later_states lib bc w at"
  unfolding later_states_def by (meson rtranclp_trans)

lemma filter_changes_total:
  assumes "reachable (chain_start lib) (chain_step lib) (bc, w)" and "\<not> bc_poisoned bc"
    and "cs_block_number (bc_chain_state bc) \<noteq> - 1" and "(chain_step lib)\<^sup>*\<^sup>* (bc, w) (bc2, w2)"
    and "\<not> bc_poisoned bc2" and "later_states lib bc2 w2 at"
  shows "fst (filter_changes lib pl bc bc2 at p i) \<noteq> Panic"
proof -
  obtain blk where b: "get_latest_block bc = (Ok blk :: (ethereum_block, filter_error) outcome)"
    "number_u64 blk = cs_block_number (bc_chain_state bc)"
    using latest_block_number [of lib "(bc, w)"] assms(1,2) by auto
  have hashes: "try_map (\<lambda>n. fetch_hash (at n) n) (block_range lo (number_u64 blk)) \<noteq> Panic" for lo
    using fetch_hashes_ok [OF assms(1) later_states_trans [OF assms(4,6)], of "number_u64 blk" lo] b(2) by simp
  note r2 = reachable_steps [of "chain_step lib", OF assms(4,1)]
  have logs: "logs_between lib bc2 bc2 at flt \<noteq> Panic" for flt by (rule logs_between_total [OF r2 assms(5,6)])
  have add: "add_checked (chain_oc lib) (number_u64 blk) 1 = (Ok (cs_block_number (bc_chain_state bc) + 1) :: (u64, string) outcome)"
    by (rule number_added [OF assms(3) b(2)])
  obtain q p1 where "poll_mut pl p i = (q, p1)" by (metis surj_pair)
  then show ?thesis
    using b(1) add hashes logs
    by (auto simp: filter_changes_def block_filter_changes_def logs_filter_changes_def Let_def split: option.split poll_filter.split)
qed


text \<open>The tasks that a tick spawns.\<close>

lemma notify_blocks_total:
  assumes "reachable (chain_start lib) (chain_step lib) (bc, w)" and "\<not> bc_poisoned bc" and "later_states lib bc w at"
    and "hi \<le> cs_block_number (bc_chain_state bc)"
  shows "Panic \<notin> set (notify_blocks lib hl ll bc at c later lo hi)"
  using fetch_headers_ok [OF assms(1,3,4), of lo] logs_between_total [OF assms(1-3)]
  by (auto simp: notify_blocks_def notify_heads_def notify_logs_def notify_logs_task_def Let_def eq_commute [of Panic])

lemma broker_tick_total:
  assumes "service_inv lib entries s" and "\<not> bc_poisoned (sv_chain s)"
  shows "\<exists>evs br'. broker_tick alive (sv_chain s) (sv_broker s) = (Ok (evs, br') :: (_, string) outcome) \<and> (\<forall>(l, frm, to) \<in> set evs. to = sv_best s)"
proof -
  obtain blk where b: "get_latest_block (sv_chain s) = (Ok blk :: (ethereum_block, string) outcome)" "number_u64 blk = sv_best s"
    using latest_block_number [of lib "(sv_chain s, sv_world s)"] assms by (auto simp: service_inv_def)
  obtain evs br' where d: "notify_difference alive (sv_broker s) (sv_best s) = (evs, br')" by (metis surj_pair)
  then have "\<forall>(l, frm, to) \<in> set evs. to = sv_best s" by (auto simp: notify_difference_def Let_def split: if_splits)
  with b d show ?thesis by (simp add: broker_tick_def)
qed

lemma new_filter_total:
  assumes "service_inv lib entries s" and "\<not> bc_poisoned (sv_chain s)"
  shows "new_filter pl (sv_chain s) p f \<noteq> Panic" "new_block_filter lib pl (sv_chain s) p \<noteq> Panic"
proof -
  obtain blk where b: "get_latest_block (sv_chain s) = (Ok blk :: (ethereum_block, filter_error) outcome)" "number_u64 blk = sv_best s"
    using latest_block_number [of lib "(sv_chain s, sv_world s)"] assms by (auto simp: service_inv_def)
  have add: "add_checked (chain_oc lib) (number_u64 blk) 1 = (Ok (sv_best s + 1) :: (u64, filter_error) outcome)"
    using assms by (intro number_added b(2)) (simp add: service_inv_def)
  from b show "new_filter pl (sv_chain s) p f \<noteq> Panic" "new_block_filter lib pl (sv_chain s) p \<noteq> Panic"
    using add by (simp_all add: new_filter_def new_block_filter_def)
qed

lemma reachable_service_inv:
  assumes "poll_law pl entries" and "reachable (service_start lib env pl hl ll xl) (service_step lib cenv pl hl ll xl) s"
  shows "service_inv lib entries s" "reachable (chain_start lib) (chain_step lib) (sv_chain s, sv_world s)" "sv_best s \<noteq> - 1"
    "cursors_ok (sv_best s) (entries (sv_polls s srv))" "last_notified_block (sv_broker s) \<le> sv_best s"
proof -
  show inv: "service_inv lib entries s" using sm.reachable_inv [OF assms(2), of entries] assms(1) by blast
  then show "reachable (chain_start lib) (chain_step lib) (sv_chain s, sv_world s)" "sv_best s \<noteq> - 1"
    "cursors_ok (sv_best s) (entries (sv_polls s srv))" "last_notified_block (sv_broker s) \<le> sv_best s"
    by (simp_all add: service_inv_def)
qed

text \<open>The two ways to submit a transaction differ only in what they make of the result.\<close>

lemma submissions_panic_iff:
  assumes "reachable (chain_start lib) (chain_step lib) (bc, w)" and "\<not> bc_poisoned bc"
    and "cs_block_number (bc_chain_state bc) \<noteq> - 1" and "0 \<le> io_now io"
  shows "fst (eth_send_raw_transaction lib io bc w raw) = Panic \<longleftrightarrow> (\<exists>txn. admitted lib bc raw txn \<and> execution_fails lib io bc w txn)"
    "fst (oasis_invoke lib io bc w raw) = Panic \<longleftrightarrow> (\<exists>txn. admitted lib bc raw txn \<and> execution_fails lib io bc w txn)"
    "bc_poisoned (fst (snd (eth_send_raw_transaction lib io bc w raw))) \<longleftrightarrow> fst (eth_send_raw_transaction lib io bc w raw) = Panic"
    "bc_poisoned (fst (snd (oasis_invoke lib io bc w raw))) \<longleftrightarrow> fst (oasis_invoke lib io bc w raw) = Panic"
  using send_panics_iff [OF assms, of raw]
  by (simp_all add: eth_send_raw_transaction_def oasis_invoke_def case_prod_beta Let_def map_ok_eq_Panic_iff)

section \<open>Properties\<close>

text \<open>
  C5. Whatever requests and ticks came before, in any order, and as long as the lock of the chain is
  not poisoned, block numbers are left and the clock is not set before the epoch: the block, transaction, receipt, count and log queries, the request for a public key,
  the creation and polling of filters (also when blocks are mined while they read), a tick of the
  broker and the tasks that it spawns never panic.  The other handlers call the Ethereum library and
  panic exactly when that call fails: a submission when the execution of the transaction it admits
  does, and only then the lock is poisoned; a state query when opening or querying the state panics;
  a call and a gas estimate when signing or the simulation does, and a gas estimate also when used and
  refunded gas add up to \<open>2^256\<close> or more.
\<close>

theorem gateway_panics_only_in_library:
  assumes "poll_law pl entries" and "env_ok cenv"
    and "reachable (service_start lib env pl hl ll xl) (service_step lib cenv pl hl ll xl) s"
    and "\<not> bc_poisoned (sv_chain s)" and "0 \<le> io_now io"
    and "(chain_step lib)\<^sup>*\<^sup>* (sv_chain s, sv_world s) (bc2, w2)" and "\<not> bc_poisoned bc2" and "later_states lib bc2 w2 at"
  shows "eth_block_number (sv_chain s) \<noteq> Panic
    \<and> eth_block_by_number lib rl (sv_chain s) num inc \<noteq> Panic \<and> eth_block_by_hash lib rl (sv_chain s) h inc \<noteq> Panic
    \<and> eth_block_transaction_count_by_number (sv_chain s) num \<noteq> Panic \<and> eth_block_transaction_count_by_hash (sv_chain s) h \<noteq> Panic
    \<and> eth_transaction_by_hash rl (sv_chain s) h \<noteq> Panic
    \<and> eth_transaction_by_block_number_and_index rl (sv_chain s) num k \<noteq> Panic
    \<and> eth_transaction_by_block_hash_and_index rl (sv_chain s) h k \<noteq> Panic
    \<and> eth_transaction_receipt rl (sv_chain s) h \<noteq> Panic \<and> eth_logs lib rl (sv_chain s) flt \<noteq> Panic
    \<and> fst (oasis_public_key cenv rnd (w_km (sv_world s)) addr) \<noteq> Panic
    \<and> new_filter pl (sv_chain s) (sv_polls s srv) f \<noteq> Panic \<and> new_block_filter lib pl (sv_chain s) (sv_polls s srv) \<noteq> Panic
    \<and> fst (filter_changes lib pl (sv_chain s) bc2 at (sv_polls s srv) i) \<noteq> Panic
    \<and> fst (filter_logs lib pl bc2 at (sv_polls s srv) i) \<noteq> Panic
    \<and> (\<exists>evs br'. broker_tick alive (sv_chain s) (sv_broker s) = (Ok (evs, br') :: (_, string) outcome)
         \<and> (\<forall>(l, frm, to) \<in> set evs. Panic \<notin> set (notify_blocks lib hl ll bc2 at (sv_pubsub s l) later frm to)))
    \<and> (fst (eth_send_raw_transaction lib io (sv_chain s) (sv_world s) raw) = Panic
         \<longleftrightarrow> (\<exists>txn. admitted lib (sv_chain s) raw txn \<and> execution_fails lib io (sv_chain s) (sv_world s) txn))
    \<and> (fst (eth_submit_transaction lib io (sv_chain s) (sv_world s) raw) = Panic
         \<longleftrightarrow> (\<exists>txn. admitted lib (sv_chain s) raw txn \<and> execution_fails lib io (sv_chain s) (sv_world s) txn))
    \<and> (fst (oasis_invoke lib io (sv_chain s) (sv_world s) raw) = Panic
         \<longleftrightarrow> (\<exists>txn. admitted lib (sv_chain s) raw txn \<and> execution_fails lib io (sv_chain s) (sv_world s) txn))
    \<and> (bc_poisoned (fst (snd (eth_send_raw_transaction lib io (sv_chain s) (sv_world s) raw)))
         \<longleftrightarrow> fst (eth_send_raw_transaction lib io (sv_chain s) (sv_world s) raw) = Panic)
    \<and> (bc_poisoned (fst (snd (oasis_invoke lib io (sv_chain s) (sv_world s) raw)))
         \<longleftrightarrow> fst (oasis_invoke lib io (sv_chain s) (sv_world s) raw) = Panic)
    \<and> (eth_balance lib rl (sv_world s) (sv_chain s) addr bn = Panic
         \<longleftrightarrow> query_fails lib (sv_chain s) (sv_world s) (\<lambda>st. st_balance rl st (sv_world s) addr))
    \<and> (eth_storage_at lib rl (sv_world s) (sv_chain s) addr pos bn = Panic
         \<longleftrightarrow> query_fails lib (sv_chain s) (sv_world s) (\<lambda>st. st_storage_at rl st (sv_world s) addr (u256_into_h256 rl pos)))
    \<and> (eth_transaction_count lib rl (sv_world s) (sv_chain s) addr bn = Panic
         \<longleftrightarrow> query_fails lib (sv_chain s) (sv_world s) (\<lambda>st. st_nonce rl st (sv_world s) addr))
    \<and> (eth_code_at lib rl (sv_world s) (sv_chain s) addr bn = Panic
         \<longleftrightarrow> query_fails lib (sv_chain s) (sv_world s) (\<lambda>st. st_code rl st (sv_world s) addr))
    \<and> (oasis_get_expiry lib rl (sv_world s) (sv_chain s) addr bn = Panic
         \<longleftrightarrow> query_fails lib (sv_chain s) (sv_world s) (\<lambda>st. st_storage_expiry rl st (sv_world s) addr))
    \<and> (eth_call lib rl io (sv_chain s) (sv_world s) dapp q bn = Panic
         \<longleftrightarrow> (case sign_call rl q dapp of
               Ok txn \<Rightarrow> simulation_fails lib io (sv_chain s) (sv_world s) txn | Err _ \<Rightarrow> False | Panic \<Rightarrow> True))
    \<and> (eth_estimate_gas lib rl io (sv_chain s) (sv_world s) dapp q bn = Panic
         \<longleftrightarrow> (case sign_call rl q dapp of
               Ok txn \<Rightarrow> simulation_fails lib io (sv_chain s) (sv_world s) txn
                 \<or> (\<exists>ex. simulate_transaction lib io (sv_chain s) (sv_world s) txn (block_number_to_id (unwrap_or_default rl bn)) = Ok ex
                      \<and> 2 ^ 256 \<le> unat (ex_gas_used ex) + unat (ex_refunded ex))
             | Err _ \<Rightarrow> False | Panic \<Rightarrow> True))"
proof -
  note r = reachable_service_inv [OF assms(1,3)]
  note r2 = reachable_steps [of "chain_step lib", OF assms(6) r(2)]
  have le: "sv_best s \<le> cs_block_number (bc_chain_state bc2)"
    using cg.reachable_steps_grow [OF r(2) assms(6)] by (simp add: chain_grows_def)
  obtain evs br' where t: "broker_tick alive (sv_chain s) (sv_broker s) = (Ok (evs, br') :: (_, string) outcome)"
    "\<forall>(l, frm, to) \<in> set evs. to = sv_best s" using broker_tick_total [OF r(1) assms(4)] by blast
  have tick: "\<forall>(l, frm, to) \<in> set evs. Panic \<notin> set (notify_blocks lib hl ll bc2 at (sv_pubsub s l) later frm to)"
    using t(2) notify_blocks_total [OF r2 assms(7,8) le] by fast
  have logs: "fst (filter_logs lib pl bc2 at (sv_polls s srv) i) \<noteq> Panic"
    using logs_between_total [OF r2 assms(7,8)]
    by (auto simp: filter_logs_def Let_def split: prod.split option.split poll_filter.split)
  note simps = eth_reads_total [OF r(2) assms(4)] public_key_total [OF assms(2)] new_filter_total [OF r(1) assms(4)]
    filter_changes_total [OF r(2) assms(4) r(3) assms(6-8)] submissions_panic_iff [OF r(2) assms(4) r(3) assms(5)]
    state_queries_panic_iff [OF assms(4)] calls_panic_iff [OF r(2) assms(4) r(3) assms(5)]
  show ?thesis
    unfolding eth_submit_transaction_def using t(1) tick logs by (simp only: simps simp_thms not_False_eq_True) blast
qed

text \<open>
  C16. Whatever happened before, a poll of any filter, through the table of polls and with the chain
  read twice (the latest block in one state and the logs in the same or any later one), is answered as
  follows.  A logs filter gets the matching logs of all blocks from the one it stores to the one that
  is the latest when the query runs, cut to the limit of the filter, and an error if there is no such
  block; it stores the successor of the block that was the latest when the poll began.  A block
  filter gets the hashes of all blocks from the one it stores to the latest one, and stores the
  latter.  A pending filter gets nothing and an unknown one an error.  No entry of either table is
  ahead of the chain by more than one block, and the broker is not ahead at all.
\<close>

theorem gateway_polls_are_complete:
  assumes "poll_law pl entries"
    and "reachable (service_start lib env pl hl ll xl) (service_step lib cenv pl hl ll xl) s"
    and "\<not> bc_poisoned (sv_chain s)" and "poll_mut pl (sv_polls s srv) i = (entry_found, p1)"
    and "(chain_step lib)\<^sup>*\<^sup>* (sv_chain s, sv_world s) (bc2, w2)" and "\<not> bc_poisoned bc2" and "later_states lib bc2 w2 at"
  shows "filter_changes lib pl (sv_chain s) bc2 at (sv_polls s srv) i =
      (case entry_found of
         None \<Rightarrow> (Err FilterNotFound, p1)
       | Some (PfBlock number) \<Rightarrow>
           (Ok (HashesC (map block_hash (chain_slice (bc_chain_state (sv_chain s)) number (sv_best s)))),
            poll_write pl p1 i (PfBlock (sv_best s)))
       | Some (PfPendingTransaction _) \<Rightarrow> (Ok (HashesC []), p1)
       | Some (PfLogs number f) \<Rightarrow>
           (if number \<le> cs_block_number (bc_chain_state bc2)
            then Ok (LogsC (limit_logs pl (filter (\<lambda>l. filter_matches lib (ranged_filter pl f number) (entry l))
                (concat (map eb_logs (chain_slice (bc_chain_state bc2) number (cs_block_number (bc_chain_state bc2))))))
                (f_limit (filter_into pl f))))
            else Err (Internal (jsonrpc_error ''block not found'')),
            poll_write pl p1 i (PfLogs (sv_best s + 1) f)))
    \<and> (\<forall>srv' j x. entries (sv_polls s srv') j = Some x \<longrightarrow> cursor x \<le> sv_best s + 1)
    \<and> last_notified_block (sv_broker s) \<le> sv_best s"
proof -
  note r = reachable_service_inv [OF assms(1,2)]
  note r2 = reachable_steps [of "chain_step lib", OF assms(5) r(2)]
  have cur: "\<forall>srv' j x. entries (sv_polls s srv') j = Some x \<longrightarrow> cursor x \<le> sv_best s + 1"
    using r(4) by (auto simp: cursors_ok_def ran_def)
  obtain blk where b: "get_latest_block (sv_chain s) = (Ok blk :: (ethereum_block, filter_error) outcome)" "number_u64 blk = sv_best s"
    using latest_block_number [of lib "(sv_chain s, sv_world s)"] r(2) assms(3) by auto
  have hashes: "try_map (\<lambda>n. fetch_hash (at n) n) (block_range lo (number_u64 blk)) =
      Ok (map block_hash (chain_slice (bc_chain_state (sv_chain s)) lo (sv_best s)))" for lo
    using fetch_hashes_ok [OF r(2) later_states_trans [OF assms(5,7)], of "sv_best s" lo] b(2) by simp
  note logs = logs_filter_answer [OF r2 assms(6,7) number_added [OF r(3) b(2)]]
  show ?thesis
    using b assms(4) hashes cur r(5)
    by (auto simp: filter_changes_def block_filter_changes_def logs split: option.split poll_filter.split)
qed

section \<open>A concrete gateway\<close>

definition sample_service ::
  "(nat \<times> (nat \<rightharpoonup> log_filter poll_filter), nat list, (nat \<times> log_filter) list, (nat \<times> nat) list) service" where
  "sample_service =
     \<lparr>sv_chain = fst (sample_node []), sv_world = snd (sample_node []),
      sv_broker = \<lparr>last_notified_block = 0, listeners = [WsServer, HttpServer]\<rparr>,
      sv_polls = (\<lambda>_. polls_new map_polls), sv_pubsub = (\<lambda>_. eth_pubsub_client_new list_subs list_subs list_subs)\<rparr>"

lemma sample_service_start: "service_start sample_chain local_rpc_env map_polls list_subs list_subs list_subs sample_service"
proof -
  have "start sample_chain local_rpc_env (Ok ()) (\<lambda>_. Ok ()) WsServer HttpServer sample_args sample_world =
      Ok (sample_gateway, sv_broker sample_service, sv_world sample_service)"
    unfolding start_def by (subst sample_execute_lib) (simp_all add: sample_node_start(6) sample_service_def)
  then have "\<exists>runtime new_interval args w g. start sample_chain local_rpc_env runtime new_interval WsServer HttpServer args w =
        Ok (g, sv_broker sample_service, sv_world sample_service) \<and> sv_chain sample_service = rg_blockchain g"
    by (intro exI conjI) (assumption, simp add: sample_service_def sample_gateway_def)
  then show ?thesis
    unfolding service_start_def using sample_chain_collision_free sample_lists_apis
    by (simp add: sample_service_def eth_filter_client_new_def)
qed

text \<open>After a client has created a logs filter on the WebSocket server.\<close>

definition filter_service ::
  "(nat \<times> (nat \<rightharpoonup> log_filter poll_filter), nat list, (nat \<times> log_filter) list, (nat \<times> nat) list) service" where
  "filter_service = sample_service\<lparr>sv_polls := (sv_polls sample_service)(WsServer := (1, [0 \<mapsto> PfLogs 0 all_logs]))\<rparr>"

lemma filter_service_reachable:
  "reachable (service_start sample_chain local_rpc_env map_polls list_subs list_subs list_subs)
     (service_step sample_chain sample_env map_polls list_subs list_subs list_subs) filter_service"
proof -
  obtain blk where "get_latest_block (fst (sample_node [])) = (Ok blk :: (ethereum_block, filter_error) outcome)" "number_u64 blk = 0"
    using latest_block_number [OF sample_node_reachable, of "[]"] sample_node_start(2,5) by auto
  then have "new_filter map_polls (sv_chain sample_service) (sv_polls sample_service WsServer) all_logs =
      Ok (0, (1, [0 \<mapsto> PfLogs 0 all_logs]))"
    by (simp add: new_filter_def sample_service_def map_polls_def)
  then have "service_step sample_chain sample_env map_polls list_subs list_subs list_subs sample_service filter_service"
    unfolding filter_service_def by (rule service_step.serve_new_filter)
  with sample_service_start show ?thesis by (blast intro: reachable.intros)
qed

lemma filter_service_chain:
  "sv_chain filter_service = fst (sample_node [])" "sv_world filter_service = snd (sample_node [])"
  "sv_polls filter_service WsServer = (1, [0 \<mapsto> PfLogs 0 all_logs])" "\<not> bc_poisoned (sv_chain filter_service)"
  using sample_node_start(2) by (simp_all add: filter_service_def sample_service_def)

text \<open>The transaction that the concrete node mines does not fail, and the filter can be polled while it does.\<close>

theorem gateway_panics_only_in_library_witness:
  "\<exists>bc'. cs_block_number (bc_chain_state bc') = 1
   \<and> fst (filter_changes sample_chain map_polls (fst (sample_node [])) bc' (\<lambda>_. bc') (1, [0 \<mapsto> PfLogs 0 all_logs]) 0) \<noteq> Panic
   \<and> \<not> (\<exists>txn. admitted sample_chain (fst (sample_node [])) [1] txn
          \<and> execution_fails sample_chain sample_io (fst (sample_node [])) (snd (sample_node [])) txn)"
proof -
  let ?s = filter_service
  obtain bc' where c: "(chain_step sample_chain)\<^sup>*\<^sup>* (sv_chain ?s, sv_world ?s) (bc', snd (sample_node []))"
    and n: "\<not> bc_poisoned bc'" "cs_block_number (bc_chain_state bc') = 1"
    using sample_successor by (auto simp: filter_service_chain)
  have l: "later_states sample_chain bc' (snd (sample_node [])) (\<lambda>_. bc')" unfolding later_states_def using n(1) by blast
  have io: "0 \<le> io_now sample_io" by (simp add: sample_io_def)
  note safe = gateway_panics_only_in_library [where srv = WsServer and i = 0 and raw = "[1]" and rl = sample_rpc,
      OF map_polls_law sample_env_ok filter_service_reachable filter_service_chain(4) io c n(1) l]
  obtain res bc1 where "send_raw_transaction sample_chain sample_io (fst (sample_node [])) (snd (sample_node [])) [1] =
      (Ok ([1], res), bc1, snd (sample_node []))" using sample_mine [of "[1]"] by auto
  then have "fst (eth_send_raw_transaction sample_chain sample_io (fst (sample_node [])) (snd (sample_node [])) [1]) \<noteq> Panic"
    by (simp add: eth_send_raw_transaction_def)
  moreover have "fst (filter_changes sample_chain map_polls (sv_chain ?s) bc' (\<lambda>_. bc') (sv_polls ?s WsServer) 0) \<noteq> Panic"
    using safe by blast
  moreover have "fst (eth_send_raw_transaction sample_chain sample_io (sv_chain ?s) (sv_world ?s) [1]) = Panic
      \<longleftrightarrow> (\<exists>txn. admitted sample_chain (sv_chain ?s) [1] txn \<and> execution_fails sample_chain sample_io (sv_chain ?s) (sv_world ?s) txn)"
    using safe by blast
  ultimately show ?thesis unfolding filter_service_chain using n(2) by blast
qed

text \<open>The filter is polled while a block with one log entry is mined: the log is in the answer.\<close>

theorem gateway_polls_are_complete_witness:
  "\<exists>bc' b log ls. cs_get_block_by_number (bc_chain_state bc') 1 = Some b \<and> eb_logs b = [log] \<and> log \<in> set ls
   \<and> filter_changes sample_chain map_polls (fst (sample_node [])) bc' (\<lambda>_. bc') (1, [0 \<mapsto> PfLogs 0 all_logs]) 0
      = (Ok (LogsC ls), (1, [0 \<mapsto> PfLogs 1 all_logs]))"
proof -
  let ?s = filter_service
  obtain bc' b where c: "(chain_step sample_chain)\<^sup>*\<^sup>* (sv_chain ?s, sv_world ?s) (bc', snd (sample_node []))"
    and n: "\<not> bc_poisoned bc'" "cs_block_number (bc_chain_state bc') = 1"
    and b: "cs_get_block_by_number (bc_chain_state bc') 1 = Some b" "length (eb_logs b) = 1"
    using sample_successor by (auto simp: filter_service_chain)
  have l: "later_states sample_chain bc' (snd (sample_node [])) (\<lambda>_. bc')" unfolding later_states_def using n(1) by blast
  obtain log where log: "eb_logs b = [log]" using b(2) by (metis length_0_conv length_Suc_conv One_nat_def)
  have m: "poll_mut map_polls (sv_polls ?s WsServer) 0 = (Some (PfLogs 0 all_logs), (1, [0 \<mapsto> PfLogs 0 all_logs]))"
    by (simp add: filter_service_chain map_polls_def)
  have "b \<in> set (chain_slice (bc_chain_state bc') 0 1)"
    using n(2) b(1) chain_slice_eq [of 1 "bc_chain_state bc'" 0] by (force simp: set_block_range)
  then have "log \<in> set (concat (map eb_logs (chain_slice (bc_chain_state bc') 0 1)))" using log by force
  with gateway_polls_are_complete [OF map_polls_law filter_service_reachable filter_service_chain(4) m c n(1) l] log b(1) n(2)
  show ?thesis
    by (intro exI conjI) (assumption | simp add: filter_service_chain map_polls_def sample_node_start(5))+
qed

end
