(* ===== verification/Cli.thy ===== *)
theory Cli
  imports Run
begin

text \<open>
  \<open>bin/main.rs\<close>: the command line and the life of the program.  The argument parser is third-party
  code; what it yields is a map from the names of the arguments given to their values.  Numbers are
  read by \<open>str::parse\<close>.
\<close>

section \<open>Reading numbers\<close>

definition is_digit :: "char \<Rightarrow> bool" where
  "is_digit c \<longleftrightarrow> 48 \<le> (of_char c :: nat) \<and> (of_char c :: nat) \<le> 57"

text \<open>The digits from the left, with the multiplication and the addition checked against the maximum.\<close>

fun parse_digits :: "nat \<Rightarrow> nat \<Rightarrow> string \<Rightarrow> nat option" where
  "parse_digits mx acc [] = Some acc"
| "parse_digits mx acc (c # cs) =
     (if is_digit c \<and> acc * 10 + char_digit c \<le> mx then parse_digits mx (acc * 10 + char_digit c) cs else None)"

fun parse_uint :: "nat \<Rightarrow> string \<Rightarrow> nat option" where
  "parse_uint mx [] = None"
| "parse_uint mx (c # cs) =
     (if c = CHR ''+'' then (if cs = [] then None else parse_digits mx 0 cs) else parse_digits mx 0 (c # cs))"

section \<open>The arguments\<close>

definition arg_defaults :: "(string \<times> string) list" where
  "arg_defaults =
     [(''http-port'', ''8545''), (''threads'', ''1''), (''ws-port'', ''8546''), (''ws-max-connections'', ''10000''),
      (''pubsub-interval'', ''1''), (''gas-price'', dec_string MIN_GAS_PRICE_GWEI),
      (''block-gas-limit'', dec_string BLOCK_GAS_LIMIT), (''interface'', ''127.0.0.1'')]"

text \<open>\<open>value_t!\<close>: the value given or the default, parsed; the error is known by the argument's name.\<close>

definition value_t :: "(string \<rightharpoonup> string) \<Rightarrow> (string \<Rightarrow> 'a option) \<Rightarrow> string \<Rightarrow> ('a, string) outcome" where
  "value_t given parse name =
     ok_or name (Option.bind (case given name of Some v \<Rightarrow> Some v | None \<Rightarrow> map_of arg_defaults name) parse)"

definition read_args :: "(string \<rightharpoonup> string) \<Rightarrow> (gateway_args, string) outcome" where
  "read_args given =
     and_then (value_t given (parse_uint (2 ^ 64 - 1)) ''threads'') (\<lambda>num_threads.
     and_then (value_t given Some ''interface'') (\<lambda>iface.
     and_then (value_t given (parse_uint (2 ^ 16 - 1)) ''http-port'') (\<lambda>http_port.
     and_then (value_t given (parse_uint (2 ^ 16 - 1)) ''ws-port'') (\<lambda>ws_port.
     and_then (value_t given (parse_uint (2 ^ 64 - 1)) ''ws-max-connections'') (\<lambda>ws_max_connections.
     and_then (value_t given (parse_uint (2 ^ 64 - 1)) ''pubsub-interval'') (\<lambda>pubsub_interval_secs.
     and_then (value_t given (parse_uint (2 ^ 64 - 1)) ''gas-price'') (\<lambda>gas_price.
     and_then (value_t given (parse_uint (2 ^ 64 - 1)) ''block-gas-limit'') (\<lambda>block_gas_limit.
       Ok \<lparr>ga_pubsub_interval_secs = of_nat pubsub_interval_secs, ga_interface = iface,
           ga_http_port = of_nat http_port, ga_num_threads = num_threads, ga_ws_port = of_nat ws_port,
           ga_ws_max_connections = ws_max_connections, ga_gas_price = gwei_to_wei (of_nat gas_price),
           ga_block_gas_limit = of_nat block_gas_limit\<rparr>))))))))"

datatype log_level = Info | Debug | Trace

definition log_level_of :: "nat \<Rightarrow> log_level" where
  "log_level_of occurrences = (if occurrences = 0 then Info else if occurrences = 1 then Debug else Trace)"

text \<open>
  The program: a failure to start is logged and ends it with success.  \<open>signal\<close> is the result of
  registering for and waiting for a signal.
\<close>

datatype 'x main_exit = InvalidArgument string | NotStarted string | SignalError string | Stopped 'x | Panicked

definition main_program ::
  "((gateway_args \<Rightarrow> ('srv running_gateway \<times> 'l broker \<times> world, string) outcome)) \<Rightarrow> (unit, string) outcome
   \<Rightarrow> (nat \<Rightarrow> nat) \<Rightarrow> (nat \<Rightarrow> bool) \<Rightarrow> (nat \<Rightarrow> nat) \<Rightarrow> (string \<rightharpoonup> string)
   \<Rightarrow> ('srv released list \<times> (string list \<times> nat) option) main_exit" where
  "main_program start_gateway signal check dropped check2 given =
     (case read_args given of
        Err name \<Rightarrow> InvalidArgument name
      | Panic \<Rightarrow> Panicked
      | Ok args \<Rightarrow>
          (case start_gateway args of
             Err err \<Rightarrow> NotStarted err
           | Panic \<Rightarrow> Panicked
           | Ok (client, _, _) \<Rightarrow>
               (case signal of
                  Err err \<Rightarrow> SignalError err
                | Panic \<Rightarrow> Panicked
                | Ok _ \<Rightarrow> Stopped (shutdown client check dropped check2))))"

section \<open>Numbers are read back\<close>

lemma is_digit_digit_char: "d < 10 \<Longrightarrow> is_digit (digit_char d)"
  by (simp add: is_digit_def digit_char_def)

lemma parse_digits_snoc:
  "parse_digits mx acc (cs @ [c]) = (case parse_digits mx acc cs of None \<Rightarrow> None | Some v \<Rightarrow> parse_digits mx v [c])"
  by (induction cs arbitrary: acc) simp_all

lemma parse_digits_dec:
  "parse_digits mx 0 (radix_string 10 n) = (if n \<le> mx then Some n else None)"
proof (induction n rule: less_induct)
  case (less n)
  show ?case
  proof (cases "n < 10")
    case True
    then show ?thesis by (subst radix_string.simps) (simp add: is_digit_digit_char char_digit_digit_char)
  next
    case False
    then have "n div 10 < n" by simp
    note IH = less.IH [OF this]
    have d: "is_digit (digit_char (n mod 10))" "char_digit (digit_char (n mod 10)) = n mod 10"
      by (simp_all add: is_digit_digit_char char_digit_digit_char)
    have "n div 10 * 10 + n mod 10 = n" by simp
    moreover have "n div 10 \<le> n" by simp
    ultimately show ?thesis using False IH d
      by (subst radix_string.simps) (auto simp: parse_digits_snoc)
  qed
qed

lemma radix_string_head: "\<exists>d cs. d < 10 \<and> radix_string 10 n = digit_char d # cs"
proof (induction n rule: less_induct)
  case (less n)
  show ?case
  proof (cases "n < 10")
    case True
    then show ?thesis by (subst radix_string.simps) auto
  next
    case False
    then have "n div 10 < n" by simp
    with less.IH [of "n div 10"] False show ?thesis by (subst radix_string.simps) auto
  qed
qed

lemma parse_uint_dec: "parse_uint mx (dec_string n) = (if n \<le> mx then Some n else None)"
proof -
  obtain d cs where d: "d < 10" "radix_string 10 n = digit_char d # cs" using radix_string_head by blast
  then have "digit_char d \<noteq> CHR ''+''" using is_digit_digit_char [of d] by (auto simp: is_digit_def)
  with d show ?thesis using parse_digits_dec [of mx n] by (simp add: dec_string_def)
qed

section \<open>Properties\<close>

text \<open>The command line that spells out given settings.\<close>

definition print_args :: "gateway_args \<Rightarrow> u64 \<Rightarrow> string \<rightharpoonup> string" where
  "print_args a gwei =
     [''threads'' \<mapsto> dec_string (ga_num_threads a), ''interface'' \<mapsto> ga_interface a,
      ''http-port'' \<mapsto> dec_string (unat (ga_http_port a)), ''ws-port'' \<mapsto> dec_string (unat (ga_ws_port a)),
      ''ws-max-connections'' \<mapsto> dec_string (ga_ws_max_connections a),
      ''pubsub-interval'' \<mapsto> dec_string (unat (ga_pubsub_interval_secs a)),
      ''gas-price'' \<mapsto> dec_string (unat gwei), ''block-gas-limit'' \<mapsto> dec_string (unat (ga_block_gas_limit a))]"

lemma value_t_printed:
  "given name = Some (dec_string n) \<Longrightarrow> value_t given (parse_uint mx) name = (if n \<le> mx then Ok n else Err name)"
  by (simp add: value_t_def parse_uint_dec)

lemma unat_word_max: "unat (x :: 'a::len word) \<le> 2 ^ LENGTH('a) - 1"
  using unsigned_less [of x, where ?'a = nat] by linarith

lemma value_t_default:
  "value_t Map.empty (parse_uint (2 ^ 64 - 1)) ''threads'' = Ok 1"
  "value_t Map.empty Some ''interface'' = Ok ''127.0.0.1''"
  "value_t Map.empty (parse_uint (2 ^ 16 - 1)) ''http-port'' = Ok 8545"
  "value_t Map.empty (parse_uint (2 ^ 16 - 1)) ''ws-port'' = Ok 8546"
  "value_t Map.empty (parse_uint (2 ^ 64 - 1)) ''ws-max-connections'' = Ok 10000"
  "value_t Map.empty (parse_uint (2 ^ 64 - 1)) ''pubsub-interval'' = Ok 1"
  "value_t Map.empty (parse_uint (2 ^ 64 - 1)) ''gas-price'' = Ok 1"
  "value_t Map.empty (parse_uint (2 ^ 64 - 1)) ''block-gas-limit'' = Ok 16000000"
  by (simp_all add: value_t_def arg_defaults_def parse_uint_dec is_digit_def char_digit_def
      MIN_GAS_PRICE_GWEI_def BLOCK_GAS_LIMIT_def)

lemma one_gwei: "gwei_to_wei 1 = 10 ^ 9"
  by (simp add: gwei_to_wei_def saturating_mul_def)

lemma read_args_default:
  "read_args Map.empty = Ok \<lparr>ga_pubsub_interval_secs = 1, ga_interface = ''127.0.0.1'', ga_http_port = 8545,
        ga_num_threads = 1, ga_ws_port = 8546, ga_ws_max_connections = 10000, ga_gas_price = 10 ^ 9,
        ga_block_gas_limit = 16000000\<rparr>"
  unfolding read_args_def value_t_default and_then.simps by (simp add: one_gwei)

text \<open>
  C33. The command line is read back: every setting that is printed in decimal is read as that
  setting, with the gas price converted from gwei; the settings of 64 bits are not cut, and without
  any argument the program runs with the default ports, one thread, ten thousand connections, a
  notification every second, a price of one gwei and the block gas limit of the chain.
\<close>

theorem command_line_round_trip:
  assumes "ga_num_threads a < 2 ^ 64" and "ga_ws_max_connections a < 2 ^ 64" and "unat (ga_block_gas_limit a) < 2 ^ 64"
  shows "read_args (print_args a gwei) = Ok (a\<lparr>ga_gas_price := gwei_to_wei gwei\<rparr>)
    \<and> read_args Map.empty = Ok \<lparr>ga_pubsub_interval_secs = 1, ga_interface = ''127.0.0.1'', ga_http_port = 8545,
        ga_num_threads = 1, ga_ws_port = 8546, ga_ws_max_connections = 10000, ga_gas_price = 10 ^ 9,
        ga_block_gas_limit = 16000000\<rparr>"
proof
  have p: "unat (ga_http_port a) \<le> 2 ^ 16 - 1" "unat (ga_ws_port a) \<le> 2 ^ 16 - 1"
    "unat (ga_pubsub_interval_secs a) \<le> 2 ^ 64 - 1" "unat gwei \<le> 2 ^ 64 - 1"
    using unat_word_max [of "ga_http_port a"] unat_word_max [of "ga_ws_port a"]
      unat_word_max [of "ga_pubsub_interval_secs a"] unat_word_max [of gwei] by simp_all
  show "read_args (print_args a gwei) = Ok (a\<lparr>ga_gas_price := gwei_to_wei gwei\<rparr>)"
    using assms p by (simp add: read_args_def value_t_printed print_args_def value_t_def [of _ Some])
qed (rule read_args_default)

theorem command_line_round_trip_witness:
  "let a = \<lparr>ga_pubsub_interval_secs = 7, ga_interface = ''0.0.0.0'', ga_http_port = 65535, ga_num_threads = 4,
            ga_ws_port = 1, ga_ws_max_connections = 0, ga_gas_price = 0, ga_block_gas_limit = 42\<rparr>
   in read_args (print_args a 3) = Ok (a\<lparr>ga_gas_price := gwei_to_wei 3\<rparr>)"
  using command_line_round_trip [of "\<lparr>ga_pubsub_interval_secs = 7, ga_interface = ''0.0.0.0'', ga_http_port = 65535,
      ga_num_threads = 4, ga_ws_port = 1, ga_ws_max_connections = 0, ga_gas_price = 0, ga_block_gas_limit = 42\<rparr>" 3]
  by (simp add: Let_def)

end
