(* ===== verification/Null_Backend.thy ===== *)
theory Null_Backend
  imports Rust_Prelude
begin

text \<open>
  \<open>src/parity.rs\<close>: the state backend that stores nothing.  Its data is the unit type; accounts, of
  type \<open>'acc\<close>, belong to the Ethereum library.
\<close>

datatype null_backend = NullBackend

definition as_hashdb :: "null_backend \<Rightarrow> ('db, 'e) outcome" where
  "as_hashdb _ = Panic"

definition as_hashdb_mut :: "null_backend \<Rightarrow> ('db, 'e) outcome" where
  "as_hashdb_mut _ = Panic"

definition add_to_account_cache :: "null_backend \<Rightarrow> bytes \<Rightarrow> 'acc option \<Rightarrow> bool \<Rightarrow> null_backend" where
  "add_to_account_cache b _ _ _ = b"

definition cache_code :: "null_backend \<Rightarrow> bytes \<Rightarrow> bytes \<Rightarrow> null_backend" where
  "cache_code b _ _ = b"

definition get_cached_account :: "null_backend \<Rightarrow> bytes \<Rightarrow> 'acc option option" where
  "get_cached_account _ _ = None"

text \<open>The closure is not called.\<close>

definition get_cached :: "null_backend \<Rightarrow> bytes \<Rightarrow> ('acc option \<Rightarrow> 'u) \<Rightarrow> 'u option" where
  "get_cached _ _ _ = None"

definition get_cached_code :: "null_backend \<Rightarrow> bytes \<Rightarrow> bytes option" where
  "get_cached_code _ _ = None"

definition note_non_null_account :: "null_backend \<Rightarrow> bytes \<Rightarrow> null_backend" where
  "note_non_null_account b _ = b"

definition is_known_null :: "null_backend \<Rightarrow> bytes \<Rightarrow> bool" where
  "is_known_null _ _ = False"

end
