(* ===== verification/Unit_Tests.thy ===== *)
theory Unit_Tests
  imports Confidential_Sessions Rpc
begin

text \<open>
  The unit tests of the repository, translated like the rest of the code: a test is the conjunction
  of its assertions over the definitions of the model, and a lemma shows that it passes.  Random
  bytes, clock readings and libraries that a test uses are its parameters.  Benchmarks and tests
  that only concern the type system are left out.
\<close>

section \<open>Nonces\<close>

text \<open>\<open>n.increment().unwrap()\<close> followed by \<open>n.to_vec()\<close>.\<close>

definition incremented :: "nonce \<Rightarrow> (bytes, 'e) outcome" where
  "incremented n = (case increment n of (r, n') \<Rightarrow> map_ok (\<lambda>_. deref n') (unwrap r))"

definition test_increment_zero :: bool where
  "test_increment_zero \<longleftrightarrow> incremented (nonce_new (replicate 15 0)) = (Ok ((replicate 15 0)[14 := 1]) :: (bytes, unit) outcome)"

definition test_increment_one :: bool where
  "test_increment_one \<longleftrightarrow>
     incremented (nonce_new ((replicate 15 0)[14 := 1])) = (Ok ((replicate 15 0)[14 := 2]) :: (bytes, unit) outcome)"

definition test_increment_carry :: bool where
  "test_increment_carry \<longleftrightarrow>
     incremented (nonce_new [0, 0, 0, 0, 0, 0, 0, 0, 0, 0, 0, 0, 255, 255, 255])
       = (Ok [0, 0, 0, 0, 0, 0, 0, 0, 0, 0, 0, 1, 0, 0, 0] :: (bytes, unit) outcome)"

definition test_increment_overflow :: bool where
  "test_increment_overflow \<longleftrightarrow>
     incremented (nonce_new [0, 0, 0, 0, 0, 0, 0, 0, 0, 0, 0, 255, 255, 255, 255])
       = (Ok [0, 0, 0, 0, 0, 0, 0, 0, 0, 0, 0, 0, 0, 0, 0] :: (bytes, unit) outcome)"

definition test_increment_exhaustion :: bool where
  "test_increment_exhaustion \<longleftrightarrow>
     (let n = \<lparr>current_value = [0, 0, 0, 0, 0, 0, 0, 0, 0, 0, 0, 255, 255, 255, 254],
               start_value = [0, 0, 0, 0, 0, 0, 0, 0, 0, 0, 0, 255, 255, 255, 255]\<rparr>;
          (r1, n1) = increment n; (r2, n2) = increment n1
      in (\<exists>e. r1 = Err e) \<and> (\<exists>e. r2 = Err e))"

definition test_double_increment_exhaustion :: bool where
  "test_double_increment_exhaustion \<longleftrightarrow>
     (let n = \<lparr>current_value = [0, 0, 0, 0, 0, 0, 0, 0, 0, 0, 0, 255, 255, 255, 253],
               start_value = [0, 0, 0, 0, 0, 0, 0, 0, 0, 0, 0, 255, 255, 255, 255]\<rparr>;
          (r1, n1) = increment n; (r2, n2) = increment n1
      in is_ok r1 \<and> deref n1 = [0, 0, 0, 0, 0, 0, 0, 0, 0, 0, 0, 255, 255, 255, 254] \<and> (\<exists>e. r2 = Err e))"

lemmas nonce_eval = increment_def incremented_def nonce_new_def deref_def read_u32_be_def write_u32_be_def nonce_sizes byte_eval

lemma nonce_tests:
  "test_increment_zero" "test_increment_one" "test_increment_carry" "test_increment_overflow"
  "test_increment_exhaustion" "test_double_increment_exhaustion"
  by (simp_all add: test_increment_zero_def test_increment_one_def test_increment_carry_def test_increment_overflow_def
      test_increment_exhaustion_def test_double_increment_exhaustion_def nonce_eval)

section \<open>Signatures\<close>

definition test_sc_minimal :: bool where
  "test_sc_minimal \<longleftrightarrow>
     list_all (\<lambda>s. sc_minimal s = (Ok True :: (bool, unit) outcome))
       [[0xec, 0xd3, 0xf5, 0x5c, 0x1a, 0x63, 0x12, 0x58, 0xd6, 0x9c, 0xf7, 0xa2, 0xde, 0xf9, 0xde, 0x14,
         0, 0, 0, 0, 0, 0, 0, 0, 0, 0, 0, 0, 0, 0, 0, 0x10],
        [0xed, 0xd3, 0xf5, 0x5c, 0x1a, 0x63, 0x12, 0x58, 0xd5, 0x9c, 0xf7, 0xa2, 0xde, 0xf9, 0xde, 0x14,
         0, 0, 0, 0, 0, 0, 0, 0, 0, 0, 0, 0, 0, 0, 0, 0x10],
        [0xed, 0xd3, 0xf5, 0x5c, 0x1a, 0x63, 0x12, 0x58, 0xd5, 0x9c, 0xf7, 0xa2, 0xde, 0xf9, 0xde, 0x14,
         0, 0, 0, 0, 0, 0, 0, 0, 0xff, 0xff, 0xff, 0xff, 0xff, 0xff, 0xff, 0x0f]]
   \<and> list_all (\<lambda>s. sc_minimal s = (Ok False :: (bool, unit) outcome))
       [[0xed, 0xd3, 0xf5, 0x5c, 0x1a, 0x63, 0x12, 0x58, 0xd6, 0x9c, 0xf7, 0xa2, 0xde, 0xf9, 0xde, 0x14,
         0, 0, 0, 0, 0, 0, 0, 0, 0, 0, 0, 0, 0, 0, 0, 0x10],
        [0xef, 0xd3, 0xf5, 0x5c, 0x1a, 0x63, 0x12, 0x58, 0xd6, 0x9c, 0xf7, 0xa2, 0xde, 0xf9, 0xde, 0x14,
         0, 0, 0, 0, 0, 0, 0, 0, 0, 0, 0, 0, 0, 0, 0, 0x10],
        [0xed, 0xd3, 0xf5, 0x5c, 0x1a, 0x63, 0x12, 0x58, 0xd7, 0x9c, 0xf7, 0xa2, 0xde, 0xf9, 0xde, 0x14,
         0, 0, 0, 0, 0, 0, 0, 0, 0, 0, 0, 0, 0, 0, 0, 0x10],
        [0xed, 0xd3, 0xf5, 0x5c, 0x1a, 0x63, 0x12, 0x58, 0xd6, 0x9c, 0xf7, 0xa2, 0xde, 0xf9, 0xde, 0x14,
         1, 0, 0, 0, 0, 0, 0, 0, 0, 0, 0, 0, 0, 0, 0, 0x10],
        [0xed, 0xd3, 0xf5, 0x5c, 0x1a, 0x63, 0x12, 0x58, 0xd6, 0x9c, 0xf7, 0xa2, 0xde, 0xf9, 0xde, 0x14,
         0, 0, 0, 0, 0, 0, 0, 0, 1, 0, 0, 0, 0, 0, 0, 0x10],
        [0x67, 0x65, 0x4b, 0xce, 0x38, 0x32, 0xc2, 0xd7, 0x6f, 0x8f, 0x6f, 0x5d, 0xaf, 0xc0, 0x8d, 0x93,
         0x39, 0xd4, 0xee, 0xf6, 0x76, 0x57, 0x33, 0x36, 0xa5, 0xc5, 0x1e, 0xb6, 0xf9, 0x46, 0xb3, 0x1d]]"

lemma test_sc_minimal_passes: "test_sc_minimal"
  unfolding test_sc_minimal_def by (simp add: sc_minimal_below_order ed25519_order_def)

text \<open>The two tests that must panic; the library rejects a secret key that is not 32 bytes long.\<close>

definition test_private_key_to_bytes :: "('sk, 'pk, 'sig) ed25519 \<Rightarrow> 'sk \<Rightarrow> bool" where
  "test_private_key_to_bytes ed random \<longleftrightarrow>
     (let secret = private_key_generate ed random
      in map_ok (private_key_public_key ed) (private_key_from_bytes ed (private_key_to_bytes ed secret))
           = (Ok (private_key_public_key ed secret) :: (_, unit) outcome))"

definition test_private_key_to_bytes_malformed_a :: "('sk, 'pk, 'sig) ed25519 \<Rightarrow> bool" where
  "test_private_key_to_bytes_malformed_a ed \<longleftrightarrow> private_key_from_bytes ed [] = (Panic :: (_, unit) outcome)"

definition test_private_key_to_bytes_malformed_b :: "('sk, 'pk, 'sig) ed25519 \<Rightarrow> bool" where
  "test_private_key_to_bytes_malformed_b ed \<longleftrightarrow> private_key_from_bytes ed [1, 2, 3] = (Panic :: (_, unit) outcome)"

lemma private_key_tests:
  "ed25519_laws ed \<Longrightarrow> test_private_key_to_bytes ed random"
  "(\<And>bs. length bs \<noteq> 32 \<Longrightarrow> sk_from_bytes ed bs = None) \<Longrightarrow>
     test_private_key_to_bytes_malformed_a ed \<and> test_private_key_to_bytes_malformed_b ed"
  by (simp_all add: test_private_key_to_bytes_def test_private_key_to_bytes_malformed_a_def
      test_private_key_to_bytes_malformed_b_def private_key_generate_def private_key_to_bytes_def
      private_key_from_bytes_def private_key_public_key_def ed25519_laws_def)

section \<open>The box\<close>

definition test_mrae_asymmetric :: "mrae_lib \<Rightarrow> bytes \<Rightarrow> bytes \<Rightarrow> bool" where
  "test_mrae_asymmetric lib ra rb \<longleftrightarrow>
     (let (a_pub, a_priv) = generate_key_pair lib ra;
          (b_pub, b_priv) = generate_key_pair lib rb;
          nonce = replicate NONCE_SIZE 1; text = ascii_bytes ''This is a test!''; aad = replicate 10 42
      in a_pub \<noteq> b_pub \<and> a_priv \<noteq> b_priv \<and> a_pub \<noteq> a_priv \<and> b_pub \<noteq> b_priv
       \<and> (\<exists>sealed. box_seal lib nonce text aad b_pub a_priv = Ok sealed
            \<and> box_open lib nonce sealed aad a_pub b_priv = Ok text))"

text \<open>The first assertions hold when the random draws give different keys.\<close>

lemma test_mrae_asymmetric_passes:
  assumes "dh_law lib" and "aead_law lib" and "ra \<noteq> rb" and "x25519_public lib ra \<noteq> x25519_public lib rb"
    and "x25519_public lib ra \<noteq> ra" and "x25519_public lib rb \<noteq> rb"
  shows "test_mrae_asymmetric lib ra rb"
  using assms(3-6) box_round_trip_key_pairs [OF assms(1,2) generate_key_pair_def generate_key_pair_def,
      of "replicate NONCE_SIZE 1" "ascii_bytes ''This is a test!''" "replicate 10 42" rb ra]
  by (auto simp: test_mrae_asymmetric_def generate_key_pair_def Let_def)

section \<open>The confidential context\<close>

definition default_contract :: "bytes \<times> contract_key" where
  "default_contract =
     (replicate 20 0, contract_key_new (array_default 32) (array_default 32) (array_default 32) [])"

definition no_contract_key :: vm_error where
  "no_contract_key = Confidential ''The confidential context must have a contract key when opening encrypted transaction data''"

definition test_ctx :: "nonce option \<Rightarrow> bool \<Rightarrow> confidential_ctx" where
  "test_ctx sn act =
     \<lparr>peer_public_key = Some (array_default 32), contract = Some default_contract,
      next_nonce = Some (nonce_new (replicate NONCE_SIZE 0)), ctx_activated = act, prev_block_hash = replicate 32 0,
      d2 = None, next_storage_nonce = sn\<rparr>"

definition test_decrypt_with_no_contract_key :: "conf_env \<Rightarrow> bool" where
  "test_decrypt_with_no_contract_key env \<longleftrightarrow>
     ctx_decrypt env (confidential_ctx_new (replicate 32 0)) [] = Err no_contract_key"

definition test_decrypt_invalid :: "conf_env \<Rightarrow> bool" where
  "test_decrypt_invalid env \<longleftrightarrow>
     ctx_decrypt env (test_ctx (Some (nonce_new (replicate NONCE_SIZE 0))) True) []
       = Err (Confidential ''invalid nonce or public key'')"

definition test_activated :: bool where
  "test_activated \<longleftrightarrow> activated (test_ctx None True) \<and> \<not> activated (confidential_ctx_new (replicate 32 0))"

definition test_decrypt_tx_data_after_deactivate :: "conf_env \<Rightarrow> bool" where
  "test_decrypt_tx_data_after_deactivate env \<longleftrightarrow>
     ctx_decrypt env (deactivate (test_ctx None False)) [] = Err no_contract_key"

lemma confidential_ctx_tests:
  "test_decrypt_with_no_contract_key env" "test_decrypt_invalid env" "test_activated" "test_decrypt_tx_data_after_deactivate env"
  by (simp_all add: test_decrypt_with_no_contract_key_def test_decrypt_invalid_def test_activated_def
      test_decrypt_tx_data_after_deactivate_def ctx_decrypt_def confidential_ctx_new_def no_contract_key_def test_ctx_def
      default_contract_def decrypt_def split_encrypted_payload_def wire_sizes activated_def deactivate_def)

section \<open>API sets and server addresses\<close>

definition test_api_parsing :: bool where
  "test_api_parsing \<longleftrightarrow>
     api_from_str ''web3'' = Ok Web3 \<and> api_from_str ''net'' = Ok Net \<and> api_from_str ''eth'' = Ok Eth
   \<and> api_from_str ''pubsub'' = Ok EthPubSub \<and> api_from_str ''oasis'' = Ok Oasis \<and> (\<exists>e. api_from_str ''rp'' = Err e)"

definition test_api_set_default :: bool where
  "test_api_set_default \<longleftrightarrow> api_set_eq UnsafeContext api_set_default"

definition parses_to :: "string \<Rightarrow> api set \<Rightarrow> bool" where
  "parses_to s apis \<longleftrightarrow> (\<exists>v. unwrap (api_set_from_str s) = (Ok v :: (api_set, unit) outcome) \<and> api_set_eq v (ListApis apis))"

definition test_api_set_parsing :: bool where
  "test_api_set_parsing \<longleftrightarrow> parses_to ''web3,eth'' {Web3, Eth}"

definition test_api_set_unsafe_context :: bool where
  "test_api_set_unsafe_context \<longleftrightarrow> list_apis UnsafeContext = {Web3, Net, Eth, EthPubSub, Oasis}"

definition test_api_set_safe_context :: bool where
  "test_api_set_safe_context \<longleftrightarrow> list_apis SafeContext = {Web3, Net, Eth, EthPubSub, Oasis}"

definition test_all_apis :: bool where
  "test_all_apis \<longleftrightarrow> parses_to ''all'' {Web3, Net, Eth, EthPubSub, Oasis}"

definition test_safe_parsing :: bool where
  "test_safe_parsing \<longleftrightarrow> parses_to ''safe'' {Web3, Net, Eth, EthPubSub, Oasis}"

lemma api_tests:
  "test_api_parsing" "test_api_set_default" "test_api_set_parsing" "test_api_set_unsafe_context"
  "test_api_set_safe_context" "test_all_apis" "test_safe_parsing"
  by (auto simp: test_api_parsing_def test_api_set_default_def test_api_set_parsing_def test_api_set_unsafe_context_def
      test_api_set_safe_context_def test_all_apis_def test_safe_parsing_def parses_to_def api_set_from_str_def
      parse_api_token_def api_from_str_def api_set_eq_def api_set_default_def)

definition should_return_proper_address :: "(string \<Rightarrow> 'd) \<Rightarrow> bool" where
  "should_return_proper_address hf \<longleftrightarrow>
     address hf False ''localhost'' 8180 None = None
   \<and> address hf True ''localhost'' 8180 None = Some (hf ''localhost:8180'')
   \<and> address hf True ''localhost'' 8180 (Some [''host:443'']) = Some (hf ''host:443'')
   \<and> address hf True ''localhost'' 8180 (Some [''host'']) = Some (hf ''host'')"

lemma address_test: "should_return_proper_address hf"
  by (simp add: should_return_proper_address_def address_def socket_url_def dec_string_def radix_string.simps digit_char_def char_of_def bit_0)

section \<open>Statistics and limits\<close>

text \<open>The clock readings of the tests, which assume that a test takes less than a second.\<close>

definition quick :: "nat \<Rightarrow> tick_clock \<Rightarrow> bool" where
  "quick t0 t \<longleftrightarrow> t_check t - t0 < 1000000000 \<and> t_pos t - t0 < 1000000000"

definition should_calculate_rate :: "nat \<Rightarrow> tick_clock \<Rightarrow> tick_clock \<Rightarrow> tick_clock \<Rightarrow> nat \<Rightarrow> nat \<Rightarrow> bool" where
  "should_calculate_rate t0 t1 t2 t3 r1 r2 \<longleftrightarrow>
     (let (_, avg1) = tick (rate_default t0) t1; (_, avg2) = tick avg1 t2; (_, avg3) = tick avg2 t3
      in rate avg3 r1 r2 = 3)"

definition should_count_rpc_stats :: "nat \<Rightarrow> nat \<Rightarrow> tick_clock \<Rightarrow> tick_clock \<Rightarrow> nat \<Rightarrow> nat \<Rightarrow> bytes \<Rightarrow> bytes \<Rightarrow> bool" where
  "should_count_rpc_stats t0 t1 c1 c2 r1 r2 one two \<longleftrightarrow>
     (let stats = rpc_stats_default t0;
          stats3 = open_session (close_session (open_session stats t0 one) one) t1 two;
          (_, stats4) = count_request stats3 c1 two; (_, stats5) = count_request stats4 c2 two
      in session_count stats = 0 \<and> requests_rate stats r1 r2 one = 0
       \<and> session_count stats5 = 1 \<and> requests_rate stats5 r1 r2 two = 2)"

lemma quick_tick:
  assumes "quick t0 t" and "length xs = RATE_SECONDS"
  shows "tick \<lparr>era = t0, samples = xs\<rparr> t =
    (saturating_add (xs ! 0) 1, \<lparr>era = t0, samples = xs[1 := 0, 0 := saturating_add (xs ! 0) 1]\<rparr>)"
  using assms by (simp add: quick_def tick_def new_era_def elapsed_def RATE_SECONDS_def Let_def)

lemma informant_tests:
  assumes "quick t0 a" and "quick t0 b" and "quick t0 c" and "r1 - t0 < 1000000000" and "r2 - t0 < 1000000000"
  shows "should_calculate_rate t0 a b c r1 r2" "should_count_rpc_stats t t0 a b r1 r2 one two"
  using assms
  by (simp_all add: should_calculate_rate_def should_count_rpc_stats_def rate_default_def quick_tick RATE_SECONDS_def Let_def
      saturating_add_def rate_def current_rate_def elapsed_def rpc_stats_default_def open_session_def close_session_def
      count_request_def session_count_def requests_rate_def byte_eval)

definition make_request :: "u64 \<Rightarrow> request" where
  "make_request i = Single (MethodCall (Some ''2.0'') ''test'' (IdNum i))"

text \<open>The handler of the tests answers nothing; an output is its error and identifier.\<close>

abbreviation test_output :: "(rpc_error \<times> rpc_id) output_from" where
  "test_output e i v \<equiv> (e, i)"

definition should_not_limit_request_rate :: "nat \<Rightarrow> nat \<Rightarrow> tick_clock \<Rightarrow> bytes \<Rightarrow> bool" where
  "should_not_limit_request_rate t t0 t1 session \<longleftrightarrow>
     fst (ws_on_request test_output 1 (Ws session) (\<lambda>r s. (None, s)) t1 (make_request 1)
            (open_session (rpc_stats_default t) t0 session, ())) = None"

definition should_limit_request_rate :: "nat \<Rightarrow> nat \<Rightarrow> tick_clock \<Rightarrow> tick_clock \<Rightarrow> bytes \<Rightarrow> bool" where
  "should_limit_request_rate t t0 t1 t2 session \<longleftrightarrow>
     (let dispatch = ws_on_request test_output 1 (Ws session) (\<lambda>r s. (None, s));
          (_, st) = dispatch t1 (make_request 1) (open_session (rpc_stats_default t) t0 session, ())
      in case fst (dispatch t2 (make_request 2) st) of
           Some (SingleR (err, i)) \<Rightarrow> err_code err = ServerError ERROR_RATE_LIMITED \<and> i = IdNum 2
         | _ \<Rightarrow> False)"

definition validate_error_output :: "rpc_error \<times> rpc_id \<Rightarrow> rpc_id \<Rightarrow> bool" where
  "validate_error_output failure i \<longleftrightarrow> err_code (fst failure) = ServerError ERROR_BATCH_SIZE \<and> snd failure = i"

definition should_limit_batch_size :: bool where
  "should_limit_batch_size \<longleftrightarrow>
     (let on_request = middleware_on_request test_output 1 (\<lambda>r s. (None, s));
          batch_1 = Batch [MethodCall (Some ''2.0'') ''test'' (IdNum 1)];
          batch_2 = Batch [MethodCall (Some ''2.0'') ''test'' (IdNum 2), Notification (Some ''2.0'') ''test'']
      in fst (on_request batch_1 ()) = None
       \<and> (case fst (on_request batch_2 ()) of
            Some (BatchR [o1, o2]) \<Rightarrow> validate_error_output o1 (IdNum 2) \<and> validate_error_output o2 IdNull
          | _ \<Rightarrow> False))"

lemma middleware_tests:
  assumes "quick t0 a" and "quick t0 b"
  shows "should_not_limit_request_rate t t0 a session" "should_limit_request_rate t t0 a b session" "should_limit_batch_size"
  using assms
  by (simp_all add: should_not_limit_request_rate_def should_limit_request_rate_def should_limit_batch_size_def validate_error_output_def
      ws_on_request_def count_request_def open_session_def rate_default_def quick_tick RATE_SECONDS_def saturating_add_def
      make_request_def error_rate_limited_def middleware_on_request_def generate_error_response_calls_def error_batch_size_def)

end
