(* ===== verification/Spec2Isabelle.thy ===== *)
theory Spec2Isabelle
  imports Service Cli Null_Backend Unit_Tests
begin

text \<open>
  A verification of the Oasis local chain: an Ethereum-compatible gateway over a simulated blockchain
  with confidential contracts.

  \<^bold>\<open>The program.\<close>  Clients talk JSON-RPC over HTTP and WebSocket (\<open>src/rpc.rs\<close>, \<open>src/servers.rs\<close>).
  Requests pass the middleware, which limits batches and rates (\<open>src/middleware.rs\<close>,
  \<open>src/informant.rs\<close>), and reach the handlers in \<open>src/impls\<close>.  These read and extend the simulated
  chain (\<open>src/blockchain.rs\<close>), which mines one block for each transaction, runs the Ethereum state
  machine over a key/value store (\<open>src/storage.rs\<close>) and gives it a confidential context
  (\<open>src/confidential\<close>).  The context encrypts storage, requests and responses with contract keys from
  the key manager (\<open>ekiden_keymanager\<close>) and primitives from \<open>ekiden_crypto\<close>.  A broker (\<open>src/pubsub.rs\<close>)
  tells the publish/subscribe clients about new blocks.  \<open>src/run.rs\<close>, \<open>src/lib.rs\<close> and \<open>bin/main.rs\<close> start
  and stop all this.

  \<^bold>\<open>The theories.\<close>  A function of the code is a definition of the same name, with a prefix where
  several types share a method name; a struct is a record, an enum a datatype; a call that may fail
  returns an \<open>outcome\<close> (\<open>Ok\<close>, \<open>Err\<close> or \<open>Panic\<close>); a method that mutates returns the new state.
    \<^item> \<open>Rust_Prelude\<close>: machine integers, outcomes, slices, integer encodings, decimal and hexadecimal
      text, reachability, and the locales for codecs and state machines.
    \<^item> \<open>Byte_Arrays\<close> (\<open>bytes.rs\<close>), \<open>Signature\<close> (\<open>hash.rs\<close>, \<open>signature.rs\<close>), \<open>Mrae\<close> (\<open>mrae/deoxysii.rs\<close>),
      \<open>Nonce\<close> (\<open>mrae/nonce.rs\<close>): the crypto crate.
    \<^item> \<open>Keymanager\<close> (\<open>api.rs\<close>, \<open>client.rs\<close>), \<open>Wire_Crypto\<close> (\<open>confidential/crypto.rs\<close>), \<open>Confidential_Ctx\<close>
      (\<open>confidential_ctx.rs\<close>: its step relation and invariant) and \<open>Confidential_Sessions\<close> (sequences of its
      operations: storage, sessions with clients, calls between contracts).
    \<^item> \<open>Storage\<close> (\<open>storage.rs\<close>: stores are addresses into a heap, so that clones alias), \<open>Util\<close> (\<open>util.rs\<close>),
      \<open>Blockchain\<close> (\<open>blockchain.rs\<close>: data and operations), \<open>Chain\<close> (its invariant and step relation),
      \<open>Chain_Properties\<close> (refinement of a list of blocks) and \<open>Chain_Logs\<close> (log queries),
      \<open>Null_Backend\<close> (\<open>parity.rs\<close>).
    \<^item> \<open>Informant\<close> and \<open>Middleware\<close>; \<open>Eth_Rpc\<close> (\<open>impls/eth.rs\<close>), \<open>Oasis_Rpc\<close> (\<open>impls/oasis.rs\<close>, \<open>net.rs\<close>,
      \<open>web3.rs\<close>, \<open>eth_signing.rs\<close>), \<open>Pubsub\<close> (\<open>pubsub.rs\<close>), \<open>Eth_Pubsub\<close> and \<open>Eth_Filter\<close>
      (\<open>impls/eth_pubsub.rs\<close>, \<open>impls/eth_filter.rs\<close>).
    \<^item> \<open>Rpc_Apis\<close>, \<open>Rpc\<close> (with \<open>servers.rs\<close>), \<open>Run\<close> (with \<open>start\<close> of \<open>lib.rs\<close>), \<open>Cli\<close> (\<open>bin/main.rs\<close>); \<open>Gateway\<close>
      and \<open>Heads_Feed\<close> put the parts together, \<open>Panics\<close> says where a request can panic, and \<open>Service\<close> is
      the running gateway as one state machine over the chain, the broker and the filter and
      subscription tables of both servers.
    \<^item> \<open>Unit_Tests\<close>: the unit tests of the repository as definitions over the model, each shown to pass.

  \<^bold>\<open>What is shown.\<close>
    \<^item> The chain state implements an append-only list of linked, consecutively numbered blocks; a
      transaction that is accepted appends one block and is found at once, a refused one changes
      nothing, history never changes, and a panic under the lock stops the node.
    \<^item> Nonces never repeat within their capacity, also in contract storage; requests and responses
      of a session are recovered; the payload parser's behaviour is known for every input, malformed
      and forged ones included; a published contract key opens the requests encrypted for it.
    \<^item> Log queries, the broker and head subscriptions deliver exactly the blocks of their range, in
      order and once; from start-up on a head subscriber is sent every block from block 1 on.  A
      logs filter without a limit never loses a log; it delivers each one once if no block is mined
      between the two reads of a poll, and otherwise delivers the logs of that block twice.
    \<^item> In every state that requests and ticks can reach after start-up, in any order, and while the
      lock of the chain is not poisoned, the gateway's own code does not panic: reads, filters, key
      requests, ticks and notifications never do, and submissions, state queries, calls and gas
      estimates exactly when the Ethereum library fails under them (an estimate also when the gas
      overflows).  The answer to every poll of a filter is known, also when it races with mining,
      and no filter is ahead of the chain by more than one block.
    \<^item> Rate and batch limits hold, and together bound the calls of a session that reach a handler;
      API lists mean what their last mention says; the command line is read back; a started gateway
      serves all APIs; the program without arguments starts, and its shutdown ends.
  The locales state the interfaces between parts: \<open>fixed_codec\<close>, \<open>bounded_counter\<close> (nonces),
  \<open>key_service\<close>, \<open>mkvs\<close>, \<open>block_source\<close> (the chain as its readers see it), \<open>block_cursor\<close> (a consumer
  that must see each block once: the broker's listeners and the logs filter), \<open>invariant_machine\<close> and
  \<open>growing_machine\<close>.  Each is interpreted on the definitions of the model.

  \<^bold>\<open>Parameters and hypotheses.\<close>  Third-party code is a record of functions that a definition takes as
  an argument: \<open>ed25519\<close> and \<open>sha_stream\<close>, \<open>mrae_lib\<close> (X25519, HMAC, Deoxys-II), \<open>chain_lib\<close> (Keccak, RLP,
  the Ethereum state), \<open>rpc_lib\<close>, \<open>subs_lib\<close>, \<open>poll_lib\<close>, \<open>rpc_env\<close> (the JSON-RPC libraries).  Theorems name
  what they need of it: \<open>dh_law\<close> and \<open>aead_law\<close>, \<open>collision_free\<close> (no two block numbers have the same
  Keccak digest), \<open>plain_filter\<close>, \<open>lists_apis\<close> (a hash set is visited completely), \<open>poll_law\<close> (the table of
  polls returns what was last written, or nothing), \<open>clock_law\<close> (the clock is monotonic and a sleep
  lasts).  Nothing is assumed about the executions of the Ethereum library: \<open>execution_fails\<close>,
  \<open>simulation_fails\<close> and \<open>query_fails\<close> say when one of them panics or its result cannot be used, which
  includes the panics of the confidential context that it calls back, on forged payloads and stored
  values that do not authenticate.  \<open>chain_oc\<close> and \<open>env_oc\<close> say whether the build checks for overflow;
  \<open>room\<close> says that block numbers below \<open>2^64\<close> are left.  Random bytes, clock readings and the order in which
  a hash set is visited are arguments.  Where the code releases a lock between two reads, the later
  read sees any later state (\<open>later_states\<close>, \<open>logs_between\<close>, \<open>filter_changes\<close>); in a poll of a logs
  filter the latest block and the logs are read in two states, and both ends of the log range in the
  second one.  The only unbounded loop, \<open>wait_loop\<close>, is a
  partial function that is shown to return within 300 rounds.

  \<^bold>\<open>Not modelled.\<close>  The Ethereum virtual machine, ciphers, hash functions and servers are libraries.
  \<open>src/genesis.rs\<close> is a constant that a library parses from a resource, and \<open>build.rs\<close> and the \<open>mod.rs\<close> files
  have no behaviour.  Benchmarks and \<open>new_test\<close> of the confidential context, which does not compile, are
  left out, and so are the panic of a failing random number generator, the raising of the limit on
  open files and the initialisation of the logger.  Futures are modelled by their
  results and by the states in which they run; the delivery of a notification to a socket, logging
  and the scheduling of tasks are left out.
\<close>

section \<open>Properties that span components\<close>

text \<open>
  From start-up on, both publish/subscribe clients of the gateway are told about every block:
  when the gateway has started and blocks are mined, then after any ticks of the broker a client
  that is still alive has been told the numbers \<open>1, 2, ...\<close> up to the latest block at the last tick,
  each once and in order.
\<close>

theorem gateway_clients_told:
  assumes "start lib env runtime new_interval c1 c2 args w = Ok (g, br, w')"
    and "lists_apis env" and "collision_free lib" and "c1 \<noteq> c2" and "c \<in> {c1, c2}" and "alive c"
    and "successively (\<lambda>s t. (chain_step lib)\<^sup>*\<^sup>* s t) ((rg_blockchain g, w') # ss)"
    and "\<And>t. t \<in> set ((rg_blockchain g, w') # ss) \<Longrightarrow> \<not> bc_poisoned (fst t) \<and> cs_block_number (bc_chain_state (fst t)) \<noteq> - 1"
  shows "\<exists>evs br'. broker_run alive (map fst ((rg_blockchain g, w') # ss)) br = (Ok (evs, br') :: (_, string) outcome)
    \<and> numbers_for c evs = block_range 1 (cs_block_number (bc_chain_state (fst (last ((rg_blockchain g, w') # ss)))))"
proof -
  note ex = assms(1) [unfolded start_def]
  have br: "br = \<lparr>last_notified_block = 0, listeners = [c1, c2]\<rparr>" by (rule execute_listeners [OF assms(2) ex])
  show ?thesis
  proof (rule registered_told [OF assms(7) _ assms(8)])
    show "reachable (chain_start lib) (chain_step lib) (rg_blockchain g, w')"
      by (rule reachable.reachable_start) (rule execute_chain_start [OF assms(3) ex])
    show "alive c \<and> registered c br" using assms(4-6) br by (auto simp: registered_def)
    show "last_notified_block br = 0" using br by simp
  qed
qed

theorem gateway_clients_told_witness:
  "\<exists>bc' evs br'. broker_run (\<lambda>_. True) [rg_blockchain sample_gateway, bc'] \<lparr>last_notified_block = 0, listeners = [0, 1 :: nat]\<rparr>
      = (Ok (evs, br') :: (_, string) outcome)
    \<and> numbers_for 1 evs = block_range 1 1"
proof -
  obtain bc' where s: "successively (\<lambda>s t. (chain_step sample_chain)\<^sup>*\<^sup>* s t) [(rg_blockchain sample_gateway, snd (sample_node [])), (bc', snd (sample_node []))]"
    and n: "\<not> bc_poisoned bc'" "cs_block_number (bc_chain_state bc') = 1"
    using sample_successor by (auto simp: sample_gateway_def)
  have start: "start sample_chain sample_rpc_env (Ok ()) (\<lambda>_. Ok ()) 0 1 sample_args sample_world =
      Ok (sample_gateway, \<lparr>last_notified_block = 0, listeners = [0, 1]\<rparr>, snd (sample_node []))"
    unfolding start_def by (rule sample_execute)
  have ok: "\<not> bc_poisoned (fst t) \<and> cs_block_number (bc_chain_state (fst t)) \<noteq> - 1"
    if "t \<in> set [(rg_blockchain sample_gateway, snd (sample_node [])), (bc', snd (sample_node []))]" for t
    using that n sample_node_start by (auto simp: sample_gateway_def)
  from gateway_clients_told [OF start sample_lists_apis sample_chain_collision_free _ _ _ s ok, of 1 "\<lambda>_. True"] n
  show ?thesis by (intro exI [of _ bc']) simp
qed

text \<open>
  C26. The life of the program without arguments: if the chain and the timer can be created and both
  addresses can be bound, the program starts, waits for its signal and ends; it releases the
  runtime, the HTTP server, the WebSocket server, the blockchain and the key manager in this order
  and then waits at most 300 rounds for the blockchain, with the timeout warning only after five
  minutes.  If the HTTP port is taken, the program ends without waiting, with a message that names the
  options \<open>--jsonrpc-port\<close> and \<open>--jsonrpc-interface\<close>, which the command line does not have.
\<close>

theorem default_program_runs:
  assumes "clock_law check check2"
    and "blockchain_new lib (10 ^ 9) 16000000 (w\<lparr>w_km := mock_client_new\<rparr>) = (Ok bc :: (blockchain, string) outcome, w')" and "new_interval 1 = Ok ()"
    and "parse_addr env ''127.0.0.1:8546'' = Some a1" and "\<And>b. \<exists>s. builder_start_ws env b a1 = Ok s"
    and "parse_addr env ''127.0.0.1:8545'' = Some a2"
  shows "let exit_state = main_program (\<lambda>args. start lib env (Ok ()) new_interval c1 c2 args w) (Ok ()) check dropped check2 Map.empty in
    ((\<forall>b. \<exists>s. builder_start_http env b a2 = Ok s) \<longrightarrow>
      (\<exists>http ws out n. n \<le> 300 \<and> (\<forall>j<n. \<not> dropped j) \<and> (timeout_warning \<in> set out \<longleftrightarrow> 300 * SEC \<le> check n)
        \<and> exit_state = Stopped ([RuntimeR, HttpServerR (Some http), WsServerR (Some ws), BlockchainR, KmClientR mock_client_new], Some (out, n))))
  \<and> (\<forall>e. (\<forall>b. builder_start_http env b a2 = Err e) \<and> http_addr_in_use env e \<longrightarrow>
      exit_state = NotStarted (''HTTP JSON-RPC address 127.0.0.1:8545 is already in use, make sure that another instance of an Ethereum client is not running or change the address using the --jsonrpc-port and --jsonrpc-interface options.''))
  \<and> ''jsonrpc-port'' \<notin> fst ` set arg_defaults \<and> ''jsonrpc-interface'' \<notin> fst ` set arg_defaults"
proof -
  let ?args = "\<lparr>ga_pubsub_interval_secs = 1, ga_interface = ''127.0.0.1'', ga_http_port = 8545, ga_num_threads = 1, ga_ws_port = 8546,
    ga_ws_max_connections = 10000, ga_gas_price = 10 ^ 9, ga_block_gas_limit = 16000000\<rparr>"
  obtain n where n: "n \<le> 300" "wait_for_drop check dropped check2 =
      Some ((if \<exists>j<n. check2 j > 60 * SEC then [slow_warning] else []) @ (if check n < 300 * SEC then [] else [timeout_warning]), n)"
    "\<forall>j<n. check j < 300 * SEC \<and> \<not> dropped j"
    using wait_loop_returns [OF assms(1), of 0 300 False "[]" dropped] unfolding wait_for_drop_def by auto
  have sw: "timeout_warning \<noteq> slow_warning" by (simp add: timeout_warning_def slow_warning_def)
  obtain ws b br where ex: "execute lib env (Ok ()) new_interval c1 c2 mock_client_new ?args w =
    (case builder_start_http env b a2 of
       Ok s \<Rightarrow> Ok (\<lparr>rg_blockchain = bc, rg_km_client = mock_client_new, rg_http_server = Some s, rg_ws_server = Some ws\<rparr>, br, w')
     | Err e \<Rightarrow> Err (http_start_error env ''HTTP JSON-RPC'' ''jsonrpc'' ''127.0.0.1:8545'' e)
     | Panic \<Rightarrow> Panic)"
    using execute_result [where args = ?args and new_interval = new_interval, unfolded gateway_args.select_convs default_urls, OF assms(2-6)] by blast
  let ?exit = "main_program (\<lambda>args. start lib env (Ok ()) new_interval c1 c2 args w) (Ok ()) check dropped check2 Map.empty"
  note run = main_program_def read_args_default start_def outcome.case ex
  have "\<exists>http ws out n. n \<le> 300 \<and> (\<forall>j<n. \<not> dropped j) \<and> (timeout_warning \<in> set out \<longleftrightarrow> 300 * SEC \<le> check n)
      \<and> ?exit = Stopped ([RuntimeR, HttpServerR (Some http), WsServerR (Some ws), BlockchainR, KmClientR mock_client_new], Some (out, n))"
    if "\<forall>b. \<exists>s. builder_start_http env b a2 = Ok s"
  proof -
    from that obtain s where "builder_start_http env b a2 = Ok s" by blast
    then have "?exit = Stopped ([RuntimeR, HttpServerR (Some s), WsServerR (Some ws), BlockchainR, KmClientR mock_client_new],
        wait_for_drop check dropped check2)" unfolding run by (simp add: shutdown_def)
    then show ?thesis unfolding n(2) using n(1,3) sw by (intro exI conjI) auto
  qed
  moreover have "?exit = NotStarted (''HTTP JSON-RPC address 127.0.0.1:8545 is already in use, make sure that another instance of an Ethereum client is not running or change the address using the --jsonrpc-port and --jsonrpc-interface options.'')"
    if "\<forall>b. builder_start_http env b a2 = Err e" "http_addr_in_use env e" for e
    unfolding run using that by (simp add: http_start_error_def)
  moreover have "''jsonrpc-port'' \<notin> fst ` set arg_defaults \<and> ''jsonrpc-interface'' \<notin> fst ` set arg_defaults"
    by (simp add: arg_defaults_def)
  ultimately show ?thesis unfolding Let_def by blast
qed

theorem default_program_runs_witness:
  "\<exists>http ws out n. n \<le> 40 \<and> timeout_warning \<notin> set out
     \<and> main_program (\<lambda>args. start sample_chain sample_rpc_env (Ok ()) (\<lambda>_. Ok ()) 0 1 args sample_world) (Ok ())
           (\<lambda>i. 2 * i * SEC) (\<lambda>i. i = 40) (\<lambda>i. 2 * i * SEC) Map.empty
         = Stopped ([RuntimeR, HttpServerR (Some http), WsServerR (Some ws), BlockchainR, KmClientR mock_client_new], Some (out, n))"
proof -
  have c: "clock_law (\<lambda>i. 2 * i * SEC) (\<lambda>i. 2 * i * SEC)" by (simp add: clock_law_def)
  obtain bc w where b: "blockchain_new sample_chain (10 ^ 9) 16000000 (sample_world\<lparr>w_km := mock_client_new\<rparr>) = (Ok bc :: (blockchain, string) outcome, w)"
    by (cases "memory_mkvs_new (w_heap sample_world)") (simp add: blockchain_new_def chain_state_new_def Let_def)
  have env: "parse_addr sample_rpc_env a = Some a" "\<exists>s. builder_start_ws sample_rpc_env wb a = Ok s"
    "\<exists>s. builder_start_http sample_rpc_env hb a = Ok s" for a wb hb
    by (simp_all add: local_rpc_env_def)
  obtain http ws out n where r: "\<forall>j<n. j \<noteq> 40" "timeout_warning \<in> set out \<longleftrightarrow> 300 * SEC \<le> 2 * n * SEC"
    "main_program (\<lambda>args. start sample_chain sample_rpc_env (Ok ()) (\<lambda>_. Ok ()) 0 1 args sample_world) (Ok ())
           (\<lambda>i. 2 * i * SEC) (\<lambda>i. i = 40) (\<lambda>i. 2 * i * SEC) Map.empty
         = Stopped ([RuntimeR, HttpServerR (Some http), WsServerR (Some ws), BlockchainR, KmClientR mock_client_new], Some (out, n))"
    using default_program_runs [OF c b _ env(1) env(2) env(1), of "\<lambda>_. Ok ()" 0 1 "\<lambda>i. i = 40"] env(3) unfolding Let_def by blast
  moreover have "n \<le> 40" using r(1) by (metis not_le)
  moreover have "timeout_warning \<notin> set out" using r(2) \<open>n \<le> 40\<close> by (simp add: SEC_def)
  ultimately show ?thesis by blast
qed

end
